(* ===== verification/Prelude.thy ===== *)
theory Prelude
  imports Main "HOL-Library.Word" "HOL-Library.Sublist"
begin

section \<open>Shared vocabulary\<close>

text \<open>
  Machine integers of the Rust sources, the two saturating operations the code uses, string
  prefixes and suffixes, number rendering in a radix, and the generic facts on maps, lists and
  runs that the component theories share. Strings are lists of bytes, as Rust's UTF-8 strings
  are.
\<close>

type_synonym u8 = "8 word"
type_synonym u32 = "32 word"
type_synonym u64 = "64 word"
type_synonym i32 = "32 word"
type_synonym i64 = "64 word"

named_theorems state_simps \<open>what each map of a component's state holds after one step\<close>

subsection \<open>Saturating arithmetic\<close>

text \<open>Rust's \<open>saturating_sub\<close> and \<open>saturating_add\<close> on unsigned integers.\<close>

definition saturating_sub :: "'a::len word \<Rightarrow> 'a word \<Rightarrow> 'a word" where
  "saturating_sub a b = (if b \<le> a then a - b else 0)"

definition saturating_add :: "'a::len word \<Rightarrow> 'a word \<Rightarrow> 'a word" where
  "saturating_add a b = (if unat a + unat b < 2 ^ LENGTH('a) then a + b else - 1)"

lemma unat_saturating_sub: "unat (saturating_sub a b) = unat a - unat b"
  by (auto simp: saturating_sub_def unat_sub word_le_nat_alt)

lemma saturating_sub_le: "saturating_sub a b \<le> a"
  by (simp add: word_le_nat_alt unat_saturating_sub)

lemma saturating_sub_exact: "b \<le> a \<Longrightarrow> saturating_sub a b = a - b"
  by (simp add: saturating_sub_def)

lemma saturating_sub_zero [simp]: "saturating_sub a 0 = a"
  by (simp add: saturating_sub_def)

lemma saturating_add_zero [simp]: "saturating_add 0 b = b"
  by (simp add: saturating_add_def)

lemma unat_saturating_add:
  fixes a b :: "'a::len word"
  shows "unat (saturating_add a b) = min (unat a + unat b) (2 ^ LENGTH('a) - 1)"
proof (cases "unat a + unat b < 2 ^ LENGTH('a)")
  case True
  then show ?thesis
    by (simp add: saturating_add_def unat_word_ariths)
next
  case False
  then show ?thesis
    by (simp add: saturating_add_def unsigned_minus_1_eq_mask mask_eq_exp_minus_1)
qed

lemma unat_of_nat_small: "n < 2 ^ LENGTH('a) \<Longrightarrow> unat (of_nat n :: 'a::len word) = n"
  by (simp add: unat_of_nat)

lemma of_nat_word_inj:
  assumes "m < 2 ^ LENGTH('a)" "n < 2 ^ LENGTH('a)" "(of_nat m :: 'a::len word) = of_nat n"
  shows "m = n"
proof -
  have "unat (of_nat m :: 'a word) = unat (of_nat n :: 'a word)"
    by (simp only: assms(3))
  then show ?thesis
    by (simp only: unat_of_nat_small assms(1,2))
qed

subsection \<open>Prefixes and suffixes of strings\<close>

text \<open>\<open>str::starts_with\<close> and \<open>str::ends_with\<close>.\<close>

definition starts_with :: "string \<Rightarrow> string \<Rightarrow> bool" where
  "starts_with s p \<longleftrightarrow> take (length p) s = p"

definition ends_with :: "string \<Rightarrow> string \<Rightarrow> bool" where
  "ends_with s p \<longleftrightarrow> starts_with (rev s) (rev p)"

lemma starts_with_prefix: "starts_with s p \<longleftrightarrow> prefix p s"
  by (auto simp: starts_with_def prefix_def) (metis append_take_drop_id)

lemma starts_with_append [simp]: "starts_with (p @ s) p"
  by (simp add: starts_with_def)

lemma ends_with_append [simp]: "ends_with (s @ p) p"
  by (simp add: ends_with_def starts_with_def)

text \<open>Two prefixes of one string are prefixes of each other.\<close>

lemma starts_with_both:
  "starts_with s p \<Longrightarrow> starts_with s q \<Longrightarrow> starts_with p q \<or> starts_with q p"
  by (auto simp: starts_with_prefix dest: prefix_same_cases)

subsection \<open>Numbers in a radix\<close>

text \<open>
  \<open>radix_digits b n\<close> lists the digits of \<open>n\<close>, most significant first, as
  \<open>Display\<close> (\<open>b = 10\<close>) and \<open>LowerHex\<close> (\<open>b = 16\<close>) print them.
\<close>

fun radix_digits :: "nat \<Rightarrow> nat \<Rightarrow> nat list" where
  "radix_digits b n =
     (if b < 2 \<or> n < b then [n] else radix_digits b (n div b) @ [n mod b])"

declare radix_digits.simps [simp del]

definition radix_value :: "nat \<Rightarrow> nat list \<Rightarrow> nat" where
  "radix_value b ds = foldl (\<lambda>acc d. acc * b + d) 0 ds"

lemma radix_value_snoc: "radix_value b (ds @ [d]) = radix_value b ds * b + d"
  by (simp add: radix_value_def)

lemma radix_value_digits: "radix_value b (radix_digits b n) = n"
proof (induction b n rule: radix_digits.induct)
  case (1 b n)
  show ?case
  proof (cases "b < 2 \<or> n < b")
    case True
    then show ?thesis by (simp add: radix_digits.simps [of b n] radix_value_def)
  next
    case False
    with "1.IH" show ?thesis
      by (simp add: radix_digits.simps [of b n] radix_value_snoc)
  qed
qed

lemma radix_digits_bounded: "2 \<le> b \<Longrightarrow> d \<in> set (radix_digits b n) \<Longrightarrow> d < b"
proof (induction b n rule: radix_digits.induct)
  case (1 b n)
  then show ?case
    by (cases "n < b") (auto simp: radix_digits.simps [of b n])
qed

lemma radix_digits_nonempty [simp]: "radix_digits b n \<noteq> []"
  by (simp add: radix_digits.simps [of b n])

definition digit_char :: "nat \<Rightarrow> char" where
  "digit_char d = (if d < 10 then char_of (48 + d) else char_of (87 + d))"

definition decimal :: "nat \<Rightarrow> string" where
  "decimal n = map digit_char (radix_digits 10 n)"

definition lower_hex :: "nat \<Rightarrow> string" where
  "lower_hex n = map digit_char (radix_digits 16 n)"

lemma decimal_nonempty [simp]: "decimal n \<noteq> []"
  by (simp add: decimal_def)

lemma lower_hex_nonempty [simp]: "lower_hex n \<noteq> []"
  by (simp add: lower_hex_def)

text \<open>\<open>{:<w}\<close>, \<open>{:>w}\<close> and \<open>{:0w}\<close>: left, right and zero padding to a width.\<close>

definition pad_left :: "nat \<Rightarrow> string \<Rightarrow> string" where
  "pad_left w s = s @ replicate (w - length s) (CHR '' '')"

definition pad_right :: "nat \<Rightarrow> string \<Rightarrow> string" where
  "pad_right w s = replicate (w - length s) (CHR '' '') @ s"

definition pad_zero :: "nat \<Rightarrow> string \<Rightarrow> string" where
  "pad_zero w s = replicate (w - length s) (CHR ''0'') @ s"

subsection \<open>Maps\<close>

lemma map_le_upd_same: "m \<subseteq>\<^sub>m n \<Longrightarrow> m(k \<mapsto> v) \<subseteq>\<^sub>m n(k \<mapsto> v)"
  by (auto simp: map_le_def)

lemma map_le_del_same: "m \<subseteq>\<^sub>m n \<Longrightarrow> m(k := None) \<subseteq>\<^sub>m n(k := None)"
  by (auto simp: map_le_def split: if_splits)

lemma map_le_del_left: "m \<subseteq>\<^sub>m n \<Longrightarrow> m(k := None) \<subseteq>\<^sub>m n"
  by (auto simp: map_le_def)

lemma map_leD: "m \<subseteq>\<^sub>m n \<Longrightarrow> m k = Some v \<Longrightarrow> n k = Some v"
  by (auto simp: map_le_def dom_def)

lemma card_dom_del_le: "finite (dom m) \<Longrightarrow> card (dom (m(k := None))) \<le> card (dom m)"
  by (simp add: card_Diff1_le)

subsection \<open>Positions\<close>

lemma position_bound:
  "p \<in> set ps \<Longrightarrow> length (takeWhile (\<lambda>q. q \<noteq> p) ps) < length ps \<and>
     ps ! length (takeWhile (\<lambda>q. q \<noteq> p) ps) = p"
  by (induction ps) auto

subsection \<open>Runs\<close>

text \<open>
  A component's run is \<open>fold step es s\<close>; the lift of a one-step invariant to a run is
  proved once.
\<close>

lemma fold_invariant_run:
  assumes "\<And>e s. e \<in> set es \<Longrightarrow> I s \<Longrightarrow> I (step e s)" and "I s"
  shows "I (fold step es s)"
  using assms by (induction es arbitrary: s) auto

lemma fold_snoc: "fold f (xs @ [x]) s = f x (fold f xs s)"
  by simp

end
