(* ===== verification/Bpf_Platform.thy ===== *)
theory Bpf_Platform
  imports Prelude
begin

section \<open>What the BPF programs see of the kernel\<close>

text \<open>
  The kernel and the \<open>aya-ebpf\<close> crate are not part of the repository. A BPF map is modelled by
  what the programs can observe of it, the entries a lookup returns (\<open>'k \<rightharpoonup> 'v\<close>), and
  the kernel's answers to \<open>insert\<close> and \<open>remove\<close> are parameters (\<open>map_ops\<close>) that every probe
  hit brings along, so a refused insert and an evicted entry may occur at any hit. What the
  kernel documents about them is stated below as predicates on those parameters, which the
  theorems that need them name as hypotheses:
  \<^item> \<open>hash_ops_ok\<close>: \<open>BPF_MAP_TYPE_HASH\<close> stores exactly the given entry or, refusing, changes
    nothing; deletion removes exactly the key;
  \<^item> \<open>lru_ops_ok\<close>: \<open>BPF_MAP_TYPE_LRU_HASH\<close> stores the given entry and may evict others;
  \<^item> \<open>update_admits\<close>: no insert is refused; \<open>update_spares k\<close>: inserting another key does not
    evict \<open>k\<close>; \<open>update_bounded n\<close>: the map never holds more than \<open>n\<close> entries.
\<close>

record ('k, 'v) map_ops =
  map_update :: "('k \<rightharpoonup> 'v) \<Rightarrow> 'k \<Rightarrow> 'v \<Rightarrow> (i64 + unit) \<times> ('k \<rightharpoonup> 'v)"
  map_remove :: "('k \<rightharpoonup> 'v) \<Rightarrow> 'k \<Rightarrow> (i64 + unit) \<times> ('k \<rightharpoonup> 'v)"

definition remove_ok :: "('k, 'v) map_ops \<Rightarrow> bool" where
  "remove_ok ops \<longleftrightarrow> (\<forall>m k. snd (map_remove ops m k) = m(k := None))"

definition hash_ops_ok :: "('k, 'v) map_ops \<Rightarrow> bool" where
  "hash_ops_ok ops \<longleftrightarrow> remove_ok ops \<and>
     (\<forall>m k v. map_update ops m k v = (Inr (), m(k \<mapsto> v)) \<or>
              (\<exists>e. map_update ops m k v = (Inl e, m)))"

definition lru_ops_ok :: "('k, 'v) map_ops \<Rightarrow> bool" where
  "lru_ops_ok ops \<longleftrightarrow> remove_ok ops \<and>
     (\<forall>m k v. (\<exists>m'. map_update ops m k v = (Inr (), m') \<and> m' k = Some v \<and>
                     m' \<subseteq>\<^sub>m m(k \<mapsto> v)) \<or>
              (\<exists>e m'. map_update ops m k v = (Inl e, m') \<and> m' \<subseteq>\<^sub>m m))"

definition update_admits :: "('k, 'v) map_ops \<Rightarrow> bool" where
  "update_admits ops \<longleftrightarrow> (\<forall>m k v. fst (map_update ops m k v) = Inr ())"

definition update_spares :: "'k \<Rightarrow> ('k, 'v) map_ops \<Rightarrow> bool" where
  "update_spares k ops \<longleftrightarrow> (\<forall>m k' v. k' \<noteq> k \<longrightarrow> snd (map_update ops m k' v) k = m k)"

definition map_bounded :: "nat \<Rightarrow> ('k \<rightharpoonup> 'v) \<Rightarrow> bool" where
  "map_bounded cap m \<longleftrightarrow> finite (dom m) \<and> card (dom m) \<le> cap"

definition update_bounded :: "nat \<Rightarrow> ('k, 'v) map_ops \<Rightarrow> bool" where
  "update_bounded cap ops \<longleftrightarrow>
     (\<forall>m k v. map_bounded cap m \<longrightarrow> map_bounded cap (snd (map_update ops m k v)))"

subsection \<open>Reading the laws\<close>

lemma hash_remove: "hash_ops_ok ops \<Longrightarrow> snd (map_remove ops m k) = m(k := None)"
  by (simp add: hash_ops_ok_def remove_ok_def)

lemma lru_remove: "lru_ops_ok ops \<Longrightarrow> snd (map_remove ops m k) = m(k := None)"
  by (simp add: lru_ops_ok_def remove_ok_def)

lemma hash_update_cases:
  assumes "hash_ops_ok ops"
  obtains (refused) e where "map_update ops m k v = (Inl e, m)"
    | (stored) "map_update ops m k v = (Inr (), m(k \<mapsto> v))"
  using assms unfolding hash_ops_ok_def by metis

lemma lru_update_cases:
  assumes "lru_ops_ok ops"
  obtains (refused) e m' where "map_update ops m k v = (Inl e, m')" "m' \<subseteq>\<^sub>m m"
    | (stored) m' where "map_update ops m k v = (Inr (), m')" "m' k = Some v"
        "m' \<subseteq>\<^sub>m m(k \<mapsto> v)"
  using assms unfolding lru_ops_ok_def by metis

lemma hash_ops_lru: "hash_ops_ok ops \<Longrightarrow> lru_ops_ok ops"
  unfolding hash_ops_ok_def lru_ops_ok_def by (metis fun_upd_same map_le_refl)

lemma hash_update_other:
  "hash_ops_ok ops \<Longrightarrow> k' \<noteq> k \<Longrightarrow> snd (map_update ops m k v) k' = m k'"
  by (erule hash_update_cases [of ops m k v]) simp_all

lemma hash_update_same:
  "hash_ops_ok ops \<Longrightarrow> snd (map_update ops m k v) k = Some w \<Longrightarrow> m k = Some w \<or> v = w"
  by (erule hash_update_cases [of ops m k v]) simp_all

lemma hash_update_admitted:
  assumes "hash_ops_ok ops" and "update_admits ops"
  shows "map_update ops m k v = (Inr (), m(k \<mapsto> v))"
proof -
  have "fst (map_update ops m k v) = Inr ()"
    using assms(2) by (simp add: update_admits_def)
  then show ?thesis
    by (rule_tac hash_update_cases [OF assms(1), of m k v]) simp_all
qed

lemma lru_update_Some:
  assumes "lru_ops_ok ops" and "snd (map_update ops m k v) k' = Some w"
  shows "m k' = Some w \<or> k' = k \<and> v = w"
  using assms(2)
  by (rule_tac lru_update_cases [OF assms(1), of m k v])
    (auto dest!: map_leD split: if_splits)

lemma lru_update_admitted:
  assumes "lru_ops_ok ops" and "update_admits ops"
  obtains m' where "map_update ops m k v = (Inr (), m')" "m' k = Some v" "m' \<subseteq>\<^sub>m m(k \<mapsto> v)"
proof -
  have "fst (map_update ops m k v) = Inr ()"
    using assms(2) by (simp add: update_admits_def)
  then show ?thesis
    using that by (rule_tac lru_update_cases [OF assms(1), of m k v]) auto
qed

lemma lru_update_admitted_at:
  "lru_ops_ok ops \<Longrightarrow> update_admits ops \<Longrightarrow> snd (map_update ops m k v) k = Some v"
  by (rule lru_update_admitted [of ops m k v]) simp_all

lemma bounded_empty [simp]: "map_bounded cap Map.empty"
  by (simp add: map_bounded_def)

lemma bounded_update:
  "update_bounded cap ops \<Longrightarrow> map_bounded cap m \<Longrightarrow> map_bounded cap (snd (map_update ops m k v))"
  by (simp add: update_bounded_def)

lemma bounded_remove:
  assumes "remove_ok ops" "map_bounded cap m"
  shows "map_bounded cap (snd (map_remove ops m k))"
proof -
  have "card (dom (m(k := None))) \<le> card (dom m)"
    using assms(2) by (intro card_dom_del_le) (simp add: map_bounded_def)
  then show ?thesis
    using assms by (simp add: map_bounded_def remove_ok_def)
qed

lemma map_ops_remove_ok: "hash_ops_ok ops \<Longrightarrow> remove_ok ops" "lru_ops_ok ops \<Longrightarrow> remove_ok ops"
  by (simp_all add: hash_ops_ok_def lru_ops_ok_def)

lemma update_spares_other:
  "update_spares k ops \<Longrightarrow> k' \<noteq> k \<Longrightarrow> snd (map_update ops m k' v) k = m k"
  by (simp add: update_spares_def)

text \<open>The effect of a lawful kernel on one key.\<close>

lemma hash_update_at:
  "snd (map_update ops m t v) k = Some w \<Longrightarrow> hash_ops_ok ops \<Longrightarrow>
     m k = Some w \<or> k = t \<and> w = v"
  using hash_update_other [of ops k t m v] hash_update_same [of ops m t v w] by (cases "k = t") auto

lemma lru_update_at:
  "snd (map_update ops m t v) k = Some w \<Longrightarrow> lru_ops_ok ops \<Longrightarrow>
     m k = Some w \<or> k = t \<and> w = v"
  using lru_update_Some [of ops m t v k w] by auto

subsection \<open>Kernels that satisfy the laws\<close>

text \<open>
  An unbounded map, a map that refuses every new entry, and a map that evicts a given set of
  keys at every insert. They show that the laws can hold, and the witnesses run on them.
\<close>

definition roomy_ops :: "('k, 'v) map_ops" where
  "roomy_ops = \<lparr>map_update = (\<lambda>m k v. (Inr (), m(k \<mapsto> v))),
                map_remove = (\<lambda>m k. (Inr (), m(k := None)))\<rparr>"

definition full_ops :: "('k, 'v) map_ops" where
  "full_ops = \<lparr>map_update = (\<lambda>m k v. (Inl (- 7), m)),
               map_remove = (\<lambda>m k. (Inr (), m(k := None)))\<rparr>"

definition evicting_ops :: "'k set \<Rightarrow> ('k, 'v) map_ops" where
  "evicting_ops ks = \<lparr>map_update = (\<lambda>m k v. (Inr (), (m |` (- ks))(k \<mapsto> v))),
                      map_remove = (\<lambda>m k. (Inr (), m(k := None)))\<rparr>"

lemma roomy_ops_simps [simp]:
  "map_update roomy_ops m k v = (Inr (), m(k \<mapsto> v))"
  "map_remove roomy_ops m k = (Inr (), m(k := None))"
  by (simp_all add: roomy_ops_def)

lemma full_ops_simps [simp]:
  "map_update full_ops m k v = (Inl (- 7), m)"
  "map_remove full_ops m k = (Inr (), m(k := None))"
  by (simp_all add: full_ops_def)

lemma evicting_ops_simps [simp]:
  "map_update (evicting_ops ks) m k v = (Inr (), (m |` (- ks))(k \<mapsto> v))"
  "map_remove (evicting_ops ks) m k = (Inr (), m(k := None))"
  by (simp_all add: evicting_ops_def)

lemma kernel_laws [simp]:
  "hash_ops_ok roomy_ops" "hash_ops_ok full_ops" "lru_ops_ok roomy_ops"
  "lru_ops_ok (evicting_ops ks)" "update_admits roomy_ops" "update_admits (evicting_ops ks)"
  "update_spares k roomy_ops" "update_spares k full_ops"
  by (auto simp: hash_ops_ok_def lru_ops_ok_def remove_ok_def update_admits_def
      update_spares_def map_le_def restrict_map_def)

text \<open>
  Kernels that keep a declared size \<open>n\<close>: a hash map that refuses a new key when it is full, and
  an LRU map that drops everything but the new entry then.
\<close>

definition capped_ops :: "nat \<Rightarrow> ('k, 'v) map_ops" where
  "capped_ops n =
     \<lparr>map_update = (\<lambda>m k v. if m k \<noteq> None \<or> card (dom m) < n then (Inr (), m(k \<mapsto> v))
                             else (Inl (- 7), m)),
      map_remove = (\<lambda>m k. (Inr (), m(k := None)))\<rparr>"

definition lru_capped_ops :: "nat \<Rightarrow> ('k, 'v) map_ops" where
  "lru_capped_ops n =
     \<lparr>map_update = (\<lambda>m k v. if m k \<noteq> None \<or> card (dom m) < n then (Inr (), m(k \<mapsto> v))
                             else (Inr (), [k \<mapsto> v])),
      map_remove = (\<lambda>m k. (Inr (), m(k := None)))\<rparr>"

lemma map_bounded_store:
  assumes "map_bounded n m" "m k \<noteq> None \<or> card (dom m) < n"
  shows "map_bounded n (m(k \<mapsto> v))"
  using assms by (auto simp: map_bounded_def card_insert_if)

lemma capped_laws [simp]:
  "hash_ops_ok (capped_ops n)" "lru_ops_ok (lru_capped_ops n)" "update_admits (lru_capped_ops n)"
  by (auto simp: hash_ops_ok_def lru_ops_ok_def remove_ok_def update_admits_def capped_ops_def
      lru_capped_ops_def map_le_def)

lemma capped_bounded [simp]:
  "update_bounded n (capped_ops n)" "0 < n \<Longrightarrow> update_bounded n (lru_capped_ops n)"
  by (simp_all add: update_bounded_def capped_ops_def lru_capped_ops_def map_bounded_store)

subsection \<open>A probe hit\<close>

text \<open>
  What the helpers return during one hit: \<open>bpf_get_current_pid_tgid\<close>, \<open>bpf_ktime_get_ns\<close>
  (no handler reads the clock twice), the processor the handler runs on, the probed function's
  arguments (\<open>ctx.arg(n)\<close>) and return value (\<open>ctx.ret()\<close>), and whether the ring buffer has
  room for a record.
\<close>

record hook =
  pid_tgid :: u64
  ktime :: u64
  cpu :: nat

record probe_hit = hook +
  reg_arg :: "nat \<Rightarrow> u64 option"
  reg_ret :: "u64 option"
  ring_room :: bool

text \<open>
  \<open>(bpf_get_current_pid_tgid() & 0xffff_ffff) as u32\<close> and
  \<open>(bpf_get_current_pid_tgid() >> 32) as u32\<close>.
\<close>

definition tid_of :: "'a hook_scheme \<Rightarrow> u32" where
  "tid_of c = ucast (and (pid_tgid c) 0xffffffff)"

definition tgid_of :: "'a hook_scheme \<Rightarrow> u32" where
  "tgid_of c = ucast (drop_bit 32 (pid_tgid c))"

text \<open>The value the kernel returns for thread \<open>t\<close> of process \<open>g\<close>.\<close>

definition task_id :: "u32 \<Rightarrow> u32 \<Rightarrow> u64" where
  "task_id g t = or (push_bit 32 (ucast g)) (ucast t)"

lemma low_mask_64: "(0xffffffff :: u64) = mask 32"
  by (simp add: mask_eq_exp_minus_1)

lemma bit_u32_high [simp]: "32 \<le> n \<Longrightarrow> \<not> bit (t :: u32) n"
  using bit_imp_le_length [of t n] by auto

lemma tid_of_task_id: "pid_tgid c = task_id g t \<Longrightarrow> tid_of c = t"
  by (rule bit_word_eqI) (auto simp: tid_of_def task_id_def low_mask_64 bit_simps)

lemma tgid_of_task_id: "pid_tgid c = task_id g t \<Longrightarrow> tgid_of c = g"
  by (rule bit_word_eqI) (auto simp: tgid_of_def task_id_def bit_simps)

text \<open>\<open>let _ = try_...(&ctx); 0\<close>: a probe body's error is dropped, the program returns 0.\<close>

definition ignore_result :: "(i64 + unit) \<times> 's \<Rightarrow> u32 \<times> 's" where
  "ignore_result r = (0, snd r)"

lemma ignore_result_simps [simp]:
  "fst (ignore_result r) = 0" "snd (ignore_result r) = snd r"
  by (simp_all add: ignore_result_def)

end
