(* ===== verification/Inflight.thy ===== *)
theory Inflight
  imports Prelude
begin

section \<open>In-flight tables\<close>

text \<open>
  Every probe pair of the four BPF programs works the same way: an entry hit stores a record
  under a key, an exit hit takes it out again. The two interfaces state what a component
  promises about such a table, and derive what the pair's correctness rests on:
  \<^item> \<open>tracked\<close>: an entry of the table can only have been put there by an opening hit. It holds
    of LRU tables too. Derived: every entry seen after a run has an opening hit in that run
    (provenance).
  \<^item> \<open>inflight\<close>: in addition, hits that do not touch a key leave it alone. Derived: an entry
    survives any run of foreign hits, so the exit hit finds what its own entry hit stored.
\<close>

text \<open>
  \<open>along P step es s\<close>: every hit of the run satisfies \<open>P\<close> in the state it meets.
\<close>

fun along :: "('e \<Rightarrow> 's \<Rightarrow> bool) \<Rightarrow> ('e \<Rightarrow> 's \<Rightarrow> 's) \<Rightarrow> 'e list \<Rightarrow> 's \<Rightarrow> bool" where
  "along P step [] s = True"
| "along P step (e # es) s = (P e s \<and> along P step es (step e s))"

lemma along_append:
  "along P step (es @ fs) s \<longleftrightarrow> along P step es s \<and> along P step fs (fold step es s)"
  by (induction es arbitrary: s) auto

lemma along_mono:
  "along P step es s \<Longrightarrow> (\<And>e s. P e s \<Longrightarrow> Q e s) \<Longrightarrow> along Q step es s"
  by (induction es arbitrary: s) auto

lemma along_all: "\<forall>e \<in> set es. P e \<Longrightarrow> along (\<lambda>e s. P e) step es s"
  by (induction es arbitrary: s) auto

locale tracked =
  fixes slot :: "'s \<Rightarrow> 'k \<Rightarrow> 'v option"
    and step :: "'e \<Rightarrow> 's \<Rightarrow> 's"
    and good :: "'e \<Rightarrow> bool"
    and opens :: "'s \<Rightarrow> 'e \<Rightarrow> 'k \<Rightarrow> 'v \<Rightarrow> bool"
  assumes origin: "good e \<Longrightarrow> slot (step e s) k = Some v \<Longrightarrow> slot s k = Some v \<or> opens s e k v"
begin

lemma origin_run:
  assumes "\<forall>e \<in> set es. good e" and "slot (fold step es s) k = Some v"
  shows "slot s k = Some v \<or>
    (\<exists>es1 e es2. es = es1 @ e # es2 \<and> opens (fold step es1 s) e k v)"
  using assms
proof (induction es arbitrary: v rule: rev_induct)
  case Nil
  then show ?case by simp
next
  case (snoc e es)
  let ?t = "fold step es s"
  from snoc.prems have "good e" and "slot (step e ?t) k = Some v"
    by simp_all
  then consider "slot ?t k = Some v" | "opens ?t e k v"
    using origin by blast
  then show ?case
  proof cases
    case 1
    then have "slot s k = Some v \<or>
      (\<exists>es1 e' es2. es = es1 @ e' # es2 \<and> opens (fold step es1 s) e' k v)"
      using snoc.IH snoc.prems(1) by simp
    then show ?thesis
    proof
      assume "\<exists>es1 e' es2. es = es1 @ e' # es2 \<and> opens (fold step es1 s) e' k v"
      then obtain es1 e' es2 where "es = es1 @ e' # es2" "opens (fold step es1 s) e' k v"
        by blast
      then have "es @ [e] = es1 @ e' # (es2 @ [e]) \<and> opens (fold step es1 s) e' k v"
        by simp
      then show ?thesis by blast
    qed simp
  next
    case 2
    then show ?thesis by blast
  qed
qed

lemma origin_from_empty:
  assumes "\<forall>e \<in> set es. good e" and "slot s k = None" and "slot (fold step es s) k = Some v"
  obtains es1 e es2 where "es = es1 @ e # es2" "opens (fold step es1 s) e k v"
  using origin_run [OF assms(1,3)] assms(2) by auto

end

locale inflight = tracked slot step good opens
  for slot :: "'s \<Rightarrow> 'k \<Rightarrow> 'v option" and step :: "'e \<Rightarrow> 's \<Rightarrow> 's"
    and good :: "'e \<Rightarrow> bool" and opens :: "'s \<Rightarrow> 'e \<Rightarrow> 'k \<Rightarrow> 'v \<Rightarrow> bool" +
  fixes touches :: "'s \<Rightarrow> 'e \<Rightarrow> 'k \<Rightarrow> bool"
  assumes frame: "good e \<Longrightarrow> \<not> touches s e k \<Longrightarrow> slot (step e s) k = slot s k"
begin

lemma frame_run:
  "along (\<lambda>e s. good e \<and> \<not> touches s e k) step es s \<Longrightarrow> slot (fold step es s) k = slot s k"
  by (induction es arbitrary: s) (auto simp: frame)

lemma survives_run:
  assumes "slot s k = Some v" and "along (\<lambda>e s. good e \<and> \<not> touches s e k) step es s"
  shows "slot (fold step es s) k = Some v"
  using frame_run [OF assms(2)] assms(1) by simp

lemma absent_run:
  assumes "slot s k = None" and "along (\<lambda>e s. good e \<and> \<not> touches s e k) step es s"
  shows "slot (fold step es s) k = None"
  using frame_run [OF assms(2)] assms(1) by simp

end

end
