(* ===== verification/Wire.thy ===== *)
theory Wire
  imports Prelude
begin

section \<open>Wire records between kernel and user space\<close>

text \<open>
  \<open>tragach-common/src/event.rs\<close>: the \<open>#[repr(C)]\<close> records the BPF programs write into the ring
  buffer and the user-space tools read back with \<open>read_unaligned\<close>. Both ends run on a
  little-endian target, every struct is free of padding holes, so a record is the
  concatenation of its fields' little-endian bytes. Shown: decoding what was encoded gives the
  record back, decoding loses nothing, and a record shorter than the struct is refused. The
  interface \<open>wire_record\<close> states this contract once; the two event loops rely on it.
\<close>

subsection \<open>Little-endian words\<close>

definition le_bytes :: "'a::len word \<Rightarrow> u8 list" where
  "le_bytes w = map (\<lambda>i. ucast (drop_bit (8 * i) w)) [0..<LENGTH('a) div 8]"

fun of_le_bytes :: "u8 list \<Rightarrow> 'a::len word" where
  "of_le_bytes [] = 0"
| "of_le_bytes (b # bs) = or (ucast b) (push_bit 8 (of_le_bytes bs))"

lemma length_le_bytes [simp]: "length (le_bytes (w :: 'a::len word)) = LENGTH('a) div 8"
  by (simp add: le_bytes_def)

lemma bit_u8_high [simp]: "8 \<le> n \<Longrightarrow> \<not> bit (b :: u8) n"
  using bit_imp_le_length [of b n] by auto

lemma bit_of_le_bytes:
  "bit (of_le_bytes bs :: 'a::len word) n \<longleftrightarrow>
     n < LENGTH('a) \<and> n div 8 < length bs \<and> bit (bs ! (n div 8)) (n mod 8)"
proof (induction bs arbitrary: n)
  case Nil
  then show ?case by simp
next
  case (Cons b bs)
  show ?case
  proof (cases "n < 8")
    case True
    then show ?thesis by (auto simp: bit_simps)
  next
    case False
    then obtain m where n: "n = m + 8"
      by (metis add.commute le_Suc_ex not_less)
    have "(m + 8) div 8 = Suc (m div 8)" "(m + 8) mod 8 = m mod 8"
      by simp_all
    then show ?thesis
      using n Cons.IH [of m] by (auto simp: bit_simps)
  qed
qed

lemma of_le_le_bytes:
  fixes w :: "'a::len word"
  assumes "8 dvd LENGTH('a)"
  shows "of_le_bytes (le_bytes w) = w"
proof (rule bit_word_eqI)
  fix n assume n: "n < LENGTH('a)"
  then have "n div 8 < LENGTH('a) div 8"
    using assms by (metis dvd_div_mult_self less_mult_imp_div_less)
  moreover have "8 * (n div 8) + n mod 8 = n" "n mod 8 < 8"
    by simp_all
  ultimately show "bit (of_le_bytes (le_bytes w) :: 'a word) n = bit w n"
    using n by (simp add: bit_of_le_bytes le_bytes_def bit_unsigned_iff bit_drop_bit_eq)
qed

lemma le_of_le_bytes:
  assumes "length bs = LENGTH('a) div 8" and "8 dvd LENGTH('a)"
  shows "le_bytes (of_le_bytes bs :: 'a::len word) = bs"
proof (rule nth_equalityI)
  show "length (le_bytes (of_le_bytes bs :: 'a word)) = length bs"
    using assms(1) by simp
next
  fix i assume "i < length (le_bytes (of_le_bytes bs :: 'a word))"
  then have i: "i < LENGTH('a) div 8" by simp
  have "8 * i + j < LENGTH('a)" if "j < 8" for j
  proof -
    have "8 * Suc i \<le> 8 * (LENGTH('a) div 8)"
      using i by (simp only: Suc_le_eq mult_le_mono)
    then show ?thesis
      using that assms(2) by simp
  qed
  moreover have "(8 * i + j) div 8 = i" "(8 * i + j) mod 8 = j" if "j < 8" for j
    using that by simp_all
  ultimately show "le_bytes (of_le_bytes bs :: 'a word) ! i = bs ! i"
    using i assms(1)
    by (intro bit_word_eqI) (simp add: le_bytes_def bit_simps bit_of_le_bytes add.commute)
qed

text \<open>A field of \<open>n\<close> bytes at an offset.\<close>

definition bytes_at :: "nat \<Rightarrow> nat \<Rightarrow> u8 list \<Rightarrow> u8 list" where
  "bytes_at off n bs = take n (drop off bs)"

definition u64_at :: "nat \<Rightarrow> u8 list \<Rightarrow> u64" where
  "u64_at off bs = of_le_bytes (bytes_at off 8 bs)"

definition u32_at :: "nat \<Rightarrow> u8 list \<Rightarrow> u32" where
  "u32_at off bs = of_le_bytes (bytes_at off 4 bs)"

lemma length_bytes_at [simp]: "off + n \<le> length bs \<Longrightarrow> length (bytes_at off n bs) = n"
  by (simp add: bytes_at_def)

lemma le_bytes_u64_at: "off + 8 \<le> length bs \<Longrightarrow> le_bytes (u64_at off bs) = bytes_at off 8 bs"
  unfolding u64_at_def by (rule le_of_le_bytes) auto

lemma le_bytes_u32_at: "off + 4 \<le> length bs \<Longrightarrow> le_bytes (u32_at off bs) = bytes_at off 4 bs"
  unfolding u32_at_def by (rule le_of_le_bytes) auto

lemma bytes_at_join:
  "off' = off + n \<Longrightarrow> bytes_at off n bs @ bytes_at off' m bs = bytes_at off (n + m) bs"
  using add.commute [of off n] by (simp add: bytes_at_def take_add)

lemma of_le_u64 [simp]: "of_le_bytes (le_bytes (w :: u64)) = w"
  by (rule of_le_le_bytes) simp

lemma of_le_u32 [simp]: "of_le_bytes (le_bytes (w :: u32)) = w"
  by (rule of_le_le_bytes) simp

subsection \<open>The records of event.rs\<close>

definition sql_max :: nat where
  "sql_max = 512"

datatype off_cpu_reason = OffCpuOther | OffCpuBlockIo | OffCpuFutex | OffCpuSchedDelay

fun off_cpu_reason_u32 :: "off_cpu_reason \<Rightarrow> u32" where
  "off_cpu_reason_u32 OffCpuOther = 0"
| "off_cpu_reason_u32 OffCpuBlockIo = 1"
| "off_cpu_reason_u32 OffCpuFutex = 2"
| "off_cpu_reason_u32 OffCpuSchedDelay = 3"

record slow_query_event =
  sqe_ts_ns :: u64
  sqe_prepare_ns :: u64
  sqe_execute_ns :: u64
  sqe_attachment_id :: u64
  sqe_tid :: u32
  sqe_sql_len :: u32
  sqe_sql_truncated :: u32
  sqe_pad :: u32
  sqe_sql :: "u8 list"

record io_wait_sample =
  iws_ts_ns :: u64
  iws_pid :: u32
  iws_tid :: u32
  iws_offcpu_ns :: u64
  iws_kstack_id :: i32
  iws_reason :: u32

datatype attach_event_kind = AttachOpened | AttachClosed

fun attach_kind_u32 :: "attach_event_kind \<Rightarrow> u32" where
  "attach_kind_u32 AttachOpened = 0"
| "attach_kind_u32 AttachClosed = 1"

record attach_event =
  ae_ts_ns :: u64
  ae_duration_ns :: u64
  ae_attachment_ptr :: u64
  ae_pid :: u32
  ae_tid :: u32
  ae_kind :: u32
  ae_pad :: u32

text \<open>\<open>size_of\<close> of the two records, and their bytes in memory.\<close>

definition slow_query_event_size :: nat where
  "slow_query_event_size = 4 * 8 + 4 * 4 + sql_max"

definition attach_event_size :: nat where
  "attach_event_size = 3 * 8 + 4 * 4"

definition slow_query_event_bytes :: "slow_query_event \<Rightarrow> u8 list" where
  "slow_query_event_bytes ev =
     le_bytes (sqe_ts_ns ev) @ le_bytes (sqe_prepare_ns ev) @ le_bytes (sqe_execute_ns ev) @
     le_bytes (sqe_attachment_id ev) @ le_bytes (sqe_tid ev) @ le_bytes (sqe_sql_len ev) @
     le_bytes (sqe_sql_truncated ev) @ le_bytes (sqe_pad ev) @ sqe_sql ev"

definition attach_event_bytes :: "attach_event \<Rightarrow> u8 list" where
  "attach_event_bytes ev =
     le_bytes (ae_ts_ns ev) @ le_bytes (ae_duration_ns ev) @ le_bytes (ae_attachment_ptr ev) @
     le_bytes (ae_pid ev) @ le_bytes (ae_tid ev) @ le_bytes (ae_kind ev) @
     le_bytes (ae_pad ev)"

text \<open>The array type \<open>[u8; SQL_MAX]\<close> of the \<open>sql\<close> field.\<close>

definition slow_query_event_ok :: "slow_query_event \<Rightarrow> bool" where
  "slow_query_event_ok ev \<longleftrightarrow> length (sqe_sql ev) = sql_max"

subsection \<open>decode\_event\<close>

text \<open>
  \<open>decode_event\<close> of \<open>tragach-slowquery/src/main.rs\<close> and of \<open>tragach-attach/src/main.rs\<close>: a
  record that is too short is an error, anything after the struct is ignored.
\<close>

definition decode_slow_query_event :: "u8 list \<Rightarrow> unit + slow_query_event" where
  "decode_slow_query_event bs =
     (if length bs < slow_query_event_size then Inl ()
      else Inr \<lparr>sqe_ts_ns = u64_at 0 bs, sqe_prepare_ns = u64_at 8 bs,
                sqe_execute_ns = u64_at 16 bs, sqe_attachment_id = u64_at 24 bs,
                sqe_tid = u32_at 32 bs, sqe_sql_len = u32_at 36 bs,
                sqe_sql_truncated = u32_at 40 bs, sqe_pad = u32_at 44 bs,
                sqe_sql = bytes_at 48 sql_max bs\<rparr>)"

definition decode_attach_event :: "u8 list \<Rightarrow> unit + attach_event" where
  "decode_attach_event bs =
     (if length bs < attach_event_size then Inl ()
      else Inr \<lparr>ae_ts_ns = u64_at 0 bs, ae_duration_ns = u64_at 8 bs,
                ae_attachment_ptr = u64_at 16 bs, ae_pid = u32_at 24 bs,
                ae_tid = u32_at 28 bs, ae_kind = u32_at 32 bs, ae_pad = u32_at 36 bs\<rparr>)"

lemma slow_query_event_bytes_length:
  "slow_query_event_ok ev \<Longrightarrow> length (slow_query_event_bytes ev) = slow_query_event_size"
  by (simp add: slow_query_event_bytes_def slow_query_event_size_def slow_query_event_ok_def)

lemma attach_event_bytes_length: "length (attach_event_bytes ev) = attach_event_size"
  by (simp add: attach_event_bytes_def attach_event_size_def)

lemma slow_query_decode_encode:
  assumes "slow_query_event_ok ev"
  shows "decode_slow_query_event (slow_query_event_bytes ev @ rest) = Inr ev"
  using assms slow_query_event_bytes_length [OF assms]
  by (simp add: decode_slow_query_event_def slow_query_event_bytes_def u64_at_def u32_at_def
      bytes_at_def slow_query_event_ok_def)

lemma attach_decode_encode: "decode_attach_event (attach_event_bytes ev @ rest) = Inr ev"
  using attach_event_bytes_length [of ev]
  by (simp add: decode_attach_event_def attach_event_bytes_def u64_at_def u32_at_def
      bytes_at_def)

lemma slow_query_encode_decode:
  assumes "decode_slow_query_event bs = Inr ev"
  shows "slow_query_event_ok ev \<and> slow_query_event_bytes ev = take slow_query_event_size bs"
proof -
  from assms have len: "560 \<le> length bs"
    by (auto simp: decode_slow_query_event_def slow_query_event_size_def sql_max_def
        split: if_splits)
  have "slow_query_event_bytes ev = bytes_at 0 560 bs"
    using assms len
    by (auto simp: decode_slow_query_event_def slow_query_event_bytes_def le_bytes_u64_at
        le_bytes_u32_at bytes_at_join sql_max_def split: if_splits)
  then show ?thesis
    using assms len
    by (auto simp: decode_slow_query_event_def slow_query_event_ok_def bytes_at_def
        slow_query_event_size_def sql_max_def split: if_splits)
qed

subsection \<open>The contract of a wire record\<close>

text \<open>
  What an event loop relies on: the decoder refuses exactly the records shorter than the
  struct and inverts the encoder. Derived: draining a ring of whole records yields them in
  order and counts no drop; in general the drops are exactly the short records.
\<close>

fun drain_records :: "(u8 list \<Rightarrow> unit + 'e) \<Rightarrow> u8 list list \<Rightarrow> 'e list \<times> nat" where
  "drain_records decode [] = ([], 0)"
| "drain_records decode (bs # rs) =
     (let (evs, dropped) = drain_records decode rs
      in case decode bs of Inl _ \<Rightarrow> (evs, Suc dropped) | Inr ev \<Rightarrow> (ev # evs, dropped))"

locale wire_record =
  fixes encode :: "'e \<Rightarrow> u8 list"
    and decode :: "u8 list \<Rightarrow> unit + 'e"
    and size :: nat
    and valid :: "'e \<Rightarrow> bool"
  assumes short_refused: "decode bs = Inl () \<longleftrightarrow> length bs < size"
    and decode_encode: "valid ev \<Longrightarrow> decode (encode ev @ rest) = Inr ev"
begin

lemma drain_encoded:
  "\<forall>ev \<in> set evs. valid ev \<Longrightarrow> drain_records decode (map encode evs) = (evs, 0)"
proof (induction evs)
  case (Cons ev evs)
  then have "decode (encode ev) = Inr ev"
    using decode_encode [of ev "[]"] by simp
  with Cons show ?case by simp
qed simp

lemma drain_counts_short:
  "snd (drain_records decode rs) = length (filter (\<lambda>bs. length bs < size) rs)"
proof (induction rs)
  case (Cons bs rs)
  then show ?case
    using short_refused [of bs]
    by (cases "decode bs") (auto simp: case_prod_beta split: sum.splits)
qed simp

lemma drain_conserves:
  "length (fst (drain_records decode rs)) + snd (drain_records decode rs) = length rs"
  by (induction rs) (auto simp: case_prod_beta split: sum.splits)

end

lemma decode_slow_query_short:
  "decode_slow_query_event bs = Inl () \<longleftrightarrow> length bs < slow_query_event_size"
  by (simp add: decode_slow_query_event_def)

lemma decode_attach_short: "decode_attach_event bs = Inl () \<longleftrightarrow> length bs < attach_event_size"
  by (simp add: decode_attach_event_def)

interpretation slow_query_wire:
  wire_record slow_query_event_bytes decode_slow_query_event slow_query_event_size
    slow_query_event_ok
  by unfold_locales (simp_all add: decode_slow_query_short slow_query_decode_encode)

interpretation attach_wire:
  wire_record attach_event_bytes decode_attach_event attach_event_size "\<lambda>_. True"
  by unfold_locales (simp_all add: decode_attach_short attach_decode_encode)

end
