(* ===== verification/Slowquery_Bpf.thy ===== *)
theory Slowquery_Bpf
  imports Bpf_Platform Inflight Wire
begin

section \<open>tragach-slowquery: the BPF programs\<close>

text \<open>
  \<open>crates/tragach-slowquery/src/bpf/main.rs\<close>: ten probe bodies over seven maps, two per-CPU
  scratch slots and the event ring. One definition per probe body, with the code's early
  returns: \<open>Inl e\<close> is the \<open>Err(e)\<close> that the probe wrapper drops, and the state is what the
  body had written by then. The component's run is the fold of the hits in the order they
  happen.
\<close>

subsection \<open>State\<close>

record with_sql =
  ws_ts_ns :: u64
  ws_attachment_ptr :: u64
  ws_sql_len :: u32
  ws_sql_truncated :: u32
  ws_sql :: "u8 list"

record prepared_statement =
  ps_attachment_ptr :: u64
  ps_prepare_ns :: u64
  ps_sql_len :: u32
  ps_sql_truncated :: u32
  ps_sql :: "u8 list"

record execute_entry =
  ee_ts_ns :: u64
  ee_dsql_request_ptr :: u64

record open_cursor =
  oc_open_ts_ns :: u64
  oc_dsql_request_ptr :: u64

record sq_state =
  with_sql_scratch :: "nat \<Rightarrow> with_sql"
  prepared_scratch :: "nat \<Rightarrow> prepared_statement"
  prepare_in_progress :: "u32 \<rightharpoonup> with_sql"
  execute_in_progress :: "u32 \<rightharpoonup> execute_entry"
  immediate_in_progress :: "u32 \<rightharpoonup> with_sql"
  opencursor_in_progress :: "u32 \<rightharpoonup> open_cursor"
  fetch_in_progress :: "u32 \<rightharpoonup> u64"
  prepared_statements :: "u64 \<rightharpoonup> prepared_statement"
  open_cursors :: "u64 \<rightharpoonup> open_cursor"
  sq_events :: "slow_query_event list"

text \<open>
  A hit of one of the probes: besides the registers, whether the scratch array yields its slot,
  what \<open>bpf_probe_read_user_str_bytes\<close> does to a buffer (the length of the returned slice, or
  an error, and the buffer afterwards), and the kernel's map operations at this hit.
\<close>

record sq_hit_ctx = probe_hit +
  scratch_avail :: bool
  read_user_str :: "u64 \<Rightarrow> u8 list \<Rightarrow> (i64 + nat) \<times> u8 list"
  with_sql_ops :: "(u32, with_sql) map_ops"
  execute_ops :: "(u32, execute_entry) map_ops"
  opencursor_ops :: "(u32, open_cursor) map_ops"
  fetch_ops :: "(u32, u64) map_ops"
  prepared_ops :: "(u64, prepared_statement) map_ops"
  cursors_ops :: "(u64, open_cursor) map_ops"

text \<open>Maps and scratch slots start empty and zeroed.\<close>

definition sq_init :: sq_state where
  "sq_init = \<lparr>
     with_sql_scratch = (\<lambda>_. \<lparr>ws_ts_ns = 0, ws_attachment_ptr = 0, ws_sql_len = 0,
                            ws_sql_truncated = 0, ws_sql = replicate sql_max 0\<rparr>),
     prepared_scratch = (\<lambda>_. \<lparr>ps_attachment_ptr = 0, ps_prepare_ns = 0, ps_sql_len = 0,
                            ps_sql_truncated = 0, ps_sql = replicate sql_max 0\<rparr>),
     prepare_in_progress = Map.empty, execute_in_progress = Map.empty,
     immediate_in_progress = Map.empty, opencursor_in_progress = Map.empty,
     fetch_in_progress = Map.empty, prepared_statements = Map.empty,
     open_cursors = Map.empty, sq_events = []\<rparr>"

subsection \<open>Helpers\<close>

text \<open>
  \<open>try_capture_sql_entry\<close>, on the hit CPU's scratch slot and the target map it is given. The
  slice length is \<open>copied.len() as u32\<close>; a failed read yields the empty slice.
\<close>

definition try_capture_sql_entry ::
  "sq_hit_ctx \<Rightarrow> with_sql \<Rightarrow> (u32 \<rightharpoonup> with_sql) \<Rightarrow>
     (i64 + unit) \<times> with_sql \<times> (u32 \<rightharpoonup> with_sql)" where
  "try_capture_sql_entry c scratch target_map =
     (case reg_arg c 1 of None \<Rightarrow> (Inl (- 1), scratch, target_map)
      | Some attachment_ptr \<Rightarrow>
     (case reg_arg c 3 of None \<Rightarrow> (Inl (- 1), scratch, target_map)
      | Some sql_length \<Rightarrow>
     (case reg_arg c 4 of None \<Rightarrow> (Inl (- 1), scratch, target_map)
      | Some sql_ptr \<Rightarrow>
      if \<not> scratch_avail c then (Inl (- 1), scratch, target_map)
      else
        let w = scratch\<lparr>ws_ts_ns := ktime c, ws_attachment_ptr := attachment_ptr,
                        ws_sql_len := ucast sql_length, ws_sql_truncated := 0,
                        ws_sql := replicate sql_max 0\<rparr>;
            w = (if sql_ptr \<noteq> 0
                 then let (copied, buf) = read_user_str c sql_ptr (ws_sql w);
                          copied_len = (case copied of Inl _ \<Rightarrow> 0 | Inr n \<Rightarrow> of_nat n);
                          w = w\<lparr>ws_sql := buf\<rparr>;
                          w = (if sql_length = 0 then w\<lparr>ws_sql_len := copied_len\<rparr> else w)
                      in if copied_len \<ge> of_nat sql_max - 1 \<and> sql_length > ucast copied_len
                         then w\<lparr>ws_sql_truncated := 1\<rparr> else w
                 else w\<lparr>ws_sql_len := 0\<rparr>);
            (r, m) = map_update (with_sql_ops c) target_map (tid_of c) w
        in (r, w, m))))"

text \<open>\<open>emit_event\<close>: reserve a slot, write every field, submit; \<open>None\<close> zeroes the SQL buffer.\<close>

definition emit_event ::
  "sq_hit_ctx \<Rightarrow> u64 \<Rightarrow> u64 \<Rightarrow> u64 \<Rightarrow> u64 \<Rightarrow> u32 \<Rightarrow> u32 \<Rightarrow> u8 list option \<Rightarrow> sq_state \<Rightarrow>
     (i64 + unit) \<times> sq_state" where
  "emit_event c ts_ns attachment_ptr prepare_ns execute_ns sql_len sql_truncated sql_src s =
     (if \<not> ring_room c then (Inl (- 1), s)
      else
        let slot = \<lparr>sqe_ts_ns = ts_ns, sqe_prepare_ns = prepare_ns, sqe_execute_ns = execute_ns,
                    sqe_attachment_id = attachment_ptr, sqe_tid = tid_of c, sqe_sql_len = sql_len,
                    sqe_sql_truncated = sql_truncated, sqe_pad = 0,
                    sqe_sql = (case sql_src of Some src \<Rightarrow> take sql_max src
                                             | None \<Rightarrow> replicate sql_max 0)\<rparr>
        in (Inr (), s\<lparr>sq_events := sq_events s @ [slot]\<rparr>))"

subsection \<open>Probe bodies\<close>

definition try_prepare_exit :: "sq_hit_ctx \<Rightarrow> sq_state \<Rightarrow> (i64 + unit) \<times> sq_state" where
  "try_prepare_exit c s =
     (let key = tid_of c in
      case prepare_in_progress s key of None \<Rightarrow> (Inl (- 1), s)
      | Some entry \<Rightarrow>
        let dsql_request_ptr = (case reg_ret c of Some r \<Rightarrow> r | None \<Rightarrow> 0);
            now = ktime c;
            prepare_ns = saturating_sub now (ws_ts_ns entry)
        in if dsql_request_ptr = 0
           then (Inr (), s\<lparr>prepare_in_progress :=
                             snd (map_remove (with_sql_ops c) (prepare_in_progress s) key)\<rparr>)
           else if \<not> scratch_avail c then (Inl (- 1), s)
           else
             let scratch = (prepared_scratch s (cpu c))
                   \<lparr>ps_attachment_ptr := ws_attachment_ptr entry, ps_prepare_ns := prepare_ns,
                    ps_sql_len := ws_sql_len entry, ps_sql_truncated := ws_sql_truncated entry,
                    ps_sql := take sql_max (ws_sql entry)\<rparr>;
                 (r, m) = map_update (prepared_ops c) (prepared_statements s)
                            dsql_request_ptr scratch
             in (r, s\<lparr>prepared_scratch := (prepared_scratch s)(cpu c := scratch),
                      prepare_in_progress :=
                        snd (map_remove (with_sql_ops c) (prepare_in_progress s) key),
                      prepared_statements := m\<rparr>))"

definition try_execute_entry :: "sq_hit_ctx \<Rightarrow> sq_state \<Rightarrow> (i64 + unit) \<times> sq_state" where
  "try_execute_entry c s =
     (case reg_arg c 2 of None \<Rightarrow> (Inl (- 1), s)
      | Some dsql_request_ptr \<Rightarrow>
        if dsql_request_ptr = 0 then (Inr (), s)
        else
          let entry = \<lparr>ee_ts_ns = ktime c, ee_dsql_request_ptr = dsql_request_ptr\<rparr>;
              (r, m) = map_update (execute_ops c) (execute_in_progress s) (tid_of c) entry
          in (r, s\<lparr>execute_in_progress := m\<rparr>))"

text \<open>
  The tail shared by \<open>try_execute_exit\<close> and \<open>try_fetch_next_exit\<close>: look the request up and
  emit with its prepare data, or as unknown.
\<close>

definition emit_for_request ::
  "sq_hit_ctx \<Rightarrow> u64 \<Rightarrow> u64 \<Rightarrow> u64 \<Rightarrow> sq_state \<Rightarrow> (i64 + unit) \<times> sq_state" where
  "emit_for_request c now execute_ns dsql_request_ptr s =
     (case prepared_statements s dsql_request_ptr of
        Some p \<Rightarrow> emit_event c now (ps_attachment_ptr p) (ps_prepare_ns p) execute_ns
                    (ps_sql_len p) (ps_sql_truncated p) (Some (ps_sql p)) s
      | None \<Rightarrow> emit_event c now 0 0 execute_ns 0 0 None s)"

definition try_execute_exit :: "sq_hit_ctx \<Rightarrow> sq_state \<Rightarrow> (i64 + unit) \<times> sq_state" where
  "try_execute_exit c s =
     (let key = tid_of c in
      case execute_in_progress s key of None \<Rightarrow> (Inl (- 1), s)
      | Some entry \<Rightarrow>
        let s = s\<lparr>execute_in_progress :=
                    snd (map_remove (execute_ops c) (execute_in_progress s) key)\<rparr>;
            now = ktime c;
            execute_ns = saturating_sub now (ee_ts_ns entry)
        in emit_for_request c now execute_ns (ee_dsql_request_ptr entry) s)"

definition try_immediate_exit :: "sq_hit_ctx \<Rightarrow> sq_state \<Rightarrow> (i64 + unit) \<times> sq_state" where
  "try_immediate_exit c s =
     (let key = tid_of c in
      case immediate_in_progress s key of None \<Rightarrow> (Inl (- 1), s)
      | Some entry \<Rightarrow>
        let now = ktime c;
            execute_ns = saturating_sub now (ws_ts_ns entry);
            (r, s) = emit_event c now (ws_attachment_ptr entry) 0 execute_ns (ws_sql_len entry)
                       (ws_sql_truncated entry) (Some (ws_sql entry)) s
        in (r, s\<lparr>immediate_in_progress :=
                  snd (map_remove (with_sql_ops c) (immediate_in_progress s) key)\<rparr>))"

definition try_open_cursor_entry :: "sq_hit_ctx \<Rightarrow> sq_state \<Rightarrow> (i64 + unit) \<times> sq_state" where
  "try_open_cursor_entry c s =
     (case reg_arg c 0 of None \<Rightarrow> (Inl (- 1), s)
      | Some dsql_request_ptr \<Rightarrow>
        let entry = \<lparr>oc_open_ts_ns = ktime c, oc_dsql_request_ptr = dsql_request_ptr\<rparr>;
            (r, m) = map_update (opencursor_ops c) (opencursor_in_progress s) (tid_of c) entry
        in (r, s\<lparr>opencursor_in_progress := m\<rparr>))"

definition try_open_cursor_exit :: "sq_hit_ctx \<Rightarrow> sq_state \<Rightarrow> (i64 + unit) \<times> sq_state" where
  "try_open_cursor_exit c s =
     (let key = tid_of c in
      case opencursor_in_progress s key of None \<Rightarrow> (Inl (- 1), s)
      | Some entry \<Rightarrow>
        let s = s\<lparr>opencursor_in_progress :=
                    snd (map_remove (opencursor_ops c) (opencursor_in_progress s) key)\<rparr>;
            cursor_ptr = (case reg_ret c of Some r \<Rightarrow> r | None \<Rightarrow> 0)
        in if cursor_ptr = 0 then (Inr (), s)
           else let (r, m) = map_update (cursors_ops c) (open_cursors s) cursor_ptr entry
                in (r, s\<lparr>open_cursors := m\<rparr>))"

definition try_fetch_next_entry :: "sq_hit_ctx \<Rightarrow> sq_state \<Rightarrow> (i64 + unit) \<times> sq_state" where
  "try_fetch_next_entry c s =
     (case reg_arg c 0 of None \<Rightarrow> (Inl (- 1), s)
      | Some cursor_ptr \<Rightarrow>
        if cursor_ptr = 0 then (Inr (), s)
        else let (r, m) = map_update (fetch_ops c) (fetch_in_progress s) (tid_of c) cursor_ptr
             in (r, s\<lparr>fetch_in_progress := m\<rparr>))"

definition try_fetch_next_exit :: "sq_hit_ctx \<Rightarrow> sq_state \<Rightarrow> (i64 + unit) \<times> sq_state" where
  "try_fetch_next_exit c s =
     (let key = tid_of c in
      case fetch_in_progress s key of None \<Rightarrow> (Inl (- 1), s)
      | Some cursor_ptr \<Rightarrow>
        let s = s\<lparr>fetch_in_progress :=
                    snd (map_remove (fetch_ops c) (fetch_in_progress s) key)\<rparr>;
            ret = (case reg_ret c of Some r \<Rightarrow> r | None \<Rightarrow> 0)
        in if ret \<noteq> 1 then (Inr (), s)
           else case open_cursors s cursor_ptr of None \<Rightarrow> (Inl (- 1), s)
                | Some oc \<Rightarrow>
                  let s = s\<lparr>open_cursors :=
                              snd (map_remove (cursors_ops c) (open_cursors s) cursor_ptr)\<rparr>;
                      now = ktime c;
                      execute_ns = saturating_sub now (oc_open_ts_ns oc)
                  in emit_for_request c now execute_ns (oc_dsql_request_ptr oc) s)"

subsection \<open>The ten programs\<close>

definition dsql_prepare_entry :: "sq_hit_ctx \<Rightarrow> sq_state \<Rightarrow> u32 \<times> sq_state" where
  "dsql_prepare_entry c s =
     (let (r, w, m) = try_capture_sql_entry c (with_sql_scratch s (cpu c)) (prepare_in_progress s)
      in (0, s\<lparr>with_sql_scratch := (with_sql_scratch s)(cpu c := w), prepare_in_progress := m\<rparr>))"

definition dsql_prepare_exit :: "sq_hit_ctx \<Rightarrow> sq_state \<Rightarrow> u32 \<times> sq_state" where
  "dsql_prepare_exit c s = ignore_result (try_prepare_exit c s)"

definition dsql_execute_entry :: "sq_hit_ctx \<Rightarrow> sq_state \<Rightarrow> u32 \<times> sq_state" where
  "dsql_execute_entry c s = ignore_result (try_execute_entry c s)"

definition dsql_execute_exit :: "sq_hit_ctx \<Rightarrow> sq_state \<Rightarrow> u32 \<times> sq_state" where
  "dsql_execute_exit c s = ignore_result (try_execute_exit c s)"

definition dsql_execute_immediate_entry :: "sq_hit_ctx \<Rightarrow> sq_state \<Rightarrow> u32 \<times> sq_state" where
  "dsql_execute_immediate_entry c s =
     (let (r, w, m) = try_capture_sql_entry c (with_sql_scratch s (cpu c))
                        (immediate_in_progress s)
      in (0, s\<lparr>with_sql_scratch := (with_sql_scratch s)(cpu c := w),
               immediate_in_progress := m\<rparr>))"

definition dsql_execute_immediate_exit :: "sq_hit_ctx \<Rightarrow> sq_state \<Rightarrow> u32 \<times> sq_state" where
  "dsql_execute_immediate_exit c s = ignore_result (try_immediate_exit c s)"

definition dsql_open_cursor_entry :: "sq_hit_ctx \<Rightarrow> sq_state \<Rightarrow> u32 \<times> sq_state" where
  "dsql_open_cursor_entry c s = ignore_result (try_open_cursor_entry c s)"

definition dsql_open_cursor_exit :: "sq_hit_ctx \<Rightarrow> sq_state \<Rightarrow> u32 \<times> sq_state" where
  "dsql_open_cursor_exit c s = ignore_result (try_open_cursor_exit c s)"

definition dsql_fetch_next_entry :: "sq_hit_ctx \<Rightarrow> sq_state \<Rightarrow> u32 \<times> sq_state" where
  "dsql_fetch_next_entry c s = ignore_result (try_fetch_next_entry c s)"

definition dsql_fetch_next_exit :: "sq_hit_ctx \<Rightarrow> sq_state \<Rightarrow> u32 \<times> sq_state" where
  "dsql_fetch_next_exit c s = ignore_result (try_fetch_next_exit c s)"

datatype sq_probe =
    PrepareEntry | PrepareExit | ExecuteEntry | ExecuteExit | ImmediateEntry | ImmediateExit
  | OpenCursorEntry | OpenCursorExit | FetchNextEntry | FetchNextExit

fun sq_program :: "sq_probe \<Rightarrow> sq_hit_ctx \<Rightarrow> sq_state \<Rightarrow> u32 \<times> sq_state" where
  "sq_program PrepareEntry = dsql_prepare_entry"
| "sq_program PrepareExit = dsql_prepare_exit"
| "sq_program ExecuteEntry = dsql_execute_entry"
| "sq_program ExecuteExit = dsql_execute_exit"
| "sq_program ImmediateEntry = dsql_execute_immediate_entry"
| "sq_program ImmediateExit = dsql_execute_immediate_exit"
| "sq_program OpenCursorEntry = dsql_open_cursor_entry"
| "sq_program OpenCursorExit = dsql_open_cursor_exit"
| "sq_program FetchNextEntry = dsql_fetch_next_entry"
| "sq_program FetchNextExit = dsql_fetch_next_exit"

type_synonym sq_hit = "sq_probe \<times> sq_hit_ctx"

definition sq_step :: "sq_hit \<Rightarrow> sq_state \<Rightarrow> sq_state" where
  "sq_step h s = snd (sq_program (fst h) (snd h) s)"

definition sq_run :: "sq_hit list \<Rightarrow> sq_state \<Rightarrow> sq_state" where
  "sq_run hs s = fold sq_step hs s"

lemma program_returns_zero: "fst (sq_program p c s) = 0"
  by (cases p)
    (simp_all add: dsql_prepare_entry_def dsql_prepare_exit_def dsql_execute_entry_def
      dsql_execute_exit_def dsql_execute_immediate_entry_def dsql_execute_immediate_exit_def
      dsql_open_cursor_entry_def dsql_open_cursor_exit_def dsql_fetch_next_entry_def
      dsql_fetch_next_exit_def case_prod_beta Let_def)

end
