(* ===== verification/Slowquery_Facts.thy ===== *)
theory Slowquery_Facts
  imports Slowquery_Bpf
begin

section \<open>tragach-slowquery: what each hit does\<close>

text \<open>
  The step lemmas of the slowquery programs: the record a capture stores, the effect of a hit on
  each map, the events it emits, and the interpretations of the in-flight interface for the
  seven tables. The lifecycle, provenance and refinement theorems rest on these.
\<close>

lemmas sq_bodies =
  dsql_prepare_entry_def dsql_prepare_exit_def dsql_execute_entry_def dsql_execute_exit_def
  dsql_execute_immediate_entry_def dsql_execute_immediate_exit_def dsql_open_cursor_entry_def
  dsql_open_cursor_exit_def dsql_fetch_next_entry_def dsql_fetch_next_exit_def
  try_prepare_exit_def try_execute_entry_def try_execute_exit_def try_immediate_exit_def
  try_open_cursor_entry_def try_open_cursor_exit_def try_fetch_next_entry_def
  try_fetch_next_exit_def emit_for_request_def emit_event_def

subsection \<open>The captured record\<close>

text \<open>What a capture stores, written without the scratch slot it was assembled in.\<close>

definition capture_record :: "sq_hit_ctx \<Rightarrow> u64 \<Rightarrow> u64 \<Rightarrow> u64 \<Rightarrow> with_sql" where
  "capture_record c attachment_ptr sql_length sql_ptr =
     (let (copied, buf) = read_user_str c sql_ptr (replicate sql_max 0);
          n = (case copied of Inl _ \<Rightarrow> 0 | Inr n \<Rightarrow> of_nat n)
      in \<lparr>ws_ts_ns = ktime c, ws_attachment_ptr = attachment_ptr,
          ws_sql_len = (if sql_ptr = 0 then 0 else if sql_length = 0 then n else ucast sql_length),
          ws_sql_truncated =
            (if sql_ptr \<noteq> 0 \<and> n \<ge> of_nat sql_max - 1 \<and> sql_length > ucast n then 1 else 0),
          ws_sql = (if sql_ptr = 0 then replicate sql_max 0 else buf)\<rparr>)"

definition captured :: "sq_hit_ctx \<Rightarrow> with_sql option" where
  "captured c =
     (case (reg_arg c 1, reg_arg c 3, reg_arg c 4) of
        (Some a, Some l, Some p) \<Rightarrow> if scratch_avail c then Some (capture_record c a l p) else None
      | _ \<Rightarrow> None)"

lemma capture_eq:
  "try_capture_sql_entry c scratch m =
     (case captured c of None \<Rightarrow> (Inl (- 1), scratch, m)
      | Some w \<Rightarrow> (fst (map_update (with_sql_ops c) m (tid_of c) w), w,
                  snd (map_update (with_sql_ops c) m (tid_of c) w)))"
  by (cases scratch)
    (auto simp: try_capture_sql_entry_def captured_def capture_record_def Let_def
      case_prod_beta split: option.splits)

lemma captured_ts: "captured c = Some w \<Longrightarrow> ws_ts_ns w = ktime c"
  by (auto simp: captured_def capture_record_def Let_def case_prod_beta
      split: option.splits if_splits)

text \<open>What a prepare exit at clock \<open>now\<close> stores for a captured entry.\<close>

definition prepared_from :: "with_sql \<Rightarrow> u64 \<Rightarrow> prepared_statement" where
  "prepared_from w now =
     \<lparr>ps_attachment_ptr = ws_attachment_ptr w, ps_prepare_ns = saturating_sub now (ws_ts_ns w),
      ps_sql_len = ws_sql_len w, ps_sql_truncated = ws_sql_truncated w,
      ps_sql = take sql_max (ws_sql w)\<rparr>"

lemma prepared_scratch_overwrite:
  "x\<lparr>ps_attachment_ptr := ws_attachment_ptr w,
     ps_prepare_ns := saturating_sub now (ws_ts_ns w), ps_sql_len := ws_sql_len w,
     ps_sql_truncated := ws_sql_truncated w, ps_sql := take sql_max (ws_sql w)\<rparr>
   = prepared_from w now"
  by (cases x) (simp add: prepared_from_def)

subsection \<open>Each map after one hit\<close>

lemma execute_in_progress_step [state_simps]:
  "execute_in_progress (sq_step (p, c) s) =
     (let m = execute_in_progress s; t = tid_of c in
      case p of
        ExecuteEntry \<Rightarrow>
          (case reg_arg c 2 of None \<Rightarrow> m
           | Some r \<Rightarrow> if r = 0 then m
                      else snd (map_update (execute_ops c) m t
                                  \<lparr>ee_ts_ns = ktime c, ee_dsql_request_ptr = r\<rparr>))
      | ExecuteExit \<Rightarrow> if m t = None then m else snd (map_remove (execute_ops c) m t)
      | _ \<Rightarrow> m)"
  by (cases p) (auto simp: sq_step_def sq_bodies Let_def case_prod_beta split: option.splits)

lemma prepare_in_progress_step [state_simps]:
  "prepare_in_progress (sq_step (p, c) s) =
     (let m = prepare_in_progress s; t = tid_of c in
      case p of
        PrepareEntry \<Rightarrow>
          (case captured c of None \<Rightarrow> m | Some w \<Rightarrow> snd (map_update (with_sql_ops c) m t w))
      | PrepareExit \<Rightarrow>
          if m t = None \<or> reg_ret c \<notin> {None, Some 0} \<and> \<not> scratch_avail c then m
          else snd (map_remove (with_sql_ops c) m t)
      | _ \<Rightarrow> m)"
  by (cases p)
    (auto simp: sq_step_def sq_bodies capture_eq Let_def case_prod_beta split: option.splits)

lemma immediate_in_progress_step [state_simps]:
  "immediate_in_progress (sq_step (p, c) s) =
     (let m = immediate_in_progress s; t = tid_of c in
      case p of
        ImmediateEntry \<Rightarrow>
          (case captured c of None \<Rightarrow> m | Some w \<Rightarrow> snd (map_update (with_sql_ops c) m t w))
      | ImmediateExit \<Rightarrow> if m t = None then m else snd (map_remove (with_sql_ops c) m t)
      | _ \<Rightarrow> m)"
  by (cases p)
    (auto simp: sq_step_def sq_bodies capture_eq Let_def case_prod_beta split: option.splits)

lemma opencursor_in_progress_step [state_simps]:
  "opencursor_in_progress (sq_step (p, c) s) =
     (let m = opencursor_in_progress s; t = tid_of c in
      case p of
        OpenCursorEntry \<Rightarrow>
          (case reg_arg c 0 of None \<Rightarrow> m
           | Some r \<Rightarrow> snd (map_update (opencursor_ops c) m t
                             \<lparr>oc_open_ts_ns = ktime c, oc_dsql_request_ptr = r\<rparr>))
      | OpenCursorExit \<Rightarrow> if m t = None then m else snd (map_remove (opencursor_ops c) m t)
      | _ \<Rightarrow> m)"
  by (cases p) (auto simp: sq_step_def sq_bodies Let_def case_prod_beta split: option.splits)

lemma fetch_in_progress_step [state_simps]:
  "fetch_in_progress (sq_step (p, c) s) =
     (let m = fetch_in_progress s; t = tid_of c in
      case p of
        FetchNextEntry \<Rightarrow>
          (case reg_arg c 0 of None \<Rightarrow> m
           | Some k \<Rightarrow> if k = 0 then m else snd (map_update (fetch_ops c) m t k))
      | FetchNextExit \<Rightarrow> if m t = None then m else snd (map_remove (fetch_ops c) m t)
      | _ \<Rightarrow> m)"
  by (cases p) (auto simp: sq_step_def sq_bodies Let_def case_prod_beta split: option.splits)

lemma prepared_statements_step [state_simps]:
  "prepared_statements (sq_step (p, c) s) =
     (let m = prepared_statements s in
      case p of
        PrepareExit \<Rightarrow>
          (case (prepare_in_progress s (tid_of c), reg_ret c) of
             (Some w, Some r) \<Rightarrow>
               if r = 0 \<or> \<not> scratch_avail c then m
               else snd (map_update (prepared_ops c) m r (prepared_from w (ktime c)))
           | _ \<Rightarrow> m)
      | _ \<Rightarrow> m)"
  by (cases p)
    (auto simp: sq_step_def sq_bodies prepared_scratch_overwrite Let_def case_prod_beta
      split: option.splits)

lemma open_cursors_step [state_simps]:
  "open_cursors (sq_step (p, c) s) =
     (let m = open_cursors s; t = tid_of c in
      case p of
        OpenCursorExit \<Rightarrow>
          (case (opencursor_in_progress s t, reg_ret c) of
             (Some oc, Some k) \<Rightarrow> if k = 0 then m else snd (map_update (cursors_ops c) m k oc)
           | _ \<Rightarrow> m)
      | FetchNextExit \<Rightarrow>
          (case fetch_in_progress s t of
             Some k \<Rightarrow> if reg_ret c = Some 1 \<and> m k \<noteq> None
                       then snd (map_remove (cursors_ops c) m k) else m
           | None \<Rightarrow> m)
      | _ \<Rightarrow> m)"
  by (cases p)
    (auto simp: sq_step_def sq_bodies Let_def case_prod_beta split: option.splits)

subsection \<open>The events of one hit\<close>

text \<open>
  The event for a request that started at \<open>start\<close>, given what the statement table knows of it,
  and the event of an immediate execution.
\<close>

definition request_event ::
  "sq_hit_ctx \<Rightarrow> u64 \<Rightarrow> prepared_statement option \<Rightarrow> slow_query_event" where
  "request_event c start known =
     \<lparr>sqe_ts_ns = ktime c,
      sqe_prepare_ns = (case known of Some p \<Rightarrow> ps_prepare_ns p | None \<Rightarrow> 0),
      sqe_execute_ns = saturating_sub (ktime c) start,
      sqe_attachment_id = (case known of Some p \<Rightarrow> ps_attachment_ptr p | None \<Rightarrow> 0),
      sqe_tid = tid_of c,
      sqe_sql_len = (case known of Some p \<Rightarrow> ps_sql_len p | None \<Rightarrow> 0),
      sqe_sql_truncated = (case known of Some p \<Rightarrow> ps_sql_truncated p | None \<Rightarrow> 0),
      sqe_pad = 0,
      sqe_sql = (case known of Some p \<Rightarrow> take sql_max (ps_sql p) | None \<Rightarrow> replicate sql_max 0)\<rparr>"

definition immediate_event :: "sq_hit_ctx \<Rightarrow> with_sql \<Rightarrow> slow_query_event" where
  "immediate_event c w =
     \<lparr>sqe_ts_ns = ktime c, sqe_prepare_ns = 0,
      sqe_execute_ns = saturating_sub (ktime c) (ws_ts_ns w),
      sqe_attachment_id = ws_attachment_ptr w, sqe_tid = tid_of c, sqe_sql_len = ws_sql_len w,
      sqe_sql_truncated = ws_sql_truncated w, sqe_pad = 0,
      sqe_sql = take sql_max (ws_sql w)\<rparr>"

fun emitted :: "sq_probe \<Rightarrow> sq_hit_ctx \<Rightarrow> sq_state \<Rightarrow> slow_query_event option" where
  "emitted ExecuteExit c s =
     (case execute_in_progress s (tid_of c) of
        Some e \<Rightarrow> if ring_room c
                  then Some (request_event c (ee_ts_ns e)
                               (prepared_statements s (ee_dsql_request_ptr e)))
                  else None
      | None \<Rightarrow> None)"
| "emitted ImmediateExit c s =
     (case immediate_in_progress s (tid_of c) of
        Some w \<Rightarrow> if ring_room c then Some (immediate_event c w) else None
      | None \<Rightarrow> None)"
| "emitted FetchNextExit c s =
     (case fetch_in_progress s (tid_of c) of
        Some k \<Rightarrow>
          (case open_cursors s k of
             Some oc \<Rightarrow> if reg_ret c = Some 1 \<and> ring_room c
                        then Some (request_event c (oc_open_ts_ns oc)
                                     (prepared_statements s (oc_dsql_request_ptr oc)))
                        else None
           | None \<Rightarrow> None)
      | None \<Rightarrow> None)"
| "emitted _ c s = None"

lemma sq_events_step [state_simps]:
  "sq_events (sq_step (p, c) s) =
     sq_events s @ (case emitted p c s of Some ev \<Rightarrow> [ev] | None \<Rightarrow> [])"
  by (cases p)
    (auto simp: sq_step_def sq_bodies request_event_def immediate_event_def Let_def
      case_prod_beta split: option.splits)

end
