(* ===== verification/Slowquery_Tables.thy ===== *)
theory Slowquery_Tables
  imports Slowquery_Facts
begin

section \<open>tragach-slowquery: the seven tables\<close>

text \<open>
  Each of the seven BPF maps of the slowquery program is an in-flight table: the five keyed by
  thread are hash maps, \<open>PREPARED_STATEMENTS\<close> and \<open>OPEN_CURSORS\<close> are LRU maps, where an insert of
  another key touches an entry unless the kernel spares it. The interpretations give, for every
  table, provenance of its entries and their survival over foreign hits.
\<close>

definition sq_kernel_ok :: "sq_hit_ctx \<Rightarrow> bool" where
  "sq_kernel_ok c \<longleftrightarrow>
     hash_ops_ok (with_sql_ops c) \<and> hash_ops_ok (execute_ops c) \<and>
     hash_ops_ok (opencursor_ops c) \<and> hash_ops_ok (fetch_ops c) \<and>
     lru_ops_ok (prepared_ops c) \<and> lru_ops_ok (cursors_ops c)"

definition sq_good :: "sq_hit \<Rightarrow> bool" where
  "sq_good h \<longleftrightarrow> sq_kernel_ok (snd h)"

definition on_thread :: "sq_probe set \<Rightarrow> sq_state \<Rightarrow> sq_hit \<Rightarrow> u32 \<Rightarrow> bool" where
  "on_thread ps s h t \<longleftrightarrow> fst h \<in> ps \<and> tid_of (snd h) = t"

definition opens_prepare :: "sq_state \<Rightarrow> sq_hit \<Rightarrow> u32 \<Rightarrow> with_sql \<Rightarrow> bool" where
  "opens_prepare s h t w \<longleftrightarrow> on_thread {PrepareEntry} s h t \<and> captured (snd h) = Some w"

definition opens_immediate :: "sq_state \<Rightarrow> sq_hit \<Rightarrow> u32 \<Rightarrow> with_sql \<Rightarrow> bool" where
  "opens_immediate s h t w \<longleftrightarrow> on_thread {ImmediateEntry} s h t \<and> captured (snd h) = Some w"

definition opens_execute :: "sq_state \<Rightarrow> sq_hit \<Rightarrow> u32 \<Rightarrow> execute_entry \<Rightarrow> bool" where
  "opens_execute s h t e \<longleftrightarrow> on_thread {ExecuteEntry} s h t \<and>
     ee_ts_ns e = ktime (snd h) \<and> ee_dsql_request_ptr e \<noteq> 0 \<and>
     reg_arg (snd h) 2 = Some (ee_dsql_request_ptr e)"

definition opens_opencursor :: "sq_state \<Rightarrow> sq_hit \<Rightarrow> u32 \<Rightarrow> open_cursor \<Rightarrow> bool" where
  "opens_opencursor s h t oc \<longleftrightarrow> on_thread {OpenCursorEntry} s h t \<and>
     oc_open_ts_ns oc = ktime (snd h) \<and> reg_arg (snd h) 0 = Some (oc_dsql_request_ptr oc)"

definition opens_fetch :: "sq_state \<Rightarrow> sq_hit \<Rightarrow> u32 \<Rightarrow> u64 \<Rightarrow> bool" where
  "opens_fetch s h t k \<longleftrightarrow> on_thread {FetchNextEntry} s h t \<and> k \<noteq> 0 \<and>
     reg_arg (snd h) 0 = Some k"

definition opens_statement :: "sq_state \<Rightarrow> sq_hit \<Rightarrow> u64 \<Rightarrow> prepared_statement \<Rightarrow> bool" where
  "opens_statement s h r p \<longleftrightarrow> fst h = PrepareExit \<and> reg_ret (snd h) = Some r \<and> r \<noteq> 0 \<and>
     (\<exists>w. prepare_in_progress s (tid_of (snd h)) = Some w \<and>
          p = prepared_from w (ktime (snd h)))"

definition opens_cursor :: "sq_state \<Rightarrow> sq_hit \<Rightarrow> u64 \<Rightarrow> open_cursor \<Rightarrow> bool" where
  "opens_cursor s h k oc \<longleftrightarrow> fst h = OpenCursorExit \<and> reg_ret (snd h) = Some k \<and> k \<noteq> 0 \<and>
     opencursor_in_progress s (tid_of (snd h)) = Some oc"

text \<open>
  A hit touches statement \<open>r\<close> if it is a prepare exit that returns \<open>r\<close> or whose insert may evict
  \<open>r\<close>; it touches cursor \<open>k\<close> if it is an open exit of that kind, or the end-of-data exit of a
  fetch on \<open>k\<close>.
\<close>

definition touches_statement :: "sq_state \<Rightarrow> sq_hit \<Rightarrow> u64 \<Rightarrow> bool" where
  "touches_statement s h r \<longleftrightarrow> fst h = PrepareExit \<and>
     (reg_ret (snd h) = Some r \<or> \<not> update_spares r (prepared_ops (snd h)))"

definition touches_cursor :: "sq_state \<Rightarrow> sq_hit \<Rightarrow> u64 \<Rightarrow> bool" where
  "touches_cursor s h k \<longleftrightarrow>
     fst h = OpenCursorExit \<and>
       (reg_ret (snd h) = Some k \<or> \<not> update_spares k (cursors_ops (snd h))) \<or>
     fst h = FetchNextExit \<and> reg_ret (snd h) = Some 1 \<and>
       fetch_in_progress s (tid_of (snd h)) = Some k"

lemmas opens_defs =
  opens_prepare_def opens_immediate_def opens_execute_def opens_opencursor_def opens_fetch_def
  opens_statement_def opens_cursor_def on_thread_def

lemmas table_simps =
  Let_def sq_good_def sq_kernel_ok_def on_thread_def hash_remove lru_remove
  hash_update_other update_spares_other

lemmas table_splits = option.splits if_splits

interpretation execute_flight:
  inflight execute_in_progress sq_step sq_good opens_execute
    "on_thread {ExecuteEntry, ExecuteExit}"
  by (unfold_locales; case_tac "fst e"; case_tac e)
    (auto simp: table_simps execute_in_progress_step opens_execute_def dest!: hash_update_at split: table_splits)

interpretation prepare_flight:
  inflight prepare_in_progress sq_step sq_good opens_prepare
    "on_thread {PrepareEntry, PrepareExit}"
  by (unfold_locales; case_tac "fst e"; case_tac e)
    (auto simp: table_simps prepare_in_progress_step opens_prepare_def dest!: hash_update_at split: table_splits)

interpretation immediate_flight:
  inflight immediate_in_progress sq_step sq_good opens_immediate
    "on_thread {ImmediateEntry, ImmediateExit}"
  by (unfold_locales; case_tac "fst e"; case_tac e)
    (auto simp: table_simps immediate_in_progress_step opens_immediate_def dest!: hash_update_at split: table_splits)

interpretation opencursor_flight:
  inflight opencursor_in_progress sq_step sq_good opens_opencursor
    "on_thread {OpenCursorEntry, OpenCursorExit}"
  by (unfold_locales; case_tac "fst e"; case_tac e)
    (auto simp: table_simps opencursor_in_progress_step opens_opencursor_def dest!: hash_update_at split: table_splits)

interpretation fetch_flight:
  inflight fetch_in_progress sq_step sq_good opens_fetch
    "on_thread {FetchNextEntry, FetchNextExit}"
  by (unfold_locales; case_tac "fst e"; case_tac e)
    (auto simp: table_simps fetch_in_progress_step opens_fetch_def dest!: hash_update_at split: table_splits)

interpretation statement_table:
  inflight prepared_statements sq_step sq_good opens_statement touches_statement
  by (unfold_locales; case_tac "fst e"; case_tac e)
    (auto simp: table_simps prepared_statements_step opens_statement_def touches_statement_def dest!: lru_update_at
      split: table_splits)

interpretation cursor_table:
  inflight open_cursors sq_step sq_good opens_cursor touches_cursor
  by (unfold_locales; case_tac "fst e"; case_tac e)
    (auto simp: table_simps open_cursors_step opens_cursor_def touches_cursor_def dest!: lru_update_at
      split: table_splits)

end
