(* ===== verification/Slowquery_Lifecycle.thy ===== *)
theory Slowquery_Lifecycle
  imports Slowquery_Tables
begin

section \<open>tragach-slowquery: statement and cursor lifecycles\<close>

text \<open>
  What the probes promise together: a call that is entered and left on one thread, with any
  hits of other threads in between, gives one event with the call's duration, joined with the
  statement's prepare data; a cursor gives one event at end of data. Each event's data come from
  a capture of the same run, and a probe's scratch slot never shows in what is emitted.
\<close>

definition sq_undisturbed ::
  "(sq_state \<Rightarrow> sq_hit \<Rightarrow> 'k \<Rightarrow> bool) \<Rightarrow> 'k \<Rightarrow> sq_hit list \<Rightarrow> sq_state \<Rightarrow> bool" where
  "sq_undisturbed touches k hs s \<longleftrightarrow>
     along (\<lambda>h s. sq_good h \<and> \<not> touches s h k) sq_step hs s"

lemma sq_run_simps [simp]:
  "sq_run [] s = s"
  "sq_run (h # hs) s = sq_run hs (sq_step h s)"
  "sq_run (hs @ hs') s = sq_run hs' (sq_run hs s)"
  by (simp_all add: sq_run_def)

lemma sq_undisturbed_append:
  "sq_undisturbed touches k (hs @ hs') s \<longleftrightarrow>
     sq_undisturbed touches k hs s \<and> sq_undisturbed touches k hs' (sq_run hs s)"
  by (simp add: sq_undisturbed_def sq_run_def along_append)

lemma sq_undisturbed_Cons:
  "sq_undisturbed touches k (h # hs) s \<longleftrightarrow>
     sq_good h \<and> \<not> touches s h k \<and> sq_undisturbed touches k hs (sq_step h s)"
  by (simp add: sq_undisturbed_def)

lemma sq_undisturbed_Nil: "sq_undisturbed touches k [] s"
  by (simp add: sq_undisturbed_def)

text \<open>Survival of an entry over an undisturbed run, for each table.\<close>

lemma sq_survives:
  "sq_undisturbed (on_thread {ExecuteEntry, ExecuteExit}) t hs s \<Longrightarrow>
     execute_in_progress (sq_run hs s) t = execute_in_progress s t"
  "sq_undisturbed (on_thread {PrepareEntry, PrepareExit}) t hs s \<Longrightarrow>
     prepare_in_progress (sq_run hs s) t = prepare_in_progress s t"
  "sq_undisturbed (on_thread {ImmediateEntry, ImmediateExit}) t hs s \<Longrightarrow>
     immediate_in_progress (sq_run hs s) t = immediate_in_progress s t"
  "sq_undisturbed (on_thread {OpenCursorEntry, OpenCursorExit}) t hs s \<Longrightarrow>
     opencursor_in_progress (sq_run hs s) t = opencursor_in_progress s t"
  "sq_undisturbed (on_thread {FetchNextEntry, FetchNextExit}) t hs s \<Longrightarrow>
     fetch_in_progress (sq_run hs s) t = fetch_in_progress s t"
  "sq_undisturbed touches_statement r hs s \<Longrightarrow>
     prepared_statements (sq_run hs s) r = prepared_statements s r"
  "sq_undisturbed touches_cursor k hs s \<Longrightarrow>
     open_cursors (sq_run hs s) k = open_cursors s k"
  unfolding sq_undisturbed_def sq_run_def
  by (rule execute_flight.frame_run prepare_flight.frame_run immediate_flight.frame_run
      opencursor_flight.frame_run fetch_flight.frame_run statement_table.frame_run
      cursor_table.frame_run; assumption)+

subsection \<open>What an entry hit stores\<close>

lemma execute_entry_stores:
  assumes "sq_good (ExecuteEntry, c)" "update_admits (execute_ops c)"
    "reg_arg c 2 = Some r" "r \<noteq> 0"
  shows "execute_in_progress (sq_step (ExecuteEntry, c) s) (tid_of c) =
     Some \<lparr>ee_ts_ns = ktime c, ee_dsql_request_ptr = r\<rparr>"
  using assms
  by (simp add: execute_in_progress_step sq_good_def sq_kernel_ok_def hash_update_admitted)

lemma prepare_entry_stores:
  assumes "sq_good (PrepareEntry, c)" "update_admits (with_sql_ops c)" "captured c = Some w"
  shows "prepare_in_progress (sq_step (PrepareEntry, c) s) (tid_of c) = Some w"
  using assms
  by (simp add: prepare_in_progress_step sq_good_def sq_kernel_ok_def hash_update_admitted)

lemma immediate_entry_stores:
  assumes "sq_good (ImmediateEntry, c)" "update_admits (with_sql_ops c)" "captured c = Some w"
  shows "immediate_in_progress (sq_step (ImmediateEntry, c) s) (tid_of c) = Some w"
  using assms
  by (simp add: immediate_in_progress_step sq_good_def sq_kernel_ok_def hash_update_admitted)

lemma opencursor_entry_stores:
  assumes "sq_good (OpenCursorEntry, c)" "update_admits (opencursor_ops c)"
    "reg_arg c 0 = Some r"
  shows "opencursor_in_progress (sq_step (OpenCursorEntry, c) s) (tid_of c) =
     Some \<lparr>oc_open_ts_ns = ktime c, oc_dsql_request_ptr = r\<rparr>"
  using assms
  by (simp add: opencursor_in_progress_step sq_good_def sq_kernel_ok_def hash_update_admitted)

lemma fetch_entry_stores:
  assumes "sq_good (FetchNextEntry, c)" "update_admits (fetch_ops c)"
    "reg_arg c 0 = Some k" "k \<noteq> 0"
  shows "fetch_in_progress (sq_step (FetchNextEntry, c) s) (tid_of c) = Some k"
  using assms
  by (simp add: fetch_in_progress_step sq_good_def sq_kernel_ok_def hash_update_admitted)

lemma prepare_exit_stores:
  assumes "sq_good (PrepareExit, c)" "update_admits (prepared_ops c)" "scratch_avail c"
    "reg_ret c = Some r" "r \<noteq> 0" "prepare_in_progress s (tid_of c) = Some w"
  shows "prepared_statements (sq_step (PrepareExit, c) s) r = Some (prepared_from w (ktime c))"
  using assms
  by (simp add: prepared_statements_step sq_good_def sq_kernel_ok_def lru_update_admitted_at)

lemma opencursor_exit_stores:
  assumes "sq_good (OpenCursorExit, c)" "update_admits (cursors_ops c)"
    "reg_ret c = Some k" "k \<noteq> 0" "opencursor_in_progress s (tid_of c) = Some oc"
  shows "open_cursors (sq_step (OpenCursorExit, c) s) k = Some oc"
  using assms
  by (simp add: open_cursors_step sq_good_def sq_kernel_ok_def lru_update_admitted_at)

subsection \<open>The execute, immediate and cursor lifecycles\<close>

lemma execute_call_emits:
  assumes "sq_good (ExecuteEntry, x0)" "update_admits (execute_ops x0)"
    "reg_arg x0 2 = Some r" "r \<noteq> 0"
    "sq_undisturbed (on_thread {ExecuteEntry, ExecuteExit}) (tid_of x0) hs
       (sq_step (ExecuteEntry, x0) s)"
    "tid_of x1 = tid_of x0" "ring_room x1"
    "t = sq_run ((ExecuteEntry, x0) # hs) s"
  shows "sq_events (sq_step (ExecuteExit, x1) t) =
     sq_events t @ [request_event x1 (ktime x0) (prepared_statements t r)]"
proof -
  have "execute_in_progress t (tid_of x1) = Some \<lparr>ee_ts_ns = ktime x0, ee_dsql_request_ptr = r\<rparr>"
    using assms by (simp add: sq_survives execute_entry_stores)
  then show ?thesis
    using assms(7) by (simp add: sq_events_step)
qed

lemma prepare_call_stores:
  assumes "sq_good (PrepareEntry, p0)" "update_admits (with_sql_ops p0)" "captured p0 = Some w"
    "sq_undisturbed (on_thread {PrepareEntry, PrepareExit}) (tid_of p0) hs
       (sq_step (PrepareEntry, p0) s)"
    "sq_good (PrepareExit, p1)" "update_admits (prepared_ops p1)" "scratch_avail p1"
    "tid_of p1 = tid_of p0" "reg_ret p1 = Some r" "r \<noteq> 0"
  shows "prepared_statements
     (sq_run ((PrepareEntry, p0) # hs @ [(PrepareExit, p1)]) s) r =
       Some (prepared_from w (ktime p1))"
  using assms by (simp add: prepare_exit_stores sq_survives prepare_entry_stores)

lemma cursor_open_stores:
  assumes "sq_good (OpenCursorEntry, o0)" "update_admits (opencursor_ops o0)"
    "reg_arg o0 0 = Some r"
    "sq_undisturbed (on_thread {OpenCursorEntry, OpenCursorExit}) (tid_of o0) hs
       (sq_step (OpenCursorEntry, o0) s)"
    "sq_good (OpenCursorExit, o1)" "update_admits (cursors_ops o1)"
    "tid_of o1 = tid_of o0" "reg_ret o1 = Some k" "k \<noteq> 0"
  shows "open_cursors (sq_run ((OpenCursorEntry, o0) # hs @ [(OpenCursorExit, o1)]) s) k =
     Some \<lparr>oc_open_ts_ns = ktime o0, oc_dsql_request_ptr = r\<rparr>"
  using assms by (simp add: opencursor_exit_stores sq_survives opencursor_entry_stores)

lemma fetch_call_at_exit:
  assumes "sq_good (FetchNextEntry, f0)" "update_admits (fetch_ops f0)"
    "reg_arg f0 0 = Some k" "k \<noteq> 0"
    "sq_undisturbed (on_thread {FetchNextEntry, FetchNextExit}) (tid_of f0) hs
       (sq_step (FetchNextEntry, f0) s)"
    "tid_of f1 = tid_of f0"
  shows "fetch_in_progress (sq_run ((FetchNextEntry, f0) # hs) s) (tid_of f1) = Some k"
  using assms by (simp add: sq_survives fetch_entry_stores)

subsection \<open>Provenance\<close>

definition unknown_event :: "slow_query_event \<Rightarrow> bool" where
  "unknown_event ev \<longleftrightarrow> sqe_attachment_id ev = 0 \<and> sqe_prepare_ns ev = 0 \<and> sqe_sql_len ev = 0 \<and>
     sqe_sql_truncated ev = 0 \<and> sqe_sql ev = replicate sql_max 0"

definition from_capture :: "sq_hit list \<Rightarrow> slow_query_event \<Rightarrow> bool" where
  "from_capture hs ev \<longleftrightarrow>
     (\<exists>p c w. (p, c) \<in> set hs \<and> p \<in> {PrepareEntry, ImmediateEntry} \<and> captured c = Some w \<and>
        sqe_attachment_id ev = ws_attachment_ptr w \<and> sqe_sql_len ev = ws_sql_len w \<and>
        sqe_sql_truncated ev = ws_sql_truncated w \<and> sqe_sql ev = take sql_max (ws_sql w))"

lemma from_captureI:
  "(p, c) \<in> set hs \<Longrightarrow> p \<in> {PrepareEntry, ImmediateEntry} \<Longrightarrow> captured c = Some w \<Longrightarrow>
     sqe_attachment_id ev = ws_attachment_ptr w \<Longrightarrow> sqe_sql_len ev = ws_sql_len w \<Longrightarrow>
     sqe_sql_truncated ev = ws_sql_truncated w \<Longrightarrow> sqe_sql ev = take sql_max (ws_sql w) \<Longrightarrow>
     from_capture hs ev"
  unfolding from_capture_def by blast

lemma from_capture_mono: "from_capture hs ev \<Longrightarrow> from_capture (hs @ hs') ev"
  unfolding from_capture_def by (metis Un_iff set_append)

lemma sq_init_empty [simp]:
  "prepare_in_progress sq_init t = None" "execute_in_progress sq_init t = None"
  "immediate_in_progress sq_init t = None" "opencursor_in_progress sq_init t = None"
  "fetch_in_progress sq_init t = None" "prepared_statements sq_init r = None"
  "open_cursors sq_init k = None" "sq_events sq_init = []"
  by (simp_all add: sq_init_def)

lemma in_flight_capture:
  assumes "\<forall>h \<in> set hs. sq_good h" and "prepare_in_progress (sq_run hs sq_init) t = Some w"
  shows "\<exists>c. (PrepareEntry, c) \<in> set hs \<and> captured c = Some w"
proof -
  have "\<exists>hs1 e hs2. hs = hs1 @ e # hs2 \<and> opens_prepare (sq_run hs1 sq_init) e t w"
    using prepare_flight.origin_from_empty [OF assms(1), of sq_init t w] assms(2)
    unfolding sq_run_def by (metis sq_init_empty(1))
  then show ?thesis
    by (auto simp: opens_prepare_def on_thread_def)
qed

end
