(* ===== verification/Slowquery_Safety.thy ===== *)
theory Slowquery_Safety
  imports Slowquery_Lifecycle
begin

section \<open>tragach-slowquery: where events come from\<close>

text \<open>
  Properties of every run of the slowquery programs from the empty state: the data of an event
  come from a capture of the run, every event is a well-formed record, and the per-CPU scratch
  slots carry nothing from one probe to the next.
\<close>

lemma known_statement_capture:
  assumes "\<forall>h \<in> set hs. sq_good h" and "prepared_statements (sq_run hs sq_init) r = Some p"
  shows "\<exists>c w now. (PrepareEntry, c) \<in> set hs \<and> captured c = Some w \<and> p = prepared_from w now"
proof -
  have "\<exists>hs1 e hs2. hs = hs1 @ e # hs2 \<and> opens_statement (sq_run hs1 sq_init) e r p"
    using statement_table.origin_from_empty [OF assms(1), of sq_init r p] assms(2)
    unfolding sq_run_def by (metis sq_init_empty(6))
  then obtain hs1 e hs2 w now where hs: "hs = hs1 @ e # hs2"
    and w: "prepare_in_progress (sq_run hs1 sq_init) (tid_of (snd e)) = Some w"
    and p: "p = prepared_from w now"
    by (auto simp: opens_statement_def)
  have "\<forall>h \<in> set hs1. sq_good h"
    using assms(1) hs by simp
  then obtain c where "(PrepareEntry, c) \<in> set hs1" "captured c = Some w"
    using in_flight_capture w by blast
  then have "(PrepareEntry, c) \<in> set hs \<and> captured c = Some w \<and> p = prepared_from w now"
    using hs p by simp
  then show ?thesis by blast
qed

lemma in_flight_immediate:
  assumes "\<forall>h \<in> set hs. sq_good h" and "immediate_in_progress (sq_run hs sq_init) t = Some w"
  shows "\<exists>c. (ImmediateEntry, c) \<in> set hs \<and> captured c = Some w"
proof -
  have "\<exists>hs1 e hs2. hs = hs1 @ e # hs2 \<and> opens_immediate (sq_run hs1 sq_init) e t w"
    using immediate_flight.origin_from_empty [OF assms(1), of sq_init t w] assms(2)
    unfolding sq_run_def by (metis sq_init_empty(3))
  then show ?thesis
    by (auto simp: opens_immediate_def on_thread_def)
qed

lemma request_event_source:
  assumes "\<forall>h \<in> set hs. sq_good h"
  shows "unknown_event (request_event c start (prepared_statements (sq_run hs sq_init) r)) \<or>
     from_capture hs (request_event c start (prepared_statements (sq_run hs sq_init) r))"
proof (cases "prepared_statements (sq_run hs sq_init) r")
  case None
  then show ?thesis
    by (simp add: request_event_def unknown_event_def)
next
  case (Some p)
  then obtain d w now where "(PrepareEntry, d) \<in> set hs" "captured d = Some w"
    "p = prepared_from w now"
    using known_statement_capture [OF assms Some] by blast
  then have "from_capture hs (request_event c start (Some p))"
    by (intro from_captureI) (auto simp: request_event_def prepared_from_def)
  then show ?thesis
    using Some by simp
qed

lemma emitted_source:
  assumes "\<forall>h \<in> set hs. sq_good h" and "emitted p c (sq_run hs sq_init) = Some ev"
  shows "unknown_event ev \<or> from_capture hs ev"
proof (cases "p = ImmediateExit")
  case True
  then obtain w where w: "immediate_in_progress (sq_run hs sq_init) (tid_of c) = Some w"
    and ev: "ev = immediate_event c w"
    using assms(2) by (auto split: option.splits if_splits)
  obtain d where "(ImmediateEntry, d) \<in> set hs" "captured d = Some w"
    using in_flight_immediate [OF assms(1) w] by blast
  then have "from_capture hs ev"
    by (intro from_captureI) (auto simp: immediate_event_def ev)
  then show ?thesis ..
next
  case False
  then obtain start r where
    "ev = request_event c start (prepared_statements (sq_run hs sq_init) r)"
    using assms(2) by (cases p) (auto split: option.splits if_splits)
  then show ?thesis
    using request_event_source [OF assms(1)] by simp
qed

lemma event_source_run:
  assumes "\<forall>h \<in> set hs. sq_good h" and "ev \<in> set (sq_events (sq_run hs sq_init))"
  shows "unknown_event ev \<or> from_capture hs ev"
  using assms
proof (induction hs rule: rev_induct)
  case Nil
  then show ?case by simp
next
  case (snoc h hs)
  obtain p c where h: "h = (p, c)" by fastforce
  from snoc.prems consider "ev \<in> set (sq_events (sq_run hs sq_init))"
    | "emitted p c (sq_run hs sq_init) = Some ev"
    by (auto simp: h sq_events_step split: option.splits)
  then have "unknown_event ev \<or> from_capture hs ev"
  proof cases
    case 1
    then show ?thesis using snoc by simp
  next
    case 2
    then show ?thesis using snoc.prems(1) emitted_source by auto
  qed
  then show ?case using from_capture_mono by blast
qed

text \<open>C2: every event of a run from the empty state is either marked unknown (no attachment, no
  prepare time, an all-zero SQL buffer) or carries the attachment pointer, SQL length, truncation
  flag and SQL bytes that one prepare or immediate entry of that same run captured. No event is
  assembled from two captures.\<close>

theorem event_provenance:
  assumes "\<forall>h \<in> set hs. sq_good h" and "ev \<in> set (sq_events (sq_run hs sq_init))"
  shows "unknown_event ev \<or> from_capture hs ev"
  using assms by (rule event_source_run)

subsection \<open>Well-formed records\<close>

text \<open>
  What the helper documents: it writes at most the buffer it is given, and the slice it returns
  leaves room for the terminating NUL.
\<close>

definition user_str_ok :: "sq_hit_ctx \<Rightarrow> bool" where
  "user_str_ok c \<longleftrightarrow>
     (\<forall>p b. length (snd (read_user_str c p b)) = length b \<and>
        (\<forall>n. fst (read_user_str c p b) = Inr n \<longrightarrow> n \<le> length b - 1))"

lemma captured_sql_length:
  "captured c = Some w \<Longrightarrow> user_str_ok c \<Longrightarrow> length (ws_sql w) = sql_max"
  by (auto simp: captured_def capture_record_def user_str_ok_def Let_def case_prod_beta
      split: option.splits if_splits)

lemma captured_truncated:
  "captured c = Some w \<Longrightarrow> ws_sql_truncated w \<in> {0, 1}"
  by (auto simp: captured_def capture_record_def Let_def case_prod_beta
      split: option.splits if_splits)

lemma events_well_formed_run:
  assumes "\<forall>h \<in> set hs. sq_good h \<and> user_str_ok (snd h)"
    and "ev \<in> set (sq_events (sq_run hs sq_init))"
  shows "slow_query_event_ok ev \<and> sqe_sql_truncated ev \<in> {0, 1}"
proof -
  have "unknown_event ev \<or> from_capture hs ev"
    using assms by (intro event_source_run) auto
  then show ?thesis
  proof
    assume "unknown_event ev"
    then show ?thesis by (simp add: unknown_event_def slow_query_event_ok_def)
  next
    assume "from_capture hs ev"
    then obtain p c w where "(p, c) \<in> set hs" "captured c = Some w"
      "sqe_sql_truncated ev = ws_sql_truncated w" "sqe_sql ev = take sql_max (ws_sql w)"
      unfolding from_capture_def by blast
    then show ?thesis
      using assms(1) captured_sql_length [of c w] captured_truncated [of c w]
      by (auto simp: slow_query_event_ok_def)
  qed
qed

subsection \<open>The scratch slots\<close>

text \<open>Two states that agree on everything but the per-CPU scratch slots.\<close>

definition same_but_scratch :: "sq_state \<Rightarrow> sq_state \<Rightarrow> bool" where
  "same_but_scratch s t \<longleftrightarrow>
     t = s\<lparr>with_sql_scratch := with_sql_scratch t, prepared_scratch := prepared_scratch t\<rparr>"

lemma same_but_scratch_iff:
  "same_but_scratch s t \<longleftrightarrow>
     prepare_in_progress s = prepare_in_progress t \<and>
     execute_in_progress s = execute_in_progress t \<and>
     immediate_in_progress s = immediate_in_progress t \<and>
     opencursor_in_progress s = opencursor_in_progress t \<and>
     fetch_in_progress s = fetch_in_progress t \<and>
     prepared_statements s = prepared_statements t \<and>
     open_cursors s = open_cursors t \<and> sq_events s = sq_events t"
  unfolding same_but_scratch_def by (cases s; cases t) auto

lemma emitted_scratch: "same_but_scratch s t \<Longrightarrow> emitted p c s = emitted p c t"
  by (cases p) (auto simp: same_but_scratch_iff split: option.splits)

lemma step_scratch: "same_but_scratch s t \<Longrightarrow> same_but_scratch (sq_step h s) (sq_step h t)"
  using emitted_scratch [of s t "fst h" "snd h"]
  by (cases h)
    (simp add: same_but_scratch_iff state_simps Let_def
      cong: option.case_cong sq_probe.case_cong)

lemma run_scratch: "same_but_scratch s t \<Longrightarrow> same_but_scratch (sq_run hs s) (sq_run hs t)"
  by (induction hs arbitrary: s t) (simp_all add: step_scratch)

text \<open>C23: what the per-CPU scratch slots held before a run never shows: from two states that
  differ in the scratch slots only, any sequence of hits emits the same events and leaves the
  same contents in all seven maps, so no byte of an earlier statement can leak through the reused
  buffer, neither into an event nor into a table.\<close>

theorem scratch_never_leaks:
  "(let t = sq_run hs (s\<lparr>with_sql_scratch := a, prepared_scratch := b\<rparr>); u = sq_run hs s in
    sq_events t = sq_events u \<and>
    prepare_in_progress t = prepare_in_progress u \<and>
    execute_in_progress t = execute_in_progress u \<and>
    immediate_in_progress t = immediate_in_progress u \<and>
    opencursor_in_progress t = opencursor_in_progress u \<and>
    fetch_in_progress t = fetch_in_progress u \<and>
    prepared_statements t = prepared_statements u \<and>
    open_cursors t = open_cursors u)"
proof -
  have "same_but_scratch (s\<lparr>with_sql_scratch := a, prepared_scratch := b\<rparr>) s"
    by (simp add: same_but_scratch_iff)
  from run_scratch [OF this, of hs] show ?thesis
    by (simp add: same_but_scratch_iff Let_def)
qed

subsection \<open>Who emits, and how much\<close>

text \<open>One hit appends at most one event, and only an execute exit, an immediate exit or a
  fetch exit that reports end of data, with room in the ring, can; the event carries the hit's
  own thread and clock and a duration that cannot exceed the clock (no underflow).\<close>

lemma hit_emits_at_most_one:
  "\<exists>evs. sq_events (sq_step (p, c) s) = sq_events s @ evs \<and> length evs \<le> 1 \<and>
     (evs = [] \<or>
       ring_room c \<and>
       (p = ExecuteExit \<or> p = ImmediateExit \<or> p = FetchNextExit \<and> reg_ret c = Some 1) \<and>
       sqe_tid (hd evs) = tid_of c \<and> sqe_ts_ns (hd evs) = ktime c \<and>
       sqe_execute_ns (hd evs) \<le> ktime c \<and> sqe_pad (hd evs) = 0)"
proof (cases "emitted p c s")
  case None
  then show ?thesis by (simp add: sq_events_step)
next
  case (Some ev)
  then have "ring_room c \<and>
    (p = ExecuteExit \<or> p = ImmediateExit \<or> p = FetchNextExit \<and> reg_ret c = Some 1) \<and>
    sqe_tid ev = tid_of c \<and> sqe_ts_ns ev = ktime c \<and> sqe_execute_ns ev \<le> ktime c \<and>
    sqe_pad ev = 0"
    by (cases p)
      (auto simp: request_event_def immediate_event_def saturating_sub_le
        split: option.splits if_splits)
  then show ?thesis
    using Some by (simp add: sq_events_step)
qed

subsection \<open>The truncation flag\<close>

text \<open>
  The helper copies a NUL-terminated string: at most the buffer's size less one, then a NUL;
  the rest of the buffer keeps its bytes.
\<close>

definition copy_cstr :: "u8 list \<Rightarrow> u8 list \<Rightarrow> (i64 + nat) \<times> u8 list" where
  "copy_cstr str b =
     (if b = [] then (Inl (- 14), b)
      else (Inr (min (length str) (length b - 1)),
            take (length b - 1) str @ [0] @ drop (Suc (min (length str) (length b - 1))) b))"

definition copies_cstr :: "sq_hit_ctx \<Rightarrow> u64 \<Rightarrow> u8 list \<Rightarrow> bool" where
  "copies_cstr c p str \<longleftrightarrow> (\<forall>b. read_user_str c p b = copy_cstr str b)"

lemma copy_cstr_length [simp]: "length (snd (copy_cstr str b)) = length b"
  by (cases b) (auto simp: copy_cstr_def min_def)

lemma copy_cstr_zeroed:
  "copy_cstr str (replicate 512 0) =
     (Inr (min (length str) 511), take 511 str @ replicate (512 - length (take 511 str)) 0)"
  by (auto simp: copy_cstr_def min_def Suc_diff_le simp flip: replicate_Suc)

lemma capture_record_cstr:
  assumes "copies_cstr c p str" "p \<noteq> 0"
  shows "capture_record c att l p =
     \<lparr>ws_ts_ns = ktime c, ws_attachment_ptr = att,
      ws_sql_len = (if l = 0 then of_nat (min (length str) 511) else ucast l),
      ws_sql_truncated = (if 511 \<le> length str \<and> 511 < l then 1 else 0),
      ws_sql = take 511 str @ replicate (512 - length (take 511 str)) 0\<rparr>"
proof -
  have "(511 :: u32) \<le> of_nat (min (length str) 511) \<longleftrightarrow> 511 \<le> length str"
    by (cases "511 \<le> length str") (simp_all add: word_le_nat_alt unat_of_nat)
  then show ?thesis
    using assms
    by (auto simp: capture_record_def copies_cstr_def copy_cstr_zeroed sql_max_def)
qed

lemma explicit_capture:
  assumes "copies_cstr c p str" "p \<noteq> 0" "scratch_avail c"
    "reg_arg c 1 = Some att" "reg_arg c 3 = Some (of_nat (length str))" "reg_arg c 4 = Some p"
    "str \<noteq> []" "length str < 2 ^ 32"
  shows "\<exists>w. captured c = Some w \<and>
     (ws_sql_truncated w = 1 \<longleftrightarrow> 511 < length str) \<and>
     unat (ws_sql_len w) = length str \<and>
     ws_sql w = take 511 str @ replicate (512 - length (take 511 str)) 0"
proof -
  have l: "unat (of_nat (length str) :: u64) = length str"
    using assms(8) by (simp add: unat_of_nat)
  then have "(of_nat (length str) :: u64) \<noteq> 0"
    using assms(7) by auto
  moreover have "511 < (of_nat (length str) :: u64) \<longleftrightarrow> 511 < length str"
    using l by (simp add: word_less_nat_alt)
  moreover have "unat (ucast (of_nat (length str) :: u64) :: u32) = length str"
    using assms(8) l by (simp add: unsigned_ucast_eq take_bit_nat_eq_self)
  ultimately show ?thesis
    using assms by (auto simp: captured_def capture_record_cstr)
qed

text \<open>C27: for a statement passed with its length, the record the entry probe stores for its thread
  has the truncation flag set exactly when the text has more than the 511 bytes that fit the
  buffer, its bytes are the text's first 511 followed by zeros, whatever the reused scratch slot
  held before, and its length is the text's.\<close>

theorem explicit_length_truncation:
  assumes "copies_cstr c p str" "p \<noteq> 0" "scratch_avail c"
    "reg_arg c 1 = Some att" "reg_arg c 3 = Some (of_nat (length str))" "reg_arg c 4 = Some p"
    "str \<noteq> []" "length str < 2 ^ 32"
    and "hash_ops_ok (with_sql_ops c)" "update_admits (with_sql_ops c)"
  shows "\<exists>w. snd (snd (try_capture_sql_entry c scratch m)) = m(tid_of c \<mapsto> w) \<and>
     (ws_sql_truncated w = 1 \<longleftrightarrow> 511 < length str) \<and>
     unat (ws_sql_len w) = length str \<and>
     ws_sql w = take 511 str @ replicate (512 - length (take 511 str)) 0"
  using explicit_capture [OF assms(1-8)] hash_update_admitted [OF assms(9,10)]
  by (auto simp: capture_eq)

text \<open>C40: a statement passed with length 0 (the engine's convention for a NUL-terminated text) is
  never flagged as truncated, however long it is: the record stored for its thread has only its
  first 511 bytes, and says it is whole.\<close>

theorem zero_length_never_flagged:
  assumes "copies_cstr c p str" "p \<noteq> 0" "scratch_avail c"
    "reg_arg c 1 = Some att" "reg_arg c 3 = Some 0" "reg_arg c 4 = Some p"
    and "hash_ops_ok (with_sql_ops c)" "update_admits (with_sql_ops c)"
  shows "\<exists>w. snd (snd (try_capture_sql_entry c scratch m)) = m(tid_of c \<mapsto> w) \<and>
     ws_sql_truncated w = 0 \<and>
     take 511 (ws_sql w) = take 511 str @ replicate (511 - length str) 0 \<and>
     unat (ws_sql_len w) = min (length str) 511"
proof -
  have "unat (of_nat (min (length str) 511) :: u32) = min (length str) 511"
    by (simp add: unat_of_nat)
  then have "\<exists>w. captured c = Some w \<and> ws_sql_truncated w = 0 \<and>
     take 511 (ws_sql w) = take 511 str @ replicate (511 - length str) 0 \<and>
     unat (ws_sql_len w) = min (length str) 511"
    using assms(1-6) by (simp add: captured_def capture_record_cstr min_def)
  then show ?thesis
    using hash_update_admitted [OF assms(7,8)] by (auto simp: capture_eq)
qed

end
