(* ===== verification/Slowquery_Claims.thy ===== *)
theory Slowquery_Claims
  imports Slowquery_Safety
begin

section \<open>tragach-slowquery: lifecycle theorems\<close>

text \<open>
  The component's contract over whole runs. Where a hypothesis speaks of a run of other hits,
  \<open>sq_undisturbed\<close> says that none of them touches the entry in question and that the kernel keeps
  its documented laws at each of them; everything else about those hits is free. The witnesses
  run on a kernel with room.
\<close>

subsection \<open>Concrete hits for the witnesses\<close>

definition select_text :: "u8 list" where
  "select_text = [83, 69, 76, 69, 67, 84, 32, 49]"

definition sample_ctx :: "u32 \<Rightarrow> u64 \<Rightarrow> u64 list \<Rightarrow> u64 option \<Rightarrow> sq_hit_ctx" where
  "sample_ctx t now args ret =
     \<lparr>pid_tgid = task_id 736 t, ktime = now, cpu = 0,
      reg_arg = (\<lambda>n. if n < length args then Some (args ! n) else None), reg_ret = ret,
      ring_room = True, scratch_avail = True, read_user_str = (\<lambda>p b. copy_cstr select_text b),
      with_sql_ops = roomy_ops, execute_ops = roomy_ops, opencursor_ops = roomy_ops,
      fetch_ops = roomy_ops, prepared_ops = roomy_ops, cursors_ops = roomy_ops\<rparr>"

lemma sample_ctx_simps [simp]:
  "ktime (sample_ctx t now args ret) = now"
  "tid_of (sample_ctx t now args ret) = t"
  "reg_arg (sample_ctx t now args ret) n = (if n < length args then Some (args ! n) else None)"
  "reg_ret (sample_ctx t now args ret) = ret"
  "ring_room (sample_ctx t now args ret)"
  "scratch_avail (sample_ctx t now args ret)"
  "copies_cstr (sample_ctx t now args ret) p select_text"
  "with_sql_ops (sample_ctx t now args ret) = roomy_ops"
  "execute_ops (sample_ctx t now args ret) = roomy_ops"
  "opencursor_ops (sample_ctx t now args ret) = roomy_ops"
  "fetch_ops (sample_ctx t now args ret) = roomy_ops"
  "prepared_ops (sample_ctx t now args ret) = roomy_ops"
  "cursors_ops (sample_ctx t now args ret) = roomy_ops"
  "sq_good (probe, sample_ctx t now args ret)"
  by (simp_all add: sample_ctx_def tid_of_task_id copies_cstr_def sq_good_def sq_kernel_ok_def)

text \<open>A prepare of \<open>SELECT 1\<close> on attachment \<open>0xa000\<close> by thread \<open>t\<close>, without an explicit length.\<close>

definition sample_prepare :: "u32 \<Rightarrow> u64 \<Rightarrow> sq_hit_ctx" where
  "sample_prepare t now = sample_ctx t now [1, 0xa000, 0, 0, 0xb000] None"

definition sample_capture :: "u64 \<Rightarrow> with_sql" where
  "sample_capture now =
     \<lparr>ws_ts_ns = now, ws_attachment_ptr = 0xa000, ws_sql_len = 8, ws_sql_truncated = 0,
      ws_sql = select_text @ replicate 504 0\<rparr>"

lemma captured_sample: "captured (sample_prepare t now) = Some (sample_capture now)"
  by (simp add: sample_prepare_def sample_capture_def captured_def
      capture_record_cstr [OF sample_ctx_simps(7)] select_text_def)

subsection \<open>Prepare, then execute\<close>

text \<open>C1: a statement prepared on one thread and executed on any thread yields exactly one event at
  the execute exit, with the prepare call's duration, the execute call's duration, the executing
  thread, and the attachment, SQL length, truncation flag and SQL bytes captured when the prepare
  call was entered. The hits in between, of the same and of other threads, are arbitrary except
  that: inside the prepare call its thread has no other prepare hit, and inside the execute call
  no other execute hit; from the prepare exit to the execute exit no prepare exit of any thread
  returns the same request pointer again or evicts the statement from its LRU table
  (\<open>touches_statement\<close>); the kernel admits the three inserts and the ring has room for the event.\<close>

theorem statement_lifecycle:
  assumes prepare: "sq_good (PrepareEntry, p0)" "update_admits (with_sql_ops p0)"
      "captured p0 = Some w"
    and preparing: "sq_undisturbed (on_thread {PrepareEntry, PrepareExit}) (tid_of p0) as
      (sq_step (PrepareEntry, p0) s)"
    and prepared: "sq_good (PrepareExit, p1)" "update_admits (prepared_ops p1)"
      "scratch_avail p1" "tid_of p1 = tid_of p0" "reg_ret p1 = Some r" "r \<noteq> 0"
    and kept: "sq_undisturbed touches_statement r (bs @ (ExecuteEntry, x0) # cs)
      (sq_run ((PrepareEntry, p0) # as @ [(PrepareExit, p1)]) s)"
    and execute: "update_admits (execute_ops x0)" "reg_arg x0 2 = Some r"
    and executing: "sq_undisturbed (on_thread {ExecuteEntry, ExecuteExit}) (tid_of x0) cs
      (sq_run ((PrepareEntry, p0) # as @ (PrepareExit, p1) # bs @ [(ExecuteEntry, x0)]) s)"
    and executed: "tid_of x1 = tid_of x0" "ring_room x1"
    and run: "t = sq_run ((PrepareEntry, p0) # as @ (PrepareExit, p1) # bs @
      (ExecuteEntry, x0) # cs) s"
  shows "sq_events (sq_step (ExecuteExit, x1) t) = sq_events t @
    [\<lparr>sqe_ts_ns = ktime x1, sqe_prepare_ns = saturating_sub (ktime p1) (ws_ts_ns w),
      sqe_execute_ns = saturating_sub (ktime x1) (ktime x0),
      sqe_attachment_id = ws_attachment_ptr w, sqe_tid = tid_of x1, sqe_sql_len = ws_sql_len w,
      sqe_sql_truncated = ws_sql_truncated w, sqe_pad = 0,
      sqe_sql = take sql_max (ws_sql w)\<rparr>]"
proof -
  let ?s1 = "sq_run ((PrepareEntry, p0) # as @ [(PrepareExit, p1)]) s"
  have stored: "prepared_statements ?s1 r = Some (prepared_from w (ktime p1))"
    by (rule prepare_call_stores) (use prepare preparing prepared in auto)
  have known: "prepared_statements t r = Some (prepared_from w (ktime p1))"
    using sq_survives(6) [OF kept] stored by (simp add: run)
  have good: "sq_good (ExecuteEntry, x0)"
    using kept by (simp add: sq_undisturbed_append sq_undisturbed_Cons)
  have "sq_events (sq_step (ExecuteExit, x1) t) =
      sq_events t @ [request_event x1 (ktime x0) (prepared_statements t r)]"
    by (rule execute_call_emits [OF good, where hs = cs and s = "sq_run bs ?s1"])
      (use execute executing executed prepared(6) in \<open>simp_all add: run\<close>)
  then show ?thesis
    by (simp add: known request_event_def prepared_from_def)
qed

theorem statement_lifecycle_witness:
  "sq_events (sq_run
     [(PrepareEntry, sample_prepare 740 1000), (PrepareExit, sample_ctx 740 1800 [] (Some 0xd0)),
      (ExecuteEntry, sample_ctx 740 2000 [0, 0, 0xd0] None),
      (ExecuteExit, sample_ctx 740 2500 [] None)] sq_init) =
   [\<lparr>sqe_ts_ns = 2500, sqe_prepare_ns = 800, sqe_execute_ns = 500, sqe_attachment_id = 0xa000,
     sqe_tid = 740, sqe_sql_len = 8, sqe_sql_truncated = 0, sqe_pad = 0,
     sqe_sql = select_text @ replicate 504 0\<rparr>]"
proof -
  let ?p0 = "sample_prepare 740 1000" and ?p1 = "sample_ctx 740 1800 [] (Some 0xd0)"
  let ?x0 = "sample_ctx 740 2000 [0, 0, 0xd0] None" and ?x1 = "sample_ctx 740 2500 [] None"
  have "sq_events (sq_step (ExecuteExit, ?x1)
      (sq_run [(PrepareEntry, ?p0), (PrepareExit, ?p1), (ExecuteEntry, ?x0)] sq_init)) =
    sq_events (sq_run [(PrepareEntry, ?p0), (PrepareExit, ?p1), (ExecuteEntry, ?x0)] sq_init) @
    [\<lparr>sqe_ts_ns = 2500, sqe_prepare_ns = saturating_sub 1800 1000,
      sqe_execute_ns = saturating_sub 2500 2000, sqe_attachment_id = 0xa000, sqe_tid = 740,
      sqe_sql_len = 8, sqe_sql_truncated = 0, sqe_pad = 0,
      sqe_sql = take sql_max (select_text @ replicate 504 0)\<rparr>]"
    using statement_lifecycle [where as = "[]" and bs = "[]" and cs = "[]" and s = sq_init
        and ?p0.0 = ?p0 and w = "sample_capture 1000" and ?p1.0 = ?p1 and r = "0xd0"
        and ?x0.0 = ?x0 and ?x1.0 = ?x1, OF _ _ captured_sample]
    by (simp add: sample_prepare_def sample_capture_def sq_undisturbed_Nil sq_undisturbed_Cons
        touches_statement_def)
  moreover have "sq_events (sq_run [(PrepareEntry, ?p0), (PrepareExit, ?p1),
      (ExecuteEntry, ?x0)] sq_init) = []"
    by (simp add: sq_events_step)
  ultimately show ?thesis
    by (simp add: saturating_sub_def sql_max_def select_text_def)
qed

subsection \<open>Cursors\<close>

text \<open>
  The events that the fetch exits on cursor \<open>k\<close> emit along a run. None are emitted while rows
  come back, and none once the cursor is closed, until an open call returns it again.
\<close>

fun cursor_events :: "u64 \<Rightarrow> sq_hit list \<Rightarrow> sq_state \<Rightarrow> slow_query_event list" where
  "cursor_events k [] s = []"
| "cursor_events k (h # hs) s =
     (if fst h = FetchNextExit \<and> fetch_in_progress s (tid_of (snd h)) = Some k
      then drop (length (sq_events s)) (sq_events (sq_step h s)) else []) @
     cursor_events k hs (sq_step h s)"

lemma cursor_events_append:
  "cursor_events k (hs @ hs') s = cursor_events k hs s @ cursor_events k hs' (sq_run hs s)"
  by (induction hs arbitrary: s) auto

definition reopens_cursor :: "u64 \<Rightarrow> sq_hit \<Rightarrow> bool" where
  "reopens_cursor k h \<longleftrightarrow> fst h = OpenCursorExit \<and> reg_ret (snd h) = Some k"

lemma row_fetch_is_silent:
  assumes "\<not> touches_cursor s h k" "fst h = FetchNextExit"
    "fetch_in_progress s (tid_of (snd h)) = Some k"
  shows "sq_events (sq_step h s) = sq_events s"
  using assms by (cases h) (auto simp: touches_cursor_def sq_events_step split: option.split)

lemma rows_are_silent:
  "sq_undisturbed touches_cursor k hs s \<Longrightarrow> cursor_events k hs s = []"
  by (induction hs arbitrary: s) (auto simp: sq_undisturbed_Cons row_fetch_is_silent)

lemma undisturbed_split:
  assumes "sq_undisturbed touches_cursor k hs s" "hs = hs1 @ h # hs2"
  shows "open_cursors (sq_step h (sq_run hs1 s)) k = open_cursors s k \<and>
    (fst h = FetchNextExit \<and> fetch_in_progress (sq_run hs1 s) (tid_of (snd h)) = Some k \<longrightarrow>
      sq_events (sq_step h (sq_run hs1 s)) = sq_events (sq_run hs1 s))"
proof -
  have kept: "sq_undisturbed touches_cursor k (hs1 @ [h]) s"
    using assms by (simp add: sq_undisturbed_append sq_undisturbed_Cons sq_undisturbed_Nil)
  have "\<not> touches_cursor (sq_run hs1 s) h k"
    using kept by (simp add: sq_undisturbed_append sq_undisturbed_Cons)
  with sq_survives(7) [OF kept] show ?thesis
    by (simp add: row_fetch_is_silent)
qed

lemma closed_cursor_step:
  assumes "open_cursors s k = None" "sq_good h" "\<not> reopens_cursor k h"
  shows "open_cursors (sq_step h s) k = None"
  using cursor_table.origin [OF assms(2), of s k] assms(1,3)
  by (cases "open_cursors (sq_step h s) k") (auto simp: opens_cursor_def reopens_cursor_def)

lemma closed_cursor_is_silent:
  assumes "open_cursors s k = None" "\<forall>h \<in> set hs. sq_good h \<and> \<not> reopens_cursor k h"
  shows "open_cursors (sq_run hs s) k = None \<and> cursor_events k hs s = []"
  using assms
proof (induction hs arbitrary: s)
  case (Cons h hs)
  have "drop (length (sq_events s)) (sq_events (sq_step h s)) = []"
    if "fst h = FetchNextExit" "fetch_in_progress s (tid_of (snd h)) = Some k"
    using that Cons.prems(1) by (cases h) (simp add: sq_events_step)
  then show ?case
    using Cons.IH [of "sq_step h s"] Cons.prems closed_cursor_step [of s k h] by auto
qed simp

text \<open>C6: a cursor opened by one call and drained by any number of fetches, on any threads, emits
  exactly one event over its life, at the fetch that reports end of data: its duration runs from
  the entry of the open call to that fetch's exit, and its data are those of the cursor's
  statement. Every hit before that fetch's exit leaves the cursor open as it was stored, the
  exits of its fetches that return a row emitting nothing; that exit closes it, and it stays
  closed and silent until an open call returns its pointer again. The hits before the last exit
  are arbitrary except that: between its opening and that exit no fetch exit reports end of data
  on the cursor, and no open exit returns its pointer again or evicts it from its LRU table
  (\<open>touches_cursor\<close>); the opening thread has no other open hit inside the open call, nor the
  last fetching thread another fetch hit inside the last fetch; the kernel admits the three inserts
  and the ring has room for the event.\<close>

theorem cursor_lifecycle:
  assumes entered: "sq_good (OpenCursorEntry, o0)" "update_admits (opencursor_ops o0)"
      "reg_arg o0 0 = Some r"
      "sq_undisturbed (on_thread {OpenCursorEntry, OpenCursorExit}) (tid_of o0) as
        (sq_step (OpenCursorEntry, o0) s)"
    and opened: "sq_good (OpenCursorExit, o1)" "update_admits (cursors_ops o1)"
      "tid_of o1 = tid_of o0" "reg_ret o1 = Some k" "k \<noteq> 0"
    and s1: "s1 = sq_run ((OpenCursorEntry, o0) # as @ [(OpenCursorExit, o1)]) s"
    and kept: "sq_undisturbed touches_cursor k (bs @ (FetchNextEntry, f0) # cs) s1"
    and fetching: "update_admits (fetch_ops f0)" "reg_arg f0 0 = Some k"
      "sq_undisturbed (on_thread {FetchNextEntry, FetchNextExit}) (tid_of f0) cs
        (sq_run (bs @ [(FetchNextEntry, f0)]) s1)"
    and eof: "sq_good (FetchNextExit, f1)" "tid_of f1 = tid_of f0" "reg_ret f1 = Some 1"
      "ring_room f1"
    and after: "\<forall>h \<in> set ds. sq_good h \<and> \<not> reopens_cursor k h"
    and run: "t = sq_run (bs @ (FetchNextEntry, f0) # cs) s1"
  shows "sq_events (sq_step (FetchNextExit, f1) t) =
      sq_events t @ [request_event f1 (ktime o0) (prepared_statements t r)] \<and>
    cursor_events k (bs @ (FetchNextEntry, f0) # cs @ (FetchNextExit, f1) # ds) s1 =
      [request_event f1 (ktime o0) (prepared_statements t r)] \<and>
    (\<forall>hs1 h hs2. bs @ (FetchNextEntry, f0) # cs = hs1 @ h # hs2 \<longrightarrow>
      open_cursors (sq_step h (sq_run hs1 s1)) k =
        Some \<lparr>oc_open_ts_ns = ktime o0, oc_dsql_request_ptr = r\<rparr> \<and>
      (fst h = FetchNextExit \<and> fetch_in_progress (sq_run hs1 s1) (tid_of (snd h)) = Some k \<longrightarrow>
        sq_events (sq_step h (sq_run hs1 s1)) = sq_events (sq_run hs1 s1))) \<and>
    open_cursors (sq_step (FetchNextExit, f1) t) k = None \<and>
    open_cursors (sq_run ((FetchNextExit, f1) # ds) t) k = None"
proof -
  let ?run = "bs @ (FetchNextEntry, f0) # cs" and ?x = "(FetchNextExit, f1)"
  let ?ev = "request_event f1 (ktime o0) (prepared_statements t r)"
  have stored: "open_cursors s1 k = Some \<lparr>oc_open_ts_ns = ktime o0, oc_dsql_request_ptr = r\<rparr>"
    unfolding s1 by (rule cursor_open_stores) (use entered opened in auto)
  have cursor: "open_cursors t k = Some \<lparr>oc_open_ts_ns = ktime o0, oc_dsql_request_ptr = r\<rparr>"
    using sq_survives(7) [OF kept] stored by (simp add: run)
  have good: "sq_good (FetchNextEntry, f0)"
    using kept by (simp add: sq_undisturbed_append sq_undisturbed_Cons)
  have "fetch_in_progress (sq_run ((FetchNextEntry, f0) # cs) (sq_run bs s1)) (tid_of f1) =
      Some k"
    by (rule fetch_call_at_exit [OF good]) (use fetching eof opened(5) in simp_all)
  then have fetch: "fetch_in_progress t (tid_of f1) = Some k"
    by (simp add: run)
  have emits: "sq_events (sq_step ?x t) = sq_events t @ [?ev]"
    using fetch cursor eof by (simp add: sq_events_step)
  have closed: "open_cursors (sq_step ?x t) k = None"
    using fetch cursor eof by (simp add: open_cursors_step sq_good_def sq_kernel_ok_def lru_remove)
  have "cursor_events k (?run @ ?x # ds) s1 = cursor_events k ?run s1 @ cursor_events k (?x # ds) t"
    unfolding run by (rule cursor_events_append)
  then have "cursor_events k (?run @ ?x # ds) s1 = [?ev]"
    using rows_are_silent [OF kept] fetch emits closed_cursor_is_silent [OF closed after]
    by (simp only:) simp
  moreover have "open_cursors (sq_run (?x # ds) t) k = None"
    using closed_cursor_is_silent [OF closed after] by simp
  ultimately show ?thesis
    using emits closed undisturbed_split [OF kept] stored by simp
qed

theorem cursor_lifecycle_witness:
  "cursor_events 0xc0
     [(FetchNextEntry, sample_ctx 740 1400 [0xc0] None),
      (FetchNextExit, sample_ctx 740 1500 [] (Some 0)),
      (FetchNextEntry, sample_ctx 740 1600 [0xc0] None),
      (FetchNextExit, sample_ctx 740 1700 [] (Some 1)),
      (FetchNextEntry, sample_ctx 740 1800 [0xc0] None),
      (FetchNextExit, sample_ctx 740 1900 [] (Some 1))]
     (sq_run [(OpenCursorEntry, sample_ctx 740 1000 [0xd0] None),
       (OpenCursorExit, sample_ctx 740 1300 [] (Some 0xc0))] sq_init) =
   [request_event (sample_ctx 740 1700 [] (Some 1)) 1000 None]"
proof -
  let ?o0 = "sample_ctx 740 1000 [0xd0] None" and ?o1 = "sample_ctx 740 1300 [] (Some 0xc0)"
  let ?g0 = "sample_ctx 740 1400 [0xc0] None" and ?g1 = "sample_ctx 740 1500 [] (Some 0)"
  let ?f0 = "sample_ctx 740 1600 [0xc0] None" and ?f1 = "sample_ctx 740 1700 [] (Some 1)"
  let ?bs = "[(FetchNextEntry, ?g0), (FetchNextExit, ?g1)]"
  let ?ds = "[(FetchNextEntry, sample_ctx 740 1800 [0xc0] None),
    (FetchNextExit, sample_ctx 740 1900 [] (Some 1))]"
  let ?s1 = "sq_run ((OpenCursorEntry, ?o0) # [] @ [(OpenCursorExit, ?o1)]) sq_init"
  let ?t = "sq_run (?bs @ (FetchNextEntry, ?f0) # []) ?s1"
  have "cursor_events 0xc0 (?bs @ (FetchNextEntry, ?f0) # [] @ (FetchNextExit, ?f1) # ?ds) ?s1 =
      [request_event ?f1 (ktime ?o0) (prepared_statements ?t 0xd0)]"
    by (rule cursor_lifecycle [where r = "0xd0" and ?o0.0 = ?o0 and ?o1.0 = ?o1 and s = sq_init
        and as = "[]", THEN conjunct2, THEN conjunct1])
      (simp_all add: sq_undisturbed_Nil sq_undisturbed_Cons touches_cursor_def reopens_cursor_def)
  moreover have "prepared_statements ?t 0xd0 = None"
    by (simp add: prepared_statements_step)
  ultimately show ?thesis
    by (simp only: append.simps sample_ctx_simps)
qed

subsection \<open>Immediate execution\<close>

text \<open>C10: an immediate execution entered and left on one thread, with any hits of other threads in
  between, yields one event with prepare time 0, the call's duration and the captured text, and
  leaves nothing in flight.\<close>

theorem immediate_lifecycle:
  assumes entered: "sq_good (ImmediateEntry, i0)" "update_admits (with_sql_ops i0)"
      "captured i0 = Some w"
    and running: "sq_undisturbed (on_thread {ImmediateEntry, ImmediateExit}) (tid_of i0) hs
      (sq_step (ImmediateEntry, i0) s)"
    and left: "sq_good (ImmediateExit, i1)" "tid_of i1 = tid_of i0" "ring_room i1"
    and run: "t = sq_run ((ImmediateEntry, i0) # hs) s"
  shows "sq_events (sq_step (ImmediateExit, i1) t) = sq_events t @ [immediate_event i1 w] \<and>
    sqe_prepare_ns (immediate_event i1 w) = 0 \<and>
    sqe_execute_ns (immediate_event i1 w) = saturating_sub (ktime i1) (ktime i0) \<and>
    immediate_in_progress (sq_step (ImmediateExit, i1) t) (tid_of i1) = None"
proof -
  have "immediate_in_progress t (tid_of i1) = Some w"
    using entered running left(2) by (simp add: run sq_survives immediate_entry_stores)
  then show ?thesis
    using left captured_ts [OF entered(3)]
    by (simp add: sq_events_step immediate_in_progress_step immediate_event_def sq_good_def
        sq_kernel_ok_def hash_remove)
qed

theorem immediate_lifecycle_witness:
  "sq_events (sq_run [(ImmediateEntry, sample_prepare 740 1000),
      (ImmediateExit, sample_ctx 740 1900 [] None)] sq_init) =
   [immediate_event (sample_ctx 740 1900 [] None) (sample_capture 1000)]"
  using immediate_lifecycle [where hs = "[]" and s = sq_init and ?i0.0 = "sample_prepare 740 1000"
      and ?i1.0 = "sample_ctx 740 1900 [] None", OF _ _ captured_sample]
  by (simp add: sample_prepare_def sq_undisturbed_Nil sq_events_step)

subsection \<open>Nested executions\<close>

text \<open>C39: when an execute call is entered while another is in flight on the same thread, the inner
  entry overwrites the outer one: of the two calls only the inner exit emits, measured from the
  inner entry, and the outer exit finds nothing and is lost.\<close>

theorem nested_execute_loses_outer:
  assumes "sq_good (ExecuteEntry, x0)" "sq_good (ExecuteEntry, y0)" "sq_good (ExecuteExit, y1)"
    and "update_admits (execute_ops y0)" "reg_arg y0 2 = Some r" "r \<noteq> 0"
    and "tid_of y0 = tid_of x0" "tid_of y1 = tid_of x0" "tid_of x1 = tid_of x0"
    and "ring_room y1"
  shows "sq_events (sq_run [(ExecuteEntry, x0), (ExecuteEntry, y0), (ExecuteExit, y1),
      (ExecuteExit, x1)] s) =
    sq_events s @ [request_event y1 (ktime y0) (prepared_statements s r)]"
proof -
  let ?s1 = "sq_step (ExecuteEntry, x0) s"
  have inner: "execute_in_progress (sq_step (ExecuteEntry, y0) ?s1) (tid_of y1) =
      Some \<lparr>ee_ts_ns = ktime y0, ee_dsql_request_ptr = r\<rparr>"
    using execute_entry_stores [OF assms(2,4,5,6), of ?s1] assms(7,8) by simp
  have gone: "execute_in_progress
      (sq_step (ExecuteExit, y1) (sq_step (ExecuteEntry, y0) ?s1)) (tid_of x1) = None"
    using inner assms(3,8,9)
    by (simp add: execute_in_progress_step [of ExecuteExit] sq_good_def sq_kernel_ok_def
        hash_remove)
  have "prepared_statements (sq_step (ExecuteEntry, y0) ?s1) r = prepared_statements s r"
    by (simp add: prepared_statements_step)
  then show ?thesis
    using inner gone assms(10) by (simp add: sq_events_step)
qed

theorem nested_execute_loses_outer_witness:
  "sq_events (sq_run
     [(ExecuteEntry, sample_ctx 740 1000 [0, 0, 0xd0] None),
      (ExecuteEntry, sample_ctx 740 1100 [0, 0, 0xd8] None),
      (ExecuteExit, sample_ctx 740 1200 [] None),
      (ExecuteExit, sample_ctx 740 5000 [] None)] sq_init) =
   [request_event (sample_ctx 740 1200 [] None) 1100 None]"
  using nested_execute_loses_outer [of "sample_ctx 740 1000 [0, 0, 0xd0] None"
      "sample_ctx 740 1100 [0, 0, 0xd8] None" "sample_ctx 740 1200 [] None" "0xd8"
      "sample_ctx 740 5000 [] None" sq_init]
  by simp

subsection \<open>Witnesses of the safety theorems\<close>

lemma sample_user_str_ok [simp]: "user_str_ok (sample_ctx t now args ret)"
  by (simp add: user_str_ok_def sample_ctx_def) (auto simp: copy_cstr_def split: if_splits)

definition sample_immediate_run :: "sq_hit list" where
  "sample_immediate_run =
     [(ImmediateEntry, sample_prepare 740 1000), (ImmediateExit, sample_ctx 740 1900 [] None)]"

lemma sample_immediate_run_events:
  "sq_events (sq_run sample_immediate_run sq_init) =
     [immediate_event (sample_ctx 740 1900 [] None) (sample_capture 1000)]"
  by (simp add: sample_immediate_run_def sq_events_step immediate_in_progress_step captured_sample)
    (simp add: sample_prepare_def)

theorem event_provenance_witness:
  "sq_events (sq_run sample_immediate_run sq_init) \<noteq> [] \<and>
   from_capture sample_immediate_run (hd (sq_events (sq_run sample_immediate_run sq_init)))"
proof -
  let ?ev = "hd (sq_events (sq_run sample_immediate_run sq_init))"
  have "unknown_event ?ev \<or> from_capture sample_immediate_run ?ev"
    by (rule event_provenance)
      (simp add: sample_immediate_run_def sample_prepare_def, simp add: sample_immediate_run_events)
  moreover have "\<not> unknown_event ?ev"
    by (simp add: sample_immediate_run_events unknown_event_def immediate_event_def
        sample_capture_def)
  ultimately show ?thesis
    by (simp add: sample_immediate_run_events)
qed

text \<open>A context whose statement text is 600 bytes long.\<close>

definition long_ctx :: "u64 \<Rightarrow> sq_hit_ctx" where
  "long_ctx len = (sample_ctx 740 1000 [1, 0xa000, 0, len, 0xb000] None)
     \<lparr>read_user_str := (\<lambda>p b. copy_cstr (replicate 600 65) b)\<rparr>"

lemma long_ctx_simps:
  "copies_cstr (long_ctx len) p (replicate 600 65)"
  "scratch_avail (long_ctx len)" "with_sql_ops (long_ctx len) = roomy_ops"
  "reg_arg (long_ctx len) n = reg_arg (sample_ctx 740 1000 [1, 0xa000, 0, len, 0xb000] None) n"
  by (simp_all add: long_ctx_def copies_cstr_def sample_ctx_def)

theorem explicit_length_truncation_witness:
  "\<exists>w. snd (snd (try_capture_sql_entry (long_ctx 600) (with_sql_scratch sq_init 0) Map.empty)) =
      [tid_of (long_ctx 600) \<mapsto> w] \<and> ws_sql_truncated w = 1 \<and> unat (ws_sql_len w) = 600"
  using explicit_length_truncation [of "long_ctx 600" "0xb000" "replicate 600 65" "0xa000"
      "with_sql_scratch sq_init 0" Map.empty]
  by (auto simp: long_ctx_simps)

theorem zero_length_never_flagged_witness:
  "\<exists>w. snd (snd (try_capture_sql_entry (long_ctx 0) (with_sql_scratch sq_init 0) Map.empty)) =
      [tid_of (long_ctx 0) \<mapsto> w] \<and> ws_sql_truncated w = 0 \<and> unat (ws_sql_len w) = 511"
  using zero_length_never_flagged [of "long_ctx 0" "0xb000" "replicate 600 65" "0xa000"
      "with_sql_scratch sq_init 0" Map.empty]
  by (auto simp: long_ctx_simps)

end
