(* ===== verification/Rust_Str.thy ===== *)
theory Rust_Str
  imports Prelude
begin

section \<open>The string functions of Rust's standard library that the tools use\<close>

text \<open>
  UTF-8 decoding (\<open>str::from_utf8\<close>, \<open>String::from_utf8_lossy\<close>), splitting (\<open>lines\<close>,
  \<open>splitn\<close>, \<open>split(..).next()\<close>, \<open>split_whitespace().next()\<close>) and integer parsing
  (\<open>from_str_radix\<close>, \<open>parse\<close>), as the standard library documents them. A string is the list of
  its bytes. Shown: the lossy decoder always yields valid UTF-8 and keeps valid text, and parsing
  a printed number gives it back.
\<close>

subsection \<open>UTF-8\<close>

definition utf8_cont :: "u8 \<Rightarrow> bool" where
  "utf8_cont b \<longleftrightarrow> 0x80 \<le> b \<and> b \<le> 0xBF"

text \<open>The byte at an index, 0 past the end.\<close>

definition byte_or_zero :: "u8 list \<Rightarrow> nat \<Rightarrow> u8" where
  "byte_or_zero bs i = (if i < length bs then bs ! i else 0)"

text \<open>The second bytes that may follow a leading byte of a three- or four-byte character.\<close>

definition utf8_second :: "u8 \<Rightarrow> u8 \<Rightarrow> bool" where
  "utf8_second b c \<longleftrightarrow>
     (if b = 0xE0 then 0xA0 \<le> c \<and> c \<le> 0xBF
      else if b = 0xED then 0x80 \<le> c \<and> c \<le> 0x9F
      else if b = 0xF0 then 0x90 \<le> c \<and> c \<le> 0xBF
      else if b = 0xF4 then 0x80 \<le> c \<and> c \<le> 0x8F
      else utf8_cont c)"

text \<open>
  The leading bytes of one- to four-byte characters, and the length of the character, or of the
  maximal invalid sequence, that the leading byte and the next three begin, with whether it is a
  character.
\<close>

definition utf8_width :: "u8 \<Rightarrow> nat" where
  "utf8_width b =
     (if b < 0x80 then 1 else if 0xC2 \<le> b \<and> b \<le> 0xDF then 2
      else if 0xE0 \<le> b \<and> b \<le> 0xEF then 3 else if 0xF0 \<le> b \<and> b \<le> 0xF4 then 4 else 0)"

definition utf8_scan :: "u8 \<Rightarrow> u8 \<Rightarrow> u8 \<Rightarrow> u8 \<Rightarrow> nat \<times> bool" where
  "utf8_scan b c1 c2 c3 =
     (if utf8_width b = 1 then (1, True)
      else if utf8_width b = 2 \<and> utf8_cont c1 then (2, True)
      else if utf8_width b \<in> {3, 4} \<and> utf8_second b c1 then
        (if \<not> utf8_cont c2 then (2, False)
         else if utf8_width b = 3 then (3, True)
         else if utf8_cont c3 then (4, True) else (3, False))
      else (1, False))"

definition utf8_char :: "u8 list \<Rightarrow> nat \<times> bool" where
  "utf8_char bs =
     utf8_scan (byte_or_zero bs 0) (byte_or_zero bs 1) (byte_or_zero bs 2) (byte_or_zero bs 3)"

lemma byte_or_zero_0 [simp]: "byte_or_zero [] i = 0"
  by (simp add: byte_or_zero_def)

lemma utf8_cont_0 [simp]: "\<not> utf8_cont 0"
  by (simp add: utf8_cont_def)

lemma utf8_second_0 [simp]: "\<not> utf8_second b 0"
  by (simp add: utf8_second_def)

lemma utf8_scan_bytes:
  "snd (utf8_scan b c1 c2 c3) \<Longrightarrow>
     (2 \<le> fst (utf8_scan b c1 c2 c3) \<longrightarrow> c1 \<noteq> 0) \<and> (3 \<le> fst (utf8_scan b c1 c2 c3) \<longrightarrow> c2 \<noteq> 0) \<and>
     (4 \<le> fst (utf8_scan b c1 c2 c3) \<longrightarrow> c3 \<noteq> 0) \<and> fst (utf8_scan b c1 c2 c3) \<le> 4"
  by (auto simp: utf8_scan_def split: if_splits)

lemma utf8_scan_same:
  "snd (utf8_scan b c1 c2 c3) \<Longrightarrow> 2 \<le> fst (utf8_scan b c1 c2 c3) \<longrightarrow> d1 = c1 \<Longrightarrow>
     3 \<le> fst (utf8_scan b c1 c2 c3) \<longrightarrow> d2 = c2 \<Longrightarrow> 4 \<le> fst (utf8_scan b c1 c2 c3) \<longrightarrow> d3 = c3 \<Longrightarrow>
     utf8_scan b d1 d2 d3 = utf8_scan b c1 c2 c3"
  by (auto simp: utf8_scan_def split: if_splits)

lemma utf8_char_progress [simp]: "0 < fst (utf8_char bs)"
  by (simp add: utf8_char_def utf8_scan_def)

function valid_utf8 :: "u8 list \<Rightarrow> bool" where
  "valid_utf8 bs =
     (if bs = [] then True
      else snd (utf8_char bs) \<and> valid_utf8 (drop (fst (utf8_char bs)) bs))"
  by auto
termination
  by (relation "measure length") (auto intro: diff_less)

function from_utf8_lossy :: "u8 list \<Rightarrow> u8 list" where
  "from_utf8_lossy bs =
     (if bs = [] then []
      else (if snd (utf8_char bs) then take (fst (utf8_char bs)) bs else [0xEF, 0xBF, 0xBD]) @
           from_utf8_lossy (drop (fst (utf8_char bs)) bs))"
  by auto
termination
  by (relation "measure length") (auto intro: diff_less)

declare valid_utf8.simps [simp del] from_utf8_lossy.simps [simp del]

lemma utf8_Nil [simp]: "valid_utf8 []" "from_utf8_lossy [] = []"
  by (simp_all add: valid_utf8.simps [of "[]"] from_utf8_lossy.simps [of "[]"])

lemma valid_utf8_step:
  "bs \<noteq> [] \<Longrightarrow> utf8_char bs = (n, ok) \<Longrightarrow> valid_utf8 bs \<longleftrightarrow> ok \<and> valid_utf8 (drop n bs)"
  by (simp add: valid_utf8.simps [of bs])

lemma lossy_step:
  "bs \<noteq> [] \<Longrightarrow> utf8_char bs = (n, ok) \<Longrightarrow>
     from_utf8_lossy bs =
       (if ok then take n bs else [0xEF, 0xBF, 0xBD]) @ from_utf8_lossy (drop n bs)"
  by (simp add: from_utf8_lossy.simps [of bs])

lemma byte_or_zero_take:
  "i < n \<Longrightarrow> n \<le> length bs \<Longrightarrow> byte_or_zero (take n bs @ rest) i = byte_or_zero bs i"
  by (simp add: byte_or_zero_def nth_append)

lemma byte_nonzero: "byte_or_zero bs i \<noteq> 0 \<Longrightarrow> i < length bs"
  by (auto simp: byte_or_zero_def split: if_splits)

lemma utf8_char_within:
  assumes "snd (utf8_char bs)" "bs \<noteq> []"
  shows "fst (utf8_char bs) \<le> length bs"
proof -
  let ?n = "fst (utf8_char bs)"
  have "2 \<le> ?n \<longrightarrow> 1 < length bs" "3 \<le> ?n \<longrightarrow> 2 < length bs" "4 \<le> ?n \<longrightarrow> 3 < length bs" "?n \<le> 4"
    using utf8_scan_bytes assms(1) byte_nonzero unfolding utf8_char_def by blast+
  moreover have "0 < length bs"
    using assms(2) by simp
  ultimately show ?thesis
    by linarith
qed

lemma utf8_char_prefix:
  assumes "snd (utf8_char bs)" "bs \<noteq> []"
  shows "utf8_char (take (fst (utf8_char bs)) bs @ rest) = utf8_char bs"
proof -
  let ?n = "fst (utf8_char bs)" and ?bs = "take (fst (utf8_char bs)) bs @ rest"
  have same: "i < ?n \<Longrightarrow> byte_or_zero ?bs i = byte_or_zero bs i" for i
    using byte_or_zero_take utf8_char_within [OF assms] by blast
  have "2 \<le> ?n \<longrightarrow> byte_or_zero ?bs 1 = byte_or_zero bs 1"
    "3 \<le> ?n \<longrightarrow> byte_or_zero ?bs 2 = byte_or_zero bs 2"
    "4 \<le> ?n \<longrightarrow> byte_or_zero ?bs 3 = byte_or_zero bs 3"
    using same [of 1] same [of 2] same [of 3] by simp_all
  then have "utf8_scan (byte_or_zero bs 0) (byte_or_zero ?bs 1) (byte_or_zero ?bs 2)
      (byte_or_zero ?bs 3) = utf8_char bs"
    using assms(1) unfolding utf8_char_def [of bs] by (intro utf8_scan_same)
  then show ?thesis
    using same [OF utf8_char_progress] by (simp only: utf8_char_def [of ?bs])
qed

lemma utf8_replacement: "utf8_char ([0xEF, 0xBF, 0xBD] @ rest) = (3, True)"
  by (simp add: utf8_char_def utf8_scan_def utf8_width_def byte_or_zero_def utf8_second_def
      utf8_cont_def)

lemma lossy_valid: "valid_utf8 (from_utf8_lossy bs)"
proof (induction bs rule: from_utf8_lossy.induct)
  case (1 bs)
  let ?rest = "from_utf8_lossy (drop (fst (utf8_char bs)) bs)"
  obtain n ok where char: "utf8_char bs = (n, ok)" by fastforce
  show ?case
  proof (cases "bs = []")
    case False
    note IH = "1.IH" [OF False]
    show ?thesis
    proof (cases ok)
      case True
      then have "utf8_char (take n bs @ ?rest) = (n, True)" "length (take n bs) = n" "0 < n"
        using utf8_char_prefix [OF _ False, of ?rest] utf8_char_within [OF _ False]
          utf8_char_progress [of bs] char by simp_all
      then have "valid_utf8 (take n bs @ ?rest)"
        using valid_utf8_step [of "take n bs @ ?rest" n True] IH False by simp
      then show ?thesis
        using lossy_step [OF False char] True char by simp
    next
      case bad: False
      then have "valid_utf8 ([0xEF, 0xBF, 0xBD] @ ?rest)"
        using valid_utf8_step [OF _ utf8_replacement [of ?rest]] IH by simp
      then show ?thesis
        using lossy_step [OF False char] bad char by simp
    qed
  qed simp
qed

lemma lossy_keeps_valid: "valid_utf8 bs \<Longrightarrow> from_utf8_lossy bs = bs"
proof (induction bs rule: from_utf8_lossy.induct)
  case (1 bs)
  obtain n ok where char: "utf8_char bs = (n, ok)" by fastforce
  show ?case
    using 1 char by (cases "bs = []") (simp_all add: lossy_step valid_utf8_step)
qed

lemma ascii_valid: "\<forall>b \<in> set bs. b < 0x80 \<Longrightarrow> valid_utf8 bs"
proof (induction bs)
  case (Cons b bs)
  then have "utf8_char (b # bs) = (1, True)"
    by (simp add: utf8_char_def utf8_scan_def utf8_width_def byte_or_zero_def)
  then show ?case
    using Cons valid_utf8_step [of "b # bs" 1 True] by simp
qed simp

text \<open>Bytes as the characters of a string.\<close>

definition string_of_bytes :: "u8 list \<Rightarrow> string" where
  "string_of_bytes bs = map (\<lambda>b. char_of (unat b)) bs"

definition bytes_of_string :: "string \<Rightarrow> u8 list" where
  "bytes_of_string s = map (\<lambda>c. of_nat (of_char c)) s"

lemma string_of_bytes_of_string [simp]: "string_of_bytes (bytes_of_string s) = s"
  by (induction s)
    (auto simp: string_of_bytes_def bytes_of_string_def unat_of_nat)

lemma string_of_bytes_empty [simp]: "string_of_bytes bs = [] \<longleftrightarrow> bs = []"
  by (simp add: string_of_bytes_def)

subsection \<open>Splitting\<close>

text \<open>\<open>split(c).next()\<close>: the text up to the first \<open>c\<close>.\<close>

definition before_char :: "char \<Rightarrow> string \<Rightarrow> string" where
  "before_char c s = takeWhile (\<lambda>x. x \<noteq> c) s"

text \<open>\<open>splitn(n, c)\<close>: at most \<open>n\<close> parts, the last one holds the rest.\<close>

fun splitn :: "nat \<Rightarrow> char \<Rightarrow> string \<Rightarrow> string list" where
  "splitn 0 c s = []"
| "splitn (Suc 0) c s = [s]"
| "splitn (Suc (Suc n)) c s =
     (if c \<in> set s then before_char c s # splitn (Suc n) c (tl (dropWhile (\<lambda>x. x \<noteq> c) s))
      else [s])"

lemma before_char_append [simp]:
  "c \<notin> set a \<Longrightarrow> before_char c (a @ c # b) = a"
  "c \<notin> set a \<Longrightarrow> before_char c a = a"
  by (auto simp: before_char_def takeWhile_eq_all_conv)
    (metis (mono_tags, lifting) append_Nil2 takeWhile.simps(2) takeWhile_append2)

lemma splitn_append:
  "c \<notin> set a \<Longrightarrow> splitn (Suc (Suc n)) c (a @ c # b) = a # splitn (Suc n) c b"
  by (auto simp: dropWhile_append)

text \<open>
  \<open>lines\<close>: the pieces between line feeds, a carriage return before a line feed dropped, no
  empty piece after a final line feed.
\<close>

definition strip_cr :: "string \<Rightarrow> string" where
  "strip_cr s = (if s \<noteq> [] \<and> last s = CHR 0x0D then butlast s else s)"

function lines_of :: "string \<Rightarrow> string list" where
  "lines_of s =
     (if s = [] then []
      else if CHR 0x0A \<in> set s
           then strip_cr (before_char (CHR 0x0A) s) #
                lines_of (tl (dropWhile (\<lambda>x. x \<noteq> CHR 0x0A) s))
           else [s])"
  by auto
termination
proof (relation "measure length", simp)
  fix s :: string
  assume "s \<noteq> []"
  then show "(tl (dropWhile (\<lambda>x. x \<noteq> CHR 0x0A) s), s) \<in> measure length"
    using length_dropWhile_le [of "\<lambda>x. x \<noteq> CHR 0x0A" s]
    by (cases s) (auto simp: le_imp_less_Suc split: if_splits)
qed

declare lines_of.simps [simp del]

lemma lines_of_Nil [simp]: "lines_of [] = []"
  by (simp add: lines_of.simps)

lemma lines_of_append:
  assumes "CHR 0x0A \<notin> set l"
  shows "lines_of (l @ CHR 0x0A # rest) = strip_cr l # lines_of rest"
  using assms by (simp add: lines_of.simps [of "l @ CHR 0x0A # rest"] dropWhile_append)

lemma strip_cr_noop: "CHR 0x0D \<notin> set s \<Longrightarrow> strip_cr s = s"
  by (auto simp: strip_cr_def dest: last_in_set)

text \<open>
  \<open>split_whitespace().next()\<close>: skip Unicode white space, take up to the next white space.
  \<open>white_space_at\<close> is the length of the white-space character that starts a UTF-8 text, 0 if it
  starts with another character.
\<close>

definition white_space_at :: "u8 list \<Rightarrow> nat" where
  "white_space_at bs =
     (let b = byte_or_zero bs 0; c = byte_or_zero bs 1; d = byte_or_zero bs 2
      in if 9 \<le> b \<and> b \<le> 13 \<or> b = 32 then 1
         else if b = 0xC2 \<and> (c = 0x85 \<or> c = 0xA0) then 2
         else if b = 0xE1 \<and> c = 0x9A \<and> d = 0x80 then 3
         else if b = 0xE2 \<and> c = 0x80 \<and> (0x80 \<le> d \<and> d \<le> 0x8A \<or> d = 0xA8 \<or> d = 0xA9 \<or> d = 0xAF)
           then 3
         else if b = 0xE2 \<and> c = 0x81 \<and> d = 0x9F then 3
         else if b = 0xE3 \<and> c = 0x80 \<and> d = 0x80 then 3
         else 0)"

function trim_start :: "u8 list \<Rightarrow> u8 list" where
  "trim_start bs =
     (if bs \<noteq> [] \<and> 0 < white_space_at bs then trim_start (drop (white_space_at bs) bs) else bs)"
  by auto
termination
  by (relation "measure length") (auto intro: diff_less)

fun until_white_space :: "u8 list \<Rightarrow> u8 list" where
  "until_white_space [] = []"
| "until_white_space (b # bs) =
     (if 0 < white_space_at (b # bs) then [] else b # until_white_space bs)"

declare trim_start.simps [simp del]

definition first_word :: "u8 list \<Rightarrow> u8 list option" where
  "first_word bs =
     (case trim_start bs of [] \<Rightarrow> None | b # rest \<Rightarrow> Some (until_white_space (b # rest)))"

subsection \<open>Parsing numbers\<close>

text \<open>
  \<open>from_str_radix\<close> of an unsigned type, and \<open>parse\<close> (radix 10): an optional plus sign, at least one
  digit, no overflow of the type's \<open>bits\<close>.
\<close>

definition digit_val :: "nat \<Rightarrow> char \<Rightarrow> nat option" where
  "digit_val r c =
     (let n = of_char c :: nat;
          d = (if 48 \<le> n \<and> n \<le> 57 then n - 48
               else if 97 \<le> n \<and> n \<le> 122 then n - 87
               else if 65 \<le> n \<and> n \<le> 90 then n - 55 else r)
      in if d < r then Some d else None)"

fun digits_val :: "nat \<Rightarrow> nat \<Rightarrow> nat \<Rightarrow> string \<Rightarrow> nat option" where
  "digits_val bits r acc [] = Some acc"
| "digits_val bits r acc (c # cs) =
     (case digit_val r c of None \<Rightarrow> None
      | Some d \<Rightarrow> if acc * r + d < 2 ^ bits then digits_val bits r (acc * r + d) cs else None)"

definition from_str_radix :: "nat \<Rightarrow> nat \<Rightarrow> string \<Rightarrow> nat option" where
  "from_str_radix bits r s =
     (let digits = (if 2 \<le> length s \<and> hd s = CHR ''+'' then tl s else s)
      in if digits = [] \<or> s = ''+'' then None else digits_val bits r 0 digits)"

lemma digit_val_char: "d < r \<Longrightarrow> r \<le> 16 \<Longrightarrow> digit_val r (digit_char d) = Some d"
  by (auto simp: digit_val_def digit_char_def Let_def)

lemma foldl_radix_mono: "acc \<le> foldl (\<lambda>acc d. acc * r + d) acc ds" if "0 < r" for acc r :: nat
proof (induction ds arbitrary: acc)
  case (Cons d ds)
  have "acc \<le> acc * r + d"
    using that by (cases r) auto
  also have "\<dots> \<le> foldl (\<lambda>acc d. acc * r + d) (acc * r + d) ds"
    by (rule Cons.IH)
  finally show ?case by simp
qed simp

lemma digits_val_chars:
  "\<forall>d \<in> set ds. d < r \<Longrightarrow> 0 < r \<Longrightarrow> r \<le> 16 \<Longrightarrow>
     foldl (\<lambda>acc d. acc * r + d) acc ds < 2 ^ bits \<Longrightarrow>
     digits_val bits r acc (map digit_char ds) = Some (foldl (\<lambda>acc d. acc * r + d) acc ds)"
proof (induction ds arbitrary: acc)
  case (Cons d ds)
  have "acc * r + d < 2 ^ bits"
    using foldl_radix_mono [of r "acc * r + d" ds] Cons.prems(2,4) by simp
  then show ?case
    using Cons by (simp add: digit_val_char)
qed simp

lemma digit_char_sign: "d < 16 \<Longrightarrow> digit_char d \<noteq> CHR ''+''"
proof -
  assume "d < 16"
  then have "d \<in> set [0..<16]" by simp
  moreover have "\<forall>d \<in> set [0..<16]. digit_char d \<noteq> CHR ''+''"
    by code_simp
  ultimately show ?thesis by blast
qed

text \<open>Leading zeros do not change the value that is read.\<close>

lemma parse_printed:
  assumes "2 \<le> r" "r \<le> 16" "n < 2 ^ bits"
  shows "from_str_radix bits r (map digit_char (replicate k 0 @ radix_digits r n)) = Some n"
proof -
  let ?ds = "replicate k 0 @ radix_digits r n"
  have digits: "\<forall>d \<in> set ?ds. d < r"
    using radix_digits_bounded assms(1) by auto
  moreover have ne: "?ds \<noteq> []"
    by simp
  ultimately have "hd ?ds < 16"
    using assms(2) by (meson hd_in_set less_le_trans)
  then have "hd (map digit_char ?ds) \<noteq> CHR ''+''"
    using digit_char_sign [of "hd ?ds"] by (simp only: hd_map [OF ne] not_False_eq_True)
  moreover from this have "map digit_char ?ds \<noteq> ''+''"
    by (metis list.sel(1))
  moreover have zeros: "foldl (\<lambda>acc d. acc * r + d) 0 (replicate k 0) = (0 :: nat)"
    by (induction k) simp_all
  then have "foldl (\<lambda>acc d. acc * r + d) 0 ?ds = n"
    using radix_value_digits [of r n] by (simp add: radix_value_def)
  then have "digits_val bits r 0 (map digit_char ?ds) = Some n"
    using digits_val_chars [of ?ds r 0 bits] digits assms by simp
  ultimately show ?thesis
    using ne by (simp only: from_str_radix_def Let_def map_is_Nil_conv simp_thms if_False)
qed

lemma parse_decimal: "n < 2 ^ bits \<Longrightarrow> from_str_radix bits 10 (decimal n) = Some n"
  using parse_printed [of 10 n bits 0] by (simp add: decimal_def)

lemma parse_lower_hex: "n < 2 ^ bits \<Longrightarrow> from_str_radix bits 16 (lower_hex n) = Some n"
  using parse_printed [of 16 n bits 0] by (simp add: lower_hex_def)

lemma parse_padded_hex:
  "n < 2 ^ bits \<Longrightarrow> from_str_radix bits 16 (pad_zero w (lower_hex n)) = Some n"
proof -
  have "digit_char 0 = CHR ''0''"
    by code_simp
  then show "n < 2 ^ bits \<Longrightarrow> from_str_radix bits 16 (pad_zero w (lower_hex n)) = Some n"
    using parse_printed [of 16 n bits "w - length (lower_hex n)"]
    by (simp add: pad_zero_def lower_hex_def)
qed

lemma digits_val_bounded: "digits_val bits r acc s = Some n \<Longrightarrow> acc < 2 ^ bits \<Longrightarrow> n < 2 ^ bits"
  by (induction s arbitrary: acc) (auto split: option.splits if_splits)

lemma from_str_radix_bounded: "from_str_radix bits r s = Some n \<Longrightarrow> n < 2 ^ bits"
  by (auto simp: from_str_radix_def Let_def split: if_splits dest: digits_val_bounded)

end
