(* ===== verification/Rust_F64.thy ===== *)
theory Rust_F64
  imports Prelude Complex_Main
begin

section \<open>Double-precision arithmetic and fixed-point printing\<close>

text \<open>
  The tools convert nanosecond and byte counts to \<open>f64\<close> for display. A non-negative finite double
  is modelled by the exact fraction it denotes, a pair of natural numbers \<open>(n, d)\<close>, and every
  operation rounds its exact result to 53 significant bits, ties to even, as IEEE 754 does. The
  exponent range is not bounded: the values the tools form lie between \<open>1e-9\<close> and \<open>2 ^ 128\<close> or
  are 0, far inside the range of a double. \<open>fixed k x\<close> is the digits that \<open>{:.k}\<close> prints, the
  exact value rounded to \<open>k\<close> decimals, ties to even. Shown: rounding keeps integers below
  \<open>2 ^ 53\<close>, its relative error is at most \<open>2 ^ -53\<close>, and a printed value is off by at most half
  a unit in its last place.
\<close>

type_synonym ratio = "nat \<times> nat"

definition ratio_val :: "ratio \<Rightarrow> real" where
  "ratio_val x = real (fst x) / real (snd x)"

fun bit_length :: "nat \<Rightarrow> nat" where
  "bit_length n = (if n = 0 then 0 else Suc (bit_length (n div 2)))"

declare bit_length.simps [simp del]

text \<open>The fraction \<open>n / d\<close> rounded to an integer, ties to even.\<close>

definition half_even :: "nat \<Rightarrow> nat \<Rightarrow> nat" where
  "half_even n d =
     (let q = n div d; r = n mod d
      in if 2 * r < d \<or> 2 * r = d \<and> even q then q else Suc q)"

text \<open>
  Rounding to 53 bits: with \<open>bit_length n - bit_length d = e\<close>, \<open>n / d\<close> lies between
  \<open>2 ^ (e - 1)\<close> and \<open>2 ^ (e + 1)\<close>; scale it to an integer part of 53 bits and round.
\<close>

definition scaled :: "ratio \<Rightarrow> int \<Rightarrow> ratio" where
  "scaled x k = (if 0 \<le> k then (fst x * 2 ^ nat k, snd x) else (fst x, snd x * 2 ^ nat (- k)))"

definition unscaled :: "nat \<Rightarrow> int \<Rightarrow> ratio" where
  "unscaled m k = (if 0 \<le> k then (m, 2 ^ nat k) else (m * 2 ^ nat (- k), 1))"

definition f64_round :: "ratio \<Rightarrow> ratio" where
  "f64_round x =
     (if fst x = 0 then (0, 1)
      else let k = 53 - (int (bit_length (fst x)) - int (bit_length (snd x)));
               y = scaled x k;
               k = (if fst y div snd y < 2 ^ 53 then k else k - 1);
               y = scaled x k
           in unscaled (half_even (fst y) (snd y)) k)"

definition f64_of_nat :: "nat \<Rightarrow> ratio" where
  "f64_of_nat n = f64_round (n, 1)"

definition f64_add :: "ratio \<Rightarrow> ratio \<Rightarrow> ratio" where
  "f64_add x y = f64_round (fst x * snd y + fst y * snd x, snd x * snd y)"

definition f64_mul :: "ratio \<Rightarrow> ratio \<Rightarrow> ratio" where
  "f64_mul x y = f64_round (fst x * fst y, snd x * snd y)"

definition f64_div :: "ratio \<Rightarrow> ratio \<Rightarrow> ratio" where
  "f64_div x y = f64_round (fst x * snd y, snd x * fst y)"

definition f64_ge :: "ratio \<Rightarrow> nat \<Rightarrow> bool" where
  "f64_ge x n \<longleftrightarrow> n * snd x \<le> fst x"

text \<open>\<open>as u64\<close>: truncation, saturating.\<close>

definition f64_as_u64 :: "ratio \<Rightarrow> u64" where
  "f64_as_u64 x = of_nat (min (fst x div snd x) (2 ^ 64 - 1))"

text \<open>\<open>{:.k}\<close>.\<close>

definition last_place :: "nat \<Rightarrow> ratio \<Rightarrow> nat" where
  "last_place k x = half_even (fst x * 10 ^ k) (snd x)"

definition fixed :: "nat \<Rightarrow> ratio \<Rightarrow> string" where
  "fixed k x =
     (let v = last_place k x
      in if k = 0 then decimal v
         else decimal (v div 10 ^ k) @ ''.'' @ pad_zero k (decimal (v mod 10 ^ k)))"

subsection \<open>Rounding to an integer\<close>

lemma half_even_exact [simp]: "0 < d \<Longrightarrow> half_even (n * d) d = n"
  by (simp add: half_even_def)

lemma half_even_error:
  assumes "0 < d"
  shows "\<bar>real (half_even n d) - real n / real d\<bar> \<le> 1 / 2"
proof -
  let ?q = "n div d" and ?r = "n mod d"
  have "real n = real ?q * real d + real ?r"
    by (metis div_mult_mod_eq of_nat_add of_nat_mult)
  then have split: "real n / real d = real ?q + real ?r / real d"
    using assms by (simp add: field_simps)
  have "?r < d"
    using assms by simp
  then have "0 \<le> real ?r / real d" "real ?r / real d < 1"
    using assms by simp_all
  moreover have "real ?r / real d \<le> 1 / 2" if "2 * ?r \<le> d"
    using that assms by (simp add: field_simps)
  moreover have "1 / 2 \<le> real ?r / real d" if "d \<le> 2 * ?r"
  proof -
    have "real d \<le> real (2 * ?r)"
      using that by (simp only: of_nat_le_iff)
    then show ?thesis
      using assms by (simp add: field_simps)
  qed
  ultimately show ?thesis
    unfolding half_even_def Let_def split by (auto simp: abs_le_iff not_less)
qed

subsection \<open>Rounding to a double\<close>

lemma bit_length_bounds:
  "0 < n \<Longrightarrow> 2 ^ (bit_length n - 1) \<le> n \<and> n < 2 ^ bit_length n \<and> 0 < bit_length n"
proof (induction n rule: bit_length.induct)
  case (1 n)
  show ?case
  proof (cases "n = 1")
    case True
    then show ?thesis
      by (simp add: bit_length.simps [of "Suc 0"] bit_length.simps [of 0])
  next
    case False
    then have "0 < n div 2"
      using "1.prems" by simp
    then have IH: "2 ^ (bit_length (n div 2) - 1) \<le> n div 2" "n div 2 < 2 ^ bit_length (n div 2)"
      "0 < bit_length (n div 2)"
      using "1.IH" "1.prems" by simp_all
    moreover have "bit_length n = Suc (bit_length (n div 2))"
      using "1.prems" by (subst bit_length.simps) simp
    moreover from IH(3) obtain m where "bit_length (n div 2) = Suc m"
      using gr0_implies_Suc by blast
    ultimately show ?thesis
      by auto
  qed
qed

lemma scaled_val:
  "ratio_val (scaled x k) = ratio_val x * 2 powr real_of_int k"
  by (simp add: ratio_val_def scaled_def powr_real_of_int field_simps)

lemma unscaled_val: "ratio_val (unscaled m k) = real m * 2 powr real_of_int (- k)"
proof (cases "0 \<le> k")
  case True
  then show ?thesis
    by (simp add: ratio_val_def unscaled_def powr_minus powr_real_of_int divide_inverse)
next
  case False
  then have "2 powr real_of_int (- k) = 2 ^ nat (- k)"
    using powr_real_of_int [of 2 "- k"] by simp
  then show ?thesis
    using False by (simp add: ratio_val_def unscaled_def)
qed

lemma scaled_pos: "0 < snd x \<Longrightarrow> 0 < snd (scaled x k)"
  by (simp add: scaled_def)

lemma two_powr_nat: "2 powr real m = 2 ^ m"
  by (simp add: powr_realpow)

lemma bit_length_ratio:
  assumes "0 < fst x" "0 < snd x"
  shows "2 powr (real (bit_length (fst x)) - real (bit_length (snd x)) - 1) \<le> ratio_val x"
proof -
  let ?a = "bit_length (fst x)" and ?b = "bit_length (snd x)"
  have "2 powr (real ?a - 1) \<le> real (fst x)"
  proof -
    have "real (2 ^ (?a - 1)) \<le> real (fst x)"
      using bit_length_bounds [OF assms(1)] by (simp only: of_nat_le_iff)
    moreover have "real ?a - 1 = real (?a - 1)"
      using bit_length_bounds [OF assms(1)] by simp
    ultimately show ?thesis
      by (simp only: two_powr_nat of_nat_power of_nat_numeral)
  qed
  moreover have "real (snd x) \<le> 2 powr real ?b"
  proof -
    have "real (snd x) \<le> real (2 ^ ?b)"
      using bit_length_bounds [OF assms(2)] by (simp only: of_nat_le_iff less_imp_le)
    then show ?thesis
      by (simp add: two_powr_nat)
  qed
  ultimately have "2 powr (real ?a - 1) / 2 powr real ?b \<le> real (fst x) / real (snd x)"
    using assms(2) by (intro frac_le) simp_all
  then show ?thesis
    by (simp add: ratio_val_def algebra_simps flip: powr_diff)
qed

text \<open>The exponent that \<open>f64_round\<close> settles on leaves at least 53 bits in the integer part.\<close>

lemma f64_round_form:
  assumes "0 < fst x" "0 < snd x"
  obtains k where "2 ^ 52 \<le> ratio_val (scaled x k)"
    "f64_round x = unscaled (half_even (fst (scaled x k)) (snd (scaled x k))) k"
proof -
  let ?k = "53 - (int (bit_length (fst x)) - int (bit_length (snd x)))"
  let ?y = "scaled x ?k"
  show ?thesis
  proof (cases "fst ?y div snd ?y < 2 ^ 53")
    case True
    have "2 powr (real (bit_length (fst x)) - real (bit_length (snd x)) - 1) *
        2 powr real_of_int ?k \<le> ratio_val ?y"
      unfolding scaled_val using bit_length_ratio [OF assms] by (intro mult_right_mono) simp_all
    then have "2 ^ 52 \<le> ratio_val ?y"
      by (simp flip: powr_add)
    moreover have "f64_round x = unscaled (half_even (fst ?y) (snd ?y)) ?k"
      using assms(1) True by (simp add: f64_round_def Let_def)
    ultimately show ?thesis by (rule that)
  next
    case False
    then have "2 ^ 53 * snd ?y \<le> fst ?y"
      using scaled_pos [OF assms(2), of ?k] by (simp add: not_less less_eq_div_iff_mult_less_eq)
    then have "real (2 ^ 53 * snd ?y) \<le> real (fst ?y)"
      by (simp only: of_nat_le_iff)
    then have "2 ^ 53 \<le> ratio_val ?y"
      using scaled_pos [OF assms(2), of ?k] by (simp add: ratio_val_def field_simps)
    moreover have "ratio_val (scaled x (?k - 1)) = ratio_val ?y / 2"
      using powr_diff [of 2 "real_of_int ?k" 1] by (simp add: scaled_val)
    ultimately have "2 ^ 52 \<le> ratio_val (scaled x (?k - 1))"
      by simp
    moreover have "f64_round x =
        unscaled (half_even (fst (scaled x (?k - 1))) (snd (scaled x (?k - 1)))) (?k - 1)"
      using assms(1) False by (simp add: f64_round_def Let_def)
    ultimately show ?thesis by (rule that)
  qed
qed

lemma f64_round_zero: "fst x = 0 \<Longrightarrow> ratio_val (f64_round x) = 0"
  by (simp add: f64_round_def ratio_val_def)

lemma f64_round_error:
  assumes "0 < snd x"
  shows "\<bar>ratio_val (f64_round x) - ratio_val x\<bar> \<le> ratio_val x / 2 ^ 53"
proof (cases "fst x = 0")
  case True
  then show ?thesis by (simp add: f64_round_zero) (simp add: ratio_val_def)
next
  case False
  then obtain k where big: "2 ^ 52 \<le> ratio_val (scaled x k)"
    and form: "f64_round x = unscaled (half_even (fst (scaled x k)) (snd (scaled x k))) k"
    using f64_round_form assms by blast
  let ?y = "scaled x k" and ?s = "2 powr real_of_int (- k)"
  have x: "ratio_val x = ratio_val ?y * ?s"
    by (simp add: scaled_val powr_minus field_simps)
  have "\<bar>real (half_even (fst ?y) (snd ?y)) - ratio_val ?y\<bar> \<le> 1 / 2"
    using half_even_error [OF scaled_pos [OF assms]] by (simp add: ratio_val_def)
  also have "\<dots> \<le> ratio_val ?y / 2 ^ 53"
    using big by simp
  finally have "\<bar>real (half_even (fst ?y) (snd ?y)) - ratio_val ?y\<bar> * ?s \<le>
      ratio_val ?y / 2 ^ 53 * ?s"
    by (rule mult_right_mono) simp
  moreover have "\<bar>ratio_val (f64_round x) - ratio_val x\<bar> =
      \<bar>real (half_even (fst ?y) (snd ?y)) - ratio_val ?y\<bar> * ?s"
    unfolding form unscaled_val x
    by (simp add: abs_mult flip: left_diff_distrib)
  ultimately show ?thesis
    by (simp add: x)
qed

lemma f64_round_pos: "0 < snd x \<Longrightarrow> 0 < snd (f64_round x)"
  by (simp add: f64_round_def unscaled_def Let_def)

subsection \<open>Exact cases and printing\<close>

lemma half_even_scale: "0 < d \<Longrightarrow> half_even (n * d * c) d = n * c"
  using half_even_exact [of d "n * c"] by (simp add: ac_simps)

lemma f64_of_nat_exact:
  assumes "n < 2 ^ 53"
  shows "ratio_val (f64_of_nat n) = real n"
proof (cases "n = 0")
  case True
  then show ?thesis by (simp add: f64_of_nat_def f64_round_zero)
next
  case False
  let ?k = "53 - (int (bit_length n) - int (bit_length 1))"
  have len: "bit_length 1 = 1" "0 < bit_length n" "2 ^ (bit_length n - 1) \<le> n"
    using bit_length_bounds [of n] False by (simp_all add: bit_length.simps [of "Suc 0"]
        bit_length.simps [of 0])
  then have "(2::nat) ^ (bit_length n - 1) < 2 ^ 53"
    using assms by linarith
  then have small: "bit_length n \<le> 53"
    using power_less_imp_less_exp [of "2::nat" "bit_length n - 1" 53] by simp
  have exact: "ratio_val (unscaled (half_even (fst (scaled (n, 1) k)) (snd (scaled (n, 1) k))) k)
      = real n" if "0 \<le> k" for k
    using that half_even_exact [of 1 "n * 2 ^ nat k"]
    by (simp add: scaled_def unscaled_def ratio_val_def)
  show ?thesis
    using False small len(1) exact [of ?k] exact [of "?k - 1"]
    by (simp add: f64_of_nat_def f64_round_def Let_def)
qed

text \<open>What \<open>{:.k}\<close> prints differs from the value by at most half a unit of the last place.\<close>

lemma last_place_error:
  assumes "0 < snd x"
  shows "\<bar>real (last_place k x) - ratio_val x * 10 ^ k\<bar> \<le> 1 / 2"
  using half_even_error [OF assms, of "fst x * 10 ^ k"]
  by (simp add: last_place_def ratio_val_def)

text \<open>A quotient of two exact counts, rounded once and printed with two decimals.\<close>

lemma f64_div_val:
  "ratio_val y \<noteq> 0 \<Longrightarrow> ratio_val (fst x * snd y, snd x * fst y) = ratio_val x / ratio_val y"
  by (simp add: ratio_val_def field_simps)

lemma f64_div_error:
  assumes "0 < snd x" "0 < fst y" "0 < snd y"
  shows "\<bar>ratio_val (f64_div x y) - ratio_val x / ratio_val y\<bar> \<le>
     ratio_val x / ratio_val y / 2 ^ 53"
  using f64_round_error [of "(fst x * snd y, snd x * fst y)"] assms f64_div_val [of y x]
  by (simp add: f64_div_def ratio_val_def)

lemma f64_add_error:
  assumes "0 < snd x" "0 < snd y"
  shows "\<bar>ratio_val (f64_add x y) - (ratio_val x + ratio_val y)\<bar> \<le>
     (ratio_val x + ratio_val y) / 2 ^ 53"
proof -
  have "ratio_val (fst x * snd y + fst y * snd x, snd x * snd y) = ratio_val x + ratio_val y"
    using assms by (simp add: ratio_val_def field_simps)
  then show ?thesis
    using f64_round_error [of "(fst x * snd y + fst y * snd x, snd x * snd y)"] assms
    by (simp add: f64_add_def)
qed

lemma f64_mul_error:
  assumes "0 < snd x" "0 < snd y"
  shows "\<bar>ratio_val (f64_mul x y) - ratio_val x * ratio_val y\<bar> \<le>
     ratio_val x * ratio_val y / 2 ^ 53"
  using f64_round_error [of "(fst x * fst y, snd x * snd y)"] assms
  by (simp add: f64_mul_def ratio_val_def)

lemma f64_pos:
  "0 < snd (f64_of_nat n)"
  "0 < snd x \<Longrightarrow> 0 < snd y \<Longrightarrow> 0 < snd (f64_add x y)"
  "0 < snd x \<Longrightarrow> 0 < snd y \<Longrightarrow> 0 < snd (f64_mul x y)"
  "0 < snd x \<Longrightarrow> 0 < fst y \<Longrightarrow> 0 < snd (f64_div x y)"
  by (simp_all add: f64_of_nat_def f64_add_def f64_mul_def f64_div_def f64_round_pos)

lemma ratio_val_nonneg [simp]: "0 \<le> ratio_val x"
  by (simp add: ratio_val_def)

lemma ratio_val_pos: "0 < ratio_val x \<Longrightarrow> 0 < fst x"
  by (rule ccontr) (simp add: ratio_val_def)

text \<open>What is printed with \<open>k\<close> decimals, when the double is close to the exact quantity.\<close>

lemma printed_error:
  assumes "0 < snd x" "\<bar>ratio_val x - v\<bar> * 10 ^ k \<le> 1 / 100"
  shows "\<bar>real (last_place k x) - v * 10 ^ k\<bar> \<le> 51 / 100"
proof -
  have "\<bar>ratio_val x * 10 ^ k - v * 10 ^ k\<bar> \<le> 1 / 100"
    using assms(2) by (simp add: abs_mult flip: left_diff_distrib)
  then show ?thesis
    using last_place_error [OF assms(1), of k] by linarith
qed

text \<open>A value with at most 53 significant bits is not changed by rounding.\<close>

lemma f64_round_exact:
  assumes "0 < snd x" "ratio_val x = real m / 2 ^ e" "m < 2 ^ 53"
  shows "ratio_val (f64_round x) = ratio_val x"
proof (cases "fst x = 0")
  case True
  then show ?thesis by (simp add: f64_round_zero) (simp add: ratio_val_def)
next
  case False
  then obtain k where big: "2 ^ 52 \<le> ratio_val (scaled x k)"
    and form: "f64_round x = unscaled (half_even (fst (scaled x k)) (snd (scaled x k))) k"
    using f64_round_form assms(1) by blast
  let ?y = "scaled x k"
  have y: "ratio_val ?y = real m * 2 powr (real_of_int k - real e)"
    by (simp add: scaled_val assms(2) powr_diff two_powr_nat)
  have "real m < real (2 ^ 53 :: nat)"
    using assms(3) by (simp only: of_nat_less_iff)
  then have "ratio_val ?y < 2 ^ 53 * 2 powr (real_of_int k - real e)"
    unfolding y by (intro mult_strict_right_mono) simp_all
  then have "2 powr 52 < 2 powr (53 + (real_of_int k - real e))"
    using big by (simp add: powr_add)
  then have "52 < 53 + (real_of_int k - real e)"
    by (rule powr_less_cancel) simp
  then have k: "int e \<le> k"
    by linarith
  then have "ratio_val ?y = real (m * 2 ^ nat (k - int e))"
    using y powr_real_of_int [of 2 "k - int e"] by simp
  then have "real (fst ?y) = real (m * 2 ^ nat (k - int e) * snd ?y)"
    using scaled_pos [OF assms(1), of k] by (simp add: ratio_val_def field_simps)
  then have "fst ?y = m * 2 ^ nat (k - int e) * snd ?y"
    by (simp only: of_nat_eq_iff)
  then have "half_even (fst ?y) (snd ?y) = m * 2 ^ nat (k - int e)"
    using scaled_pos [OF assms(1), of k] by simp
  then have "ratio_val (f64_round x) = ratio_val ?y * 2 powr real_of_int (- k)"
    using \<open>ratio_val ?y = real (m * 2 ^ nat (k - int e))\<close> by (simp add: form unscaled_val)
  then show ?thesis
    by (simp add: scaled_val powr_minus)
qed

lemma f64_as_u64_floor:
  assumes "0 < snd x" "ratio_val x = real a / real b" "0 < b" "a div b < 2 ^ 64"
  shows "unat (f64_as_u64 x) = a div b"
proof -
  have "\<lfloor>real (fst x) / real (snd x)\<rfloor> = \<lfloor>real a / real b\<rfloor>"
    using assms(2) by (simp add: ratio_val_def)
  then have "fst x div snd x = a div b"
    by (simp add: floor_divide_of_nat_eq)
  then show ?thesis
    using assms(4) unfolding f64_as_u64_def by (subst unat_of_nat_small) auto
qed

end
