(* ===== verification/User_Loop.thy ===== *)
theory User_Loop
  imports Wire Rust_Str Rust_F64
begin

section \<open>The ring-buffer event loop\<close>

text \<open>
  \<open>run_event_loop\<close> has the same shape in tragach-slowquery and tragach-attach: wait for Ctrl-C or
  a readable ring, hand every record to the tool, stop at the first failed write. The tool's
  treatment of one record is the parameter. The interface \<open>event_tool\<close> states what that
  treatment must promise; derived are the loop's accounting (every record is dropped, filtered
  or printed, in order) and that the turns in which records arrive do not matter. Also here: the
  duration format the two tools share.
\<close>

subsection \<open>Durations\<close>

text \<open>\<open>Duration::from_nanos(ns).as_secs_f64()\<close>.\<close>

definition as_secs_f64 :: "nat \<Rightarrow> ratio" where
  "as_secs_f64 ns =
     f64_add (f64_of_nat (ns div 1000000000))
       (f64_div (f64_of_nat (ns mod 1000000000)) (f64_of_nat 1000000000))"

definition fmt_duration :: "u64 \<Rightarrow> string" where
  "fmt_duration w =
     (let ns = unat w in
      if ns div 1000000000 \<ge> 1 then fixed 2 (as_secs_f64 ns) @ ''s''
      else if ns div 1000000 \<ge> 1 then fixed 2 (f64_mul (as_secs_f64 ns) (f64_of_nat 1000)) @ ''ms''
      else if ns div 1000 \<ge> 1 then decimal (ns div 1000) @ ''us''
      else decimal ns @ ''ns'')"

text \<open>How far the double is from the exact number of seconds.\<close>

lemma as_secs_f64_pos: "0 < snd (as_secs_f64 ns)"
proof -
  have "0 < fst (f64_of_nat 1000000000)"
    using f64_of_nat_exact [of 1000000000] by (intro ratio_val_pos) simp
  then show ?thesis
    by (simp add: as_secs_f64_def f64_pos)
qed

lemma as_secs_f64_error:
  assumes "ns < 2 ^ 64"
  shows "\<bar>ratio_val (as_secs_f64 ns) - real ns / 10 ^ 9\<bar> \<le> (real (ns div 1000000000) + 3) / 2 ^ 53"
proof -
  let ?s = "ns div 1000000000" and ?m = "ns mod 1000000000"
  let ?f = "f64_div (f64_of_nat ?m) (f64_of_nat 1000000000)"
  have m: "?m < 1000000000"
    by simp
  have billion: "ratio_val (f64_of_nat 1000000000) = 1000000000" "0 < fst (f64_of_nat 1000000000)"
    using f64_of_nat_exact [of 1000000000] by (simp_all add: ratio_val_pos)
  have "?s < 2 ^ 53"
    using assms by (simp add: div_less_iff_less_mult)
  then have s: "ratio_val (f64_of_nat ?s) = real ?s"
    by (rule f64_of_nat_exact)
  have "ratio_val (f64_of_nat ?m) = real ?m"
    using m by (intro f64_of_nat_exact) (rule less_trans, assumption, simp)
  then have "\<bar>ratio_val ?f - real ?m / 10 ^ 9\<bar> \<le> real ?m / 10 ^ 9 / 2 ^ 53"
    using f64_div_error [OF f64_pos(1) billion(2) f64_pos(1), of ?m] billion(1) by simp
  moreover have frac: "real ?m / 10 ^ 9 \<le> 1"
    using m by simp
  ultimately have f: "\<bar>ratio_val ?f - real ?m / 10 ^ 9\<bar> \<le> 1 / 2 ^ 53"
    by (rule order_trans [OF _ divide_right_mono]) simp
  moreover have "1 / 2 ^ 53 \<le> (1 :: real)"
    by simp
  ultimately have f2: "ratio_val ?f \<le> 2"
    using frac by linarith
  have "\<bar>ratio_val (as_secs_f64 ns) - (real ?s + ratio_val ?f)\<bar> \<le> (real ?s + ratio_val ?f) / 2 ^ 53"
    unfolding as_secs_f64_def s [symmetric]
    by (intro f64_add_error f64_pos(1) f64_pos(4) billion(2))
  moreover have "real ns / 10 ^ 9 = real ?s + real ?m / 10 ^ 9"
  proof -
    have "real ns = real (?s * 1000000000 + ?m)"
      by (simp only: div_mult_mod_eq)
    then show ?thesis
      by (simp only: of_nat_add of_nat_mult) simp
  qed
  ultimately show ?thesis
    using f f2 unfolding abs_le_iff by (simp add: field_simps)
qed

text \<open>
  The four forms of a printed duration: with two decimals, in seconds or milliseconds, off by at
  most 51 hundredths of the last place; exact in microseconds and nanoseconds.
\<close>

lemma fmt_duration_forms:
  defines "two v \<equiv> decimal (v div 100) @ ''.'' @ pad_zero 2 (decimal (v mod 100))"
  shows "10 ^ 9 \<le> unat w \<Longrightarrow> \<exists>v. fmt_duration w = two v @ ''s'' \<and>
      \<bar>real v - real (unat w) / 10 ^ 7\<bar> \<le> 51 / 100"
    and "10 ^ 6 \<le> unat w \<Longrightarrow> unat w < 10 ^ 9 \<Longrightarrow> \<exists>v. fmt_duration w = two v @ ''ms'' \<and>
      \<bar>real v - real (unat w) / 10 ^ 4\<bar> \<le> 51 / 100"
    and "10 ^ 3 \<le> unat w \<Longrightarrow> unat w < 10 ^ 6 \<Longrightarrow>
      fmt_duration w = decimal (unat w div 1000) @ ''us''"
    and "unat w < 10 ^ 3 \<Longrightarrow> fmt_duration w = decimal (unat w) @ ''ns''"
proof -
  let ?ns = "unat w"
  have bound: "?ns < 2 ^ 64"
    using unsigned_less [of w] by simp
  have two: "fixed 2 x = two (last_place 2 x)" for x
    by (simp add: fixed_def two_def Let_def)
  note err = as_secs_f64_error [OF bound]
  show "\<exists>v. fmt_duration w = two v @ ''s'' \<and> \<bar>real v - real ?ns / 10 ^ 7\<bar> \<le> 51 / 100"
    if "10 ^ 9 \<le> ?ns"
  proof -
    have "?ns div 1000000000 < 2 ^ 35"
      using bound by (simp add: div_less_iff_less_mult)
    then have "real (?ns div 1000000000) < real (2 ^ 35 :: nat)"
      by (simp only: of_nat_less_iff)
    then have "\<bar>ratio_val (as_secs_f64 ?ns) - real ?ns / 10 ^ 9\<bar> * 10 ^ 2 \<le> 1 / 100"
      using err by simp
    then have "\<bar>real (last_place 2 (as_secs_f64 ?ns)) - real ?ns / 10 ^ 9 * 10 ^ 2\<bar> \<le> 51 / 100"
      by (intro printed_error as_secs_f64_pos)
    moreover have "fmt_duration w = two (last_place 2 (as_secs_f64 ?ns)) @ ''s''"
      using that by (simp add: fmt_duration_def two Let_def div_greater_zero_iff Suc_le_eq)
    ultimately show ?thesis by auto
  qed
  show "\<exists>v. fmt_duration w = two v @ ''ms'' \<and> \<bar>real v - real ?ns / 10 ^ 4\<bar> \<le> 51 / 100"
    if "10 ^ 6 \<le> ?ns" "?ns < 10 ^ 9"
  proof -
    let ?x = "as_secs_f64 ?ns" and ?k = "f64_of_nat 1000"
    have k: "ratio_val ?k = 1000"
      using f64_of_nat_exact [of 1000] by simp
    have near: "\<bar>ratio_val ?x - real ?ns / 10 ^ 9\<bar> \<le> 3 / 2 ^ 53"
      using err that(2) by simp
    moreover have "real ?ns \<le> real (10 ^ 9 :: nat)"
      using that(2) by (simp only: of_nat_le_iff less_imp_le)
    then have "real ?ns / 10 ^ 9 \<le> 1"
      by simp
    moreover have "3 / 2 ^ 53 \<le> (1 :: real)"
      by simp
    ultimately have "ratio_val ?x \<le> 2"
      by linarith
    moreover have "\<bar>ratio_val (f64_mul ?x ?k) - ratio_val ?x * 1000\<bar> \<le> ratio_val ?x * 1000 / 2 ^ 53"
      using f64_mul_error [OF as_secs_f64_pos f64_pos(1), of ?ns 1000] unfolding k .
    ultimately have "\<bar>ratio_val (f64_mul ?x ?k) - real ?ns / 10 ^ 6\<bar> \<le> 1 / 10 ^ 4"
      using near unfolding abs_le_iff by (simp add: field_simps)
    then have "\<bar>ratio_val (f64_mul ?x ?k) - real ?ns / 10 ^ 6\<bar> * 10 ^ 2 \<le> 1 / 100"
      by simp
    then have "\<bar>real (last_place 2 (f64_mul ?x ?k)) - real ?ns / 10 ^ 6 * 10 ^ 2\<bar> \<le> 51 / 100"
      by (intro printed_error f64_pos(3) as_secs_f64_pos f64_pos(1))
    moreover have "fmt_duration w = two (last_place 2 (f64_mul ?x ?k)) @ ''ms''"
      using that by (simp add: fmt_duration_def two Let_def div_greater_zero_iff Suc_le_eq)
    ultimately show ?thesis by auto
  qed
  show "fmt_duration w = decimal (?ns div 1000) @ ''us''" if "10 ^ 3 \<le> ?ns" "?ns < 10 ^ 6"
    using that by (simp add: fmt_duration_def Let_def div_greater_zero_iff Suc_le_eq)
  show "fmt_duration w = decimal ?ns @ ''ns''" if "?ns < 10 ^ 3"
    using that by (simp add: fmt_duration_def Let_def)
qed

subsection \<open>The loop\<close>

text \<open>
  A record of the ring, with the time stamp \<open>chrono\<close> would print and the outcome of the write
  at that point. One turn of \<open>select!\<close> is Ctrl-C, a failed wait, or a readable ring with the
  records that \<open>ring.next()\<close> yields; a list of turns that runs out leaves the loop waiting.
\<close>

record ring_item =
  it_bytes :: "u8 list"
  it_ts :: string
  it_writes :: bool

datatype wakeup = CtrlC | ReadyFailed | Readable "ring_item list"

fun drain_ring ::
  "(ring_item \<Rightarrow> 's \<Rightarrow> (unit + unit) \<times> 's) \<Rightarrow> ring_item list \<Rightarrow> 's \<Rightarrow> (unit + unit) \<times> 's" where
  "drain_ring item [] s = (Inr (), s)"
| "drain_ring item (it # its) s =
     (case item it s of (Inl e, s) \<Rightarrow> (Inl e, s) | (Inr _, s) \<Rightarrow> drain_ring item its s)"

fun event_loop ::
  "(ring_item \<Rightarrow> 's \<Rightarrow> (unit + unit) \<times> 's) \<Rightarrow> wakeup list \<Rightarrow> 's \<Rightarrow> (unit + unit) option \<times> 's" where
  "event_loop item [] s = (None, s)"
| "event_loop item (CtrlC # ws) s = (Some (Inr ()), s)"
| "event_loop item (ReadyFailed # ws) s = (Some (Inl ()), s)"
| "event_loop item (Readable its # ws) s =
     (case drain_ring item its s of
        (Inl e, s) \<Rightarrow> (Some (Inl e), s) | (Inr _, s) \<Rightarrow> event_loop item ws s)"

lemma drain_ring_append:
  "drain_ring item (its @ its') s =
     (case drain_ring item its s of
        (Inl e, s) \<Rightarrow> (Inl e, s) | (Inr _, s) \<Rightarrow> drain_ring item its' s)"
  by (induction its arbitrary: s) (auto split: sum.splits prod.splits)

lemma event_loop_turns:
  "event_loop item (map Readable itss @ [CtrlC]) s =
     (case drain_ring item (concat itss) s of (Inl e, s) \<Rightarrow> (Some (Inl e), s)
                                             | (Inr _, s) \<Rightarrow> (Some (Inr ()), s))"
  by (induction itss arbitrary: s) (auto simp: drain_ring_append split: sum.splits prod.splits)

subsection \<open>What a tool promises of one record\<close>

fun accepted_items ::
  "(u8 list \<Rightarrow> unit + 'ev) \<Rightarrow> ('ev \<Rightarrow> bool) \<Rightarrow> ring_item list \<Rightarrow> (string \<times> 'ev) list" where
  "accepted_items decode accepts [] = []"
| "accepted_items decode accepts (it # its) =
     (case decode (it_bytes it) of
        Inl _ \<Rightarrow> accepted_items decode accepts its
      | Inr ev \<Rightarrow> (if accepts ev then [(it_ts it, ev)] else []) @
                  accepted_items decode accepts its)"

definition short_items :: "(u8 list \<Rightarrow> unit + 'ev) \<Rightarrow> ring_item list \<Rightarrow> nat" where
  "short_items decode its = length (filter (\<lambda>it. decode (it_bytes it) = Inl ()) its)"

locale event_tool =
  fixes item :: "ring_item \<Rightarrow> 's \<Rightarrow> (unit + unit) \<times> 's"
    and decode :: "u8 list \<Rightarrow> unit + 'ev"
    and accepts :: "'ev \<Rightarrow> bool"
    and printed :: "'s \<Rightarrow> nat"
    and dropped :: "'s \<Rightarrow> u64"
  assumes short_record: "decode (it_bytes it) = Inl () \<Longrightarrow> fst (item it s) = Inr () \<and>
      dropped (snd (item it s)) = dropped s + 1 \<and> printed (snd (item it s)) = printed s"
    and filtered: "decode (it_bytes it) = Inr ev \<Longrightarrow> \<not> accepts ev \<Longrightarrow> item it s = (Inr (), s)"
    and printed_ok: "decode (it_bytes it) = Inr ev \<Longrightarrow> accepts ev \<Longrightarrow> it_writes it \<Longrightarrow>
      fst (item it s) = Inr () \<and> dropped (snd (item it s)) = dropped s \<and>
      printed (snd (item it s)) = Suc (printed s)"
    and write_failed: "decode (it_bytes it) = Inr ev \<Longrightarrow> accepts ev \<Longrightarrow> \<not> it_writes it \<Longrightarrow>
      fst (item it s) = Inl () \<and> dropped (snd (item it s)) = dropped s \<and>
      printed (snd (item it s)) = printed s"
begin

lemma drain_accounts:
  assumes "\<forall>it \<in> set its. it_writes it"
  shows "fst (drain_ring item its s) = Inr () \<and>
    dropped (snd (drain_ring item its s)) = dropped s + of_nat (short_items decode its) \<and>
    printed (snd (drain_ring item its s)) =
      printed s + length (accepted_items decode accepts its)"
  using assms
proof (induction its arbitrary: s)
  case Nil
  then show ?case by (simp add: short_items_def)
next
  case (Cons it its)
  obtain r s' where step: "item it s = (r, s')" by fastforce
  note IH = Cons.IH [of s']
  show ?case
  proof (cases "decode (it_bytes it)")
    case (Inl u)
    then show ?thesis
      using short_record [of it s] IH Cons.prems step by (simp add: short_items_def)
  next
    case (Inr ev)
    then show ?thesis
      using filtered [OF Inr, of s] printed_ok [OF Inr, of s] IH Cons.prems step
      by (cases "accepts ev") (simp_all add: short_items_def)
  qed
qed

lemma drain_stops_at_failure:
  assumes "\<forall>it \<in> set its. it_writes it" "decode (it_bytes it) = Inr ev" "accepts ev"
    "\<not> it_writes it"
  shows "fst (drain_ring item (its @ it # its') s) = Inl () \<and>
    printed (snd (drain_ring item (its @ it # its') s)) =
      printed s + length (accepted_items decode accepts its)"
proof -
  obtain t where t: "drain_ring item its s = (Inr (), t)"
    using drain_accounts [OF assms(1), of s] by (cases "drain_ring item its s") auto
  moreover obtain t' where "item it t = (Inl (), t')" "printed t' = printed t"
    using write_failed [OF assms(2-4), of t] by (cases "item it t") auto
  ultimately show ?thesis
    using drain_accounts [OF assms(1), of s] by (simp add: drain_ring_append)
qed

end

end
