(* ===== verification/Slowquery_User.thy ===== *)
theory Slowquery_User
  imports User_Loop
begin

section \<open>tragach-slowquery: the event loop\<close>

text \<open>
  \<open>crates/tragach-slowquery/src/main.rs\<close> from \<open>run_event_loop\<close> on: records are taken from the
  ring, decoded, filtered by the threshold, given a small attachment id and printed. What is not
  in the repository comes in with each record: the time stamp \<open>chrono\<close> prints and whether the
  write succeeds. A line of output is the structure handed to \<open>serde_json\<close>, or the text of the
  human format. Shown: the loop's output is a function of the accepted events alone, in order;
  ids number the attachments in order of first appearance; dropped counts the short records; and
  the text that is shown is the captured text.
\<close>

subsection \<open>Formatting\<close>

text \<open>
  \<open>sql_str\<close>: at most \<open>sql_len\<close> bytes of the buffer, cut at the first NUL, decoded lossily.
\<close>

definition sql_str :: "slow_query_event \<Rightarrow> u8 list" where
  "sql_str ev =
     (let n = min (unat (sqe_sql_len ev)) sql_max;
          trimmed = take n (sqe_sql ev);
          shown = takeWhile (\<lambda>b. b \<noteq> 0) trimmed
      in from_utf8_lossy shown)"

definition em_dash :: string where
  "em_dash = [char_of (0xE2 :: nat), char_of (0x80 :: nat), char_of (0x94 :: nat)]"

definition sql_unknown :: string where
  "sql_unknown = ''<sql unknown '' @ em_dash @ '' execute without tracked prepare>''"

record sq_json_event =
  jse_ts :: string
  jse_att :: "u32 option"
  jse_att_ptr :: "string option"
  jse_tid :: u32
  jse_prepare_us :: u64
  jse_execute_us :: u64
  jse_sql :: "string option"
  jse_truncated :: bool

datatype sq_output = SqJson sq_json_event | SqLine string

definition sq_write_human :: "string \<Rightarrow> slow_query_event \<Rightarrow> u32 option \<Rightarrow> sq_output" where
  "sq_write_human ts ev att =
     (let sql = string_of_bytes (sql_str ev);
          sql_display = (if sql = [] \<and> sqe_attachment_id ev = 0 then sql_unknown else sql);
          truncated = (if sqe_sql_truncated ev \<noteq> 0 then ''...'' else '''');
          att_display = (case att of Some i \<Rightarrow> pad_left 4 (decimal (unat i)) | None \<Rightarrow> ''?   '')
      in SqLine (ts @ ''  att='' @ att_display @
           '' prepare='' @ pad_right 9 (fmt_duration (sqe_prepare_ns ev)) @
           ''  execute='' @ pad_right 9 (fmt_duration (sqe_execute_ns ev)) @
           ''  '' @ sql_display @ truncated))"

definition sq_write_json :: "string \<Rightarrow> slow_query_event \<Rightarrow> u32 option \<Rightarrow> sq_output" where
  "sq_write_json ts ev att =
     (let sql = string_of_bytes (sql_str ev)
      in SqJson \<lparr>jse_ts = ts, jse_att = att,
           jse_att_ptr = (if sqe_attachment_id ev = 0 then None
                          else Some (''0x'' @ lower_hex (unat (sqe_attachment_id ev)))),
           jse_tid = sqe_tid ev,
           jse_prepare_us = sqe_prepare_ns ev div 1000,
           jse_execute_us = sqe_execute_ns ev div 1000,
           jse_sql = (if sql = [] \<and> sqe_attachment_id ev = 0 then None else Some sql),
           jse_truncated = (sqe_sql_truncated ev \<noteq> 0)\<rparr>)"

subsection \<open>The loop\<close>

record sq_args =
  arg_threshold :: "nat option"
  arg_json :: bool

record sq_loop =
  id_table :: "u64 \<rightharpoonup> u32"
  next_id :: u32
  sq_dropped :: u64
  sq_out :: "sq_output list"

definition sq_loop_init :: sq_loop where
  "sq_loop_init = \<lparr>id_table = Map.empty, next_id = 0, sq_dropped = 0, sq_out = []\<rparr>"

definition threshold_ns :: "sq_args \<Rightarrow> u64 option" where
  "threshold_ns a = map_option of_nat (arg_threshold a)"

definition small_id :: "u64 \<Rightarrow> sq_loop \<Rightarrow> u32 option \<times> sq_loop" where
  "small_id attachment s =
     (if attachment = 0 then (None, s)
      else case id_table s attachment of
        Some i \<Rightarrow> (Some i, s)
      | None \<Rightarrow>
          let i = next_id s + 1
          in (Some i, s\<lparr>next_id := i, id_table := (id_table s)(attachment \<mapsto> i)\<rparr>))"

definition sq_item :: "sq_args \<Rightarrow> ring_item \<Rightarrow> sq_loop \<Rightarrow> (unit + unit) \<times> sq_loop" where
  "sq_item a it s =
     (case decode_slow_query_event (it_bytes it) of
        Inr ev \<Rightarrow>
          if (case threshold_ns a of Some t \<Rightarrow> sqe_execute_ns ev < t | None \<Rightarrow> False) then (Inr (), s)
          else
            let (i, s) = small_id (sqe_attachment_id ev) s;
                line = (if arg_json a then sq_write_json (it_ts it) ev i
                        else sq_write_human (it_ts it) ev i)
            in if it_writes it then (Inr (), s\<lparr>sq_out := sq_out s @ [line]\<rparr>) else (Inl (), s)
      | Inl _ \<Rightarrow> (Inr (), s\<lparr>sq_dropped := sq_dropped s + 1\<rparr>))"

definition sq_event_loop ::
  "sq_args \<Rightarrow> wakeup list \<Rightarrow> sq_loop \<Rightarrow> (unit + unit) option \<times> sq_loop" where
  "sq_event_loop a ws s = event_loop (sq_item a) ws s"

subsection \<open>Accounting\<close>

definition sq_accepts :: "sq_args \<Rightarrow> slow_query_event \<Rightarrow> bool" where
  "sq_accepts a ev \<longleftrightarrow> (\<forall>t. threshold_ns a = Some t \<longrightarrow> t \<le> sqe_execute_ns ev)"

lemma sq_accepts_iff:
  "(case threshold_ns a of Some t \<Rightarrow> sqe_execute_ns ev < t | None \<Rightarrow> False) \<longleftrightarrow> \<not> sq_accepts a ev"
  by (auto simp: sq_accepts_def not_le split: option.splits)

lemma small_id_frame [simp]:
  "sq_out (snd (small_id p s)) = sq_out s" "sq_dropped (snd (small_id p s)) = sq_dropped s"
  by (auto simp: small_id_def Let_def split: option.splits)

interpretation sq_tool:
  event_tool "sq_item a" decode_slow_query_event "sq_accepts a" "\<lambda>s. length (sq_out s)" sq_dropped
  by unfold_locales
    (auto simp: sq_item_def sq_accepts_iff Let_def case_prod_beta)

subsection \<open>Attachment ids\<close>

text \<open>
  The attachments of a list of events in order of first appearance, and the number of an
  attachment in such a list.
\<close>

definition seen :: "(string \<times> slow_query_event) list \<Rightarrow> u64 list \<Rightarrow> u64 list" where
  "seen evs ps =
     fold (\<lambda>ev ps. if sqe_attachment_id (snd ev) \<in> insert 0 (set ps) then ps
                   else ps @ [sqe_attachment_id (snd ev)]) evs ps"

definition numbered :: "u64 list \<Rightarrow> u64 \<rightharpoonup> u32" where
  "numbered ps p =
     (if p \<in> set ps then Some (of_nat (Suc (length (takeWhile (\<lambda>q. q \<noteq> p) ps)))) else None)"

definition sq_line :: "sq_args \<Rightarrow> u64 list \<Rightarrow> string \<times> slow_query_event \<Rightarrow> sq_output" where
  "sq_line a ps x =
     (let i = numbered ps (sqe_attachment_id (snd x))
      in if arg_json a then sq_write_json (fst x) (snd x) i
         else sq_write_human (fst x) (snd x) i)"

lemma numbered_old: "p \<in> set ps \<Longrightarrow> numbered (ps @ qs) p = numbered ps p"
  by (auto simp: numbered_def takeWhile_append)

lemma numbered_new: "p \<notin> set ps \<Longrightarrow> numbered (ps @ [p]) = (numbered ps)(p \<mapsto> of_nat (Suc (length ps)))"
  by (rule ext) (auto simp: numbered_def takeWhile_append takeWhile_eq_all_conv)

lemma seen_Nil [simp]: "seen [] ps = ps"
  by (simp add: seen_def)

lemma seen_Cons:
  "seen (ev # evs) ps =
     seen evs (if sqe_attachment_id (snd ev) \<in> insert 0 (set ps) then ps
               else ps @ [sqe_attachment_id (snd ev)])"
  by (simp add: seen_def)

lemma seen_extends: "\<exists>qs. seen evs ps = ps @ qs"
proof (induction evs arbitrary: ps)
  case (Cons ev evs)
  obtain qs where "seen (ev # evs) ps =
      (if sqe_attachment_id (snd ev) \<in> insert 0 (set ps) then ps
       else ps @ [sqe_attachment_id (snd ev)]) @ qs"
    unfolding seen_Cons using Cons.IH by blast
  then show ?case
    by (cases "sqe_attachment_id (snd ev) \<in> insert 0 (set ps)") simp_all
qed simp

lemma seen_keeps: "p \<in> set ps \<Longrightarrow> numbered (seen evs ps) p = numbered ps p"
  using seen_extends [of evs ps] numbered_old by force

lemma seen_distinct: "distinct ps \<Longrightarrow> distinct (seen evs ps)"
  by (induction evs arbitrary: ps) (auto simp: seen_Cons)

lemma seen_zero: "0 \<notin> set ps \<Longrightarrow> 0 \<notin> set (seen evs ps)"
  by (induction evs arbitrary: ps) (auto simp: seen_Cons)

text \<open>The table after some records: the attachments seen so far, numbered.\<close>

definition ids_ok :: "u64 list \<Rightarrow> sq_loop \<Rightarrow> bool" where
  "ids_ok ps s \<longleftrightarrow> 0 \<notin> set ps \<and> id_table s = numbered ps \<and> next_id s = of_nat (length ps)"

lemma small_id_step:
  assumes "ids_ok ps s"
  shows "fst (small_id p s) = numbered (if p \<in> insert 0 (set ps) then ps else ps @ [p]) p \<and>
    ids_ok (if p \<in> insert 0 (set ps) then ps else ps @ [p]) (snd (small_id p s))"
proof (cases "p \<in> insert 0 (set ps)")
  case True
  with assms have "small_id p s = (numbered ps p, s)"
    by (auto simp: small_id_def ids_ok_def numbered_def)
  with True assms show ?thesis by simp
next
  case False
  then have "numbered ps p = None"
    by (simp add: numbered_def)
  with False assms show ?thesis
    by (simp add: small_id_def ids_ok_def numbered_new add.commute Let_def)
qed

lemma sq_drain_closed_form:
  fixes a defines "evs \<equiv> accepted_items decode_slow_query_event (sq_accepts a)"
  assumes "\<forall>it \<in> set its. it_writes it" "ids_ok ps s"
  shows "ids_ok (seen (evs its) ps) (snd (drain_ring (sq_item a) its s)) \<and>
    sq_out (snd (drain_ring (sq_item a) its s)) =
      sq_out s @ map (sq_line a (seen (evs its) ps)) (evs its)"
  using assms(2,3)
proof (induction its arbitrary: s ps)
  case Nil
  then show ?case by (simp add: evs_def)
next
  case (Cons it its)
  show ?case
  proof (cases "decode_slow_query_event (it_bytes it)")
    case (Inl u)
    then have "sq_item a it s = (Inr (), s\<lparr>sq_dropped := sq_dropped s + 1\<rparr>)"
      by (simp add: sq_item_def)
    moreover have "ids_ok ps (s\<lparr>sq_dropped := sq_dropped s + 1\<rparr>)"
      using Cons.prems(2) by (simp add: ids_ok_def)
    ultimately show ?thesis
      using Cons.IH [of ps "s\<lparr>sq_dropped := sq_dropped s + 1\<rparr>"] Cons.prems(1) Inl
      by (simp add: evs_def)
  next
    case (Inr ev)
    let ?p = "sqe_attachment_id ev"
    show ?thesis
    proof (cases "sq_accepts a ev")
      case False
      then show ?thesis
        using Cons.IH [of ps s] Cons.prems sq_tool.filtered [OF Inr False, of s] Inr
        by (simp add: evs_def)
    next
      case True
      obtain qs where qs: "qs = (if ?p \<in> insert 0 (set ps) then ps else ps @ [?p])" by blast
      let ?line = "sq_line a (seen (evs its) qs) (it_ts it, ev)"
      let ?s = "(snd (small_id ?p s))\<lparr>sq_out := sq_out s @ [?line]\<rparr>"
      have id: "fst (small_id ?p s) = numbered qs ?p" "ids_ok qs (snd (small_id ?p s))"
        using small_id_step [OF Cons.prems(2), of ?p] unfolding qs by blast+
      have "0 \<notin> set qs"
        using id(2) unfolding ids_ok_def by (rule conjunct1)
      moreover have "?p \<noteq> 0 \<Longrightarrow> ?p \<in> set qs"
        by (simp add: qs)
      ultimately have final: "numbered (seen (evs its) qs) ?p = numbered qs ?p"
        using seen_zero [of qs "evs its"] seen_keeps [of ?p qs "evs its"]
        by (cases "?p = 0") (simp_all add: numbered_def)
      have "sq_item a it s = (Inr (), ?s)"
        using True Inr Cons.prems(1) id(1) final
        by (simp add: sq_item_def sq_accepts_iff sq_line_def Let_def case_prod_beta)
      moreover have "ids_ok qs ?s"
        using id(2) by (simp add: ids_ok_def)
      moreover have "evs (it # its) = (it_ts it, ev) # evs its"
        using True Inr by (simp add: evs_def)
      moreover have "seen (evs (it # its)) ps = seen (evs its) qs"
        by (simp add: \<open>evs (it # its) = _\<close> seen_Cons qs)
      ultimately show ?thesis
        using Cons.IH [of qs ?s] Cons.prems(1) by simp
    qed
  qed
qed

subsection \<open>The loop's contract\<close>

lemma ids_ok_init: "ids_ok [] sq_loop_init"
  by (auto simp: ids_ok_def sq_loop_init_def numbered_def)

text \<open>C12: when every write succeeds and the user stops the tool, the loop returns without error; what
  it printed is one line per record that decodes and reaches the threshold, in ring order, each
  attachment numbered by its position among the attachments in order of first appearance; and
  the dropped counter is the number of records shorter than the event. How the records were
  spread over wake-ups does not matter.\<close>

theorem sq_loop_output:
  fixes a itss
  defines "evs \<equiv> accepted_items decode_slow_query_event (sq_accepts a) (concat itss)"
  assumes "\<forall>it \<in> set (concat itss). it_writes it"
  shows "\<exists>s. sq_event_loop a (map Readable itss @ [CtrlC]) sq_loop_init = (Some (Inr ()), s) \<and>
    sq_out s = map (sq_line a (seen evs [])) evs \<and>
    sq_dropped s = of_nat (length (filter
      (\<lambda>it. length (it_bytes it) < slow_query_event_size) (concat itss)))"
proof -
  let ?r = "drain_ring (sq_item a) (concat itss) sq_loop_init"
  have ok: "fst ?r = Inr ()"
    "sq_dropped (snd ?r) = of_nat (short_items decode_slow_query_event (concat itss))"
    using sq_tool.drain_accounts [OF assms(2), of a sq_loop_init]
    by (simp_all add: sq_loop_init_def)
  then have "sq_event_loop a (map Readable itss @ [CtrlC]) sq_loop_init = (Some (Inr ()), snd ?r)"
    by (cases ?r) (simp add: sq_event_loop_def event_loop_turns)
  moreover have "sq_out (snd ?r) = map (sq_line a (seen evs [])) evs"
    using sq_drain_closed_form [OF assms(2) ids_ok_init, of a]
    by (simp add: evs_def sq_loop_init_def)
  ultimately show ?thesis
    using ok by (simp add: short_items_def decode_slow_query_short)
qed

definition sample_event :: "u64 \<Rightarrow> u64 \<Rightarrow> slow_query_event" where
  "sample_event attachment execute_ns =
     \<lparr>sqe_ts_ns = 9000, sqe_prepare_ns = 800000, sqe_execute_ns = execute_ns,
      sqe_attachment_id = attachment, sqe_tid = 740, sqe_sql_len = 8, sqe_sql_truncated = 0,
      sqe_pad = 0, sqe_sql = [83, 69, 76, 69, 67, 84, 32, 49] @ replicate 504 0\<rparr>"

definition sample_item :: "u64 \<Rightarrow> u64 \<Rightarrow> ring_item" where
  "sample_item attachment execute_ns =
     \<lparr>it_bytes = slow_query_event_bytes (sample_event attachment execute_ns),
      it_ts = ''2026-01-01'', it_writes = True\<rparr>"

lemma sample_item_decodes:
  "decode_slow_query_event (it_bytes (sample_item p e)) = Inr (sample_event p e)"
  using slow_query_decode_encode [of "sample_event p e" "[]"]
  by (simp add: sample_item_def sample_event_def slow_query_event_ok_def sql_max_def)

theorem sq_loop_output_witness:
  "\<exists>s. sq_event_loop \<lparr>arg_threshold = Some 500, arg_json = True\<rparr>
     [Readable [sample_item 0xa0 700, sample_item 0xb0 100],
      Readable [sample_item 0xb0 500, sample_item 0xa0 900], CtrlC] sq_loop_init =
     (Some (Inr ()), s) \<and> length (sq_out s) = 3 \<and> sq_dropped s = 0"
proof -
  let ?a = "\<lparr>arg_threshold = Some 500, arg_json = True\<rparr>"
  let ?itss = "[[sample_item 0xa0 700, sample_item 0xb0 100],
    [sample_item 0xb0 500, sample_item 0xa0 900]]"
  have "length (it_bytes (sample_item p e)) = slow_query_event_size" for p e
    using slow_query_event_bytes_length [of "sample_event p e"]
    by (simp add: sample_item_def sample_event_def slow_query_event_ok_def sql_max_def)
  moreover have "\<forall>it \<in> set (concat ?itss). it_writes it"
    by (simp add: sample_item_def)
  moreover have "length (accepted_items decode_slow_query_event (sq_accepts ?a)
      (concat ?itss)) = 3"
    by (simp add: sample_item_decodes) (simp add: sq_accepts_def threshold_ns_def sample_event_def)
  ultimately show ?thesis
    using sq_loop_output [of ?itss ?a] by auto
qed

lemma numbered_inj:
  assumes "distinct ps" "length ps < 2 ^ 32" "p \<in> set ps" "q \<in> set ps"
    "numbered ps p = numbered ps q"
  shows "p = q"
proof -
  let ?i = "\<lambda>p. length (takeWhile (\<lambda>q. q \<noteq> p) ps)"
  note pos = position_bound [OF assms(3)] position_bound [OF assms(4)]
  have "(of_nat (Suc (?i p)) :: u32) = of_nat (Suc (?i q))"
    using assms(3-5) by (simp add: numbered_def)
  moreover have "Suc (?i p) < 2 ^ LENGTH(32)" "Suc (?i q) < 2 ^ LENGTH(32)"
    using pos assms(2) by (simp_all add: Suc_le_eq [symmetric])
  ultimately have "Suc (?i p) = Suc (?i q)"
    by (rule of_nat_word_inj [rotated 2])
  then show ?thesis
    using pos by (metis Suc_inject)
qed

lemma numbered_nonzero:
  assumes "length ps < 2 ^ 32"
  shows "numbered ps p \<noteq> Some 0"
proof (cases "p \<in> set ps")
  case True
  let ?n = "length (takeWhile (\<lambda>q. q \<noteq> p) ps)"
  have "?n < length ps"
    using position_bound [OF True] by simp
  then have "unat (of_nat (Suc ?n) :: u32) = Suc ?n"
    using assms by (simp only: unat_of_nat) simp
  then have "(of_nat (Suc ?n) :: u32) \<noteq> 0"
    by (metis nat.distinct(1) unsigned_0)
  then show ?thesis
    using True by (simp add: numbered_def)
qed (simp add: numbered_def)

lemma numbered_dom: "dom (numbered ps) = set ps"
  by (auto simp: numbered_def split: if_splits)

lemma seen_set:
  "0 \<notin> set ps \<Longrightarrow> set (seen evs ps) = set ps \<union> ((\<lambda>x. sqe_attachment_id (snd x)) ` set evs - {0})"
  by (induction evs arbitrary: ps) (auto simp: seen_Cons)

text \<open>C28: as long as fewer than \<open>2 ^ 32\<close> attachments have been seen, the id table gives different ids
  to different attachments, none of them 0, and its keys are exactly the known attachments of
  the events that reached the threshold.\<close>

theorem ids_identify_attachments:
  assumes "\<forall>it \<in> set its. it_writes it"
    and "s = snd (drain_ring (sq_item a) its sq_loop_init)"
    and "card (dom (id_table s)) < 2 ^ 32"
  shows "inj_on (id_table s) (dom (id_table s)) \<and> (\<forall>p. id_table s p \<noteq> Some 0) \<and>
    dom (id_table s) = (\<lambda>x. sqe_attachment_id (snd x)) `
      set (accepted_items decode_slow_query_event (sq_accepts a) its) - {0}"
proof -
  let ?ps = "seen (accepted_items decode_slow_query_event (sq_accepts a) its) []"
  have table: "id_table s = numbered ?ps"
    using sq_drain_closed_form [OF assms(1) ids_ok_init, of a] assms(2) by (simp add: ids_ok_def)
  moreover have dist: "distinct ?ps"
    by (simp add: seen_distinct)
  moreover have "length ?ps < 2 ^ 32"
    using assms(3) distinct_card [OF dist] by (simp add: table numbered_dom)
  ultimately show ?thesis
    using numbered_inj [of ?ps] numbered_nonzero [of ?ps] seen_set [of "[]"]
    by (auto simp only: numbered_dom inj_on_def list.set empty_iff Un_empty_left not_False_eq_True)
qed

theorem ids_identify_attachments_witness:
  "dom (id_table (snd (drain_ring (sq_item \<lparr>arg_threshold = None, arg_json = True\<rparr>)
      [sample_item 0xa0 700, sample_item 0xb0 100, sample_item 0xa0 1] sq_loop_init))) = {0xa0, 0xb0} \<and>
   id_table (snd (drain_ring (sq_item \<lparr>arg_threshold = None, arg_json = True\<rparr>)
      [sample_item 0xa0 700, sample_item 0xb0 100, sample_item 0xa0 1] sq_loop_init)) 0xa0 \<noteq>
   id_table (snd (drain_ring (sq_item \<lparr>arg_threshold = None, arg_json = True\<rparr>)
      [sample_item 0xa0 700, sample_item 0xb0 100, sample_item 0xa0 1] sq_loop_init)) 0xb0"
proof -
  let ?a = "\<lparr>arg_threshold = None, arg_json = True\<rparr>"
  let ?its = "[sample_item 0xa0 700, sample_item 0xb0 100, sample_item 0xa0 1]"
  let ?s = "snd (drain_ring (sq_item ?a) ?its sq_loop_init)"
  have writes: "\<forall>it \<in> set ?its. it_writes it"
    by (simp add: sample_item_def)
  have "accepted_items decode_slow_query_event (sq_accepts ?a) ?its =
      [(''2026-01-01'', sample_event 0xa0 700), (''2026-01-01'', sample_event 0xb0 100),
       (''2026-01-01'', sample_event 0xa0 1)]"
    by (simp add: sample_item_decodes) (simp add: sq_accepts_def threshold_ns_def sample_item_def)
  moreover have "sqe_attachment_id (sample_event p e) = p" for p e
    by (simp add: sample_event_def)
  ultimately have atts: "(\<lambda>x. sqe_attachment_id (snd x)) `
      set (accepted_items decode_slow_query_event (sq_accepts ?a) ?its) - {0} = {0xa0, 0xb0}"
    by auto
  then have "dom (id_table ?s) = {0xa0, 0xb0}"
    using sq_drain_closed_form [OF writes ids_ok_init, of ?a] seen_set [of "[]"]
    by (simp only: ids_ok_def numbered_dom list.set empty_iff Un_empty_left not_False_eq_True)
  then show ?thesis
    using ids_identify_attachments [OF writes refl, of ?a] atts
    by (simp only: inj_on_def) auto
qed

text \<open>A printed duration keeps its unit's range and precision: seconds and milliseconds carry two
  decimals and are off by at most 0.51 of the last one (half a unit from rounding, the rest
  from the two double-precision operations), microseconds are cut to whole ones, nanoseconds
  are exact.\<close>

lemma printed_duration_accurate:
  defines "two v \<equiv> decimal (v div 100) @ ''.'' @ pad_zero 2 (decimal (v mod 100))"
  shows "(10 ^ 9 \<le> unat w \<longrightarrow> (\<exists>v. fmt_duration w = two v @ ''s'' \<and>
      \<bar>real v - real (unat w) / 10 ^ 7\<bar> \<le> 51 / 100)) \<and>
    (10 ^ 6 \<le> unat w \<and> unat w < 10 ^ 9 \<longrightarrow> (\<exists>v. fmt_duration w = two v @ ''ms'' \<and>
      \<bar>real v - real (unat w) / 10 ^ 4\<bar> \<le> 51 / 100)) \<and>
    (10 ^ 3 \<le> unat w \<and> unat w < 10 ^ 6 \<longrightarrow>
      fmt_duration w = decimal (unat w div 1000) @ ''us'') \<and>
    (unat w < 10 ^ 3 \<longrightarrow> fmt_duration w = decimal (unat w) @ ''ns'')"
  unfolding two_def using fmt_duration_forms [of w] by blast

lemma printed_duration_accurate_witness:
  "fmt_duration 999 = ''999ns'' \<and> fmt_duration 1999 = ''1us'' \<and>
   (\<exists>v. fmt_duration 1500000 = decimal (v div 100) @ ''.'' @ pad_zero 2 (decimal (v mod 100)) @ ''ms'' \<and>
     \<bar>real v - 150\<bar> \<le> 51 / 100)"
proof -
  have "decimal 999 = ''999''" "decimal 1 = ''1''"
    by code_simp+
  then show ?thesis
    using printed_duration_accurate [of 999] printed_duration_accurate [of 1999]
      printed_duration_accurate [of 1500000] by simp
qed

end
