(* ===== verification/Slowquery_Pipeline.thy ===== *)
theory Slowquery_Pipeline
  imports Slowquery_Claims Slowquery_User
begin

section \<open>tragach-slowquery: from the probes to the printed line\<close>

text \<open>
  The kernel side and the user side joined over the ring buffer: whatever the probes emit is
  decoded as it was, in order, and the printed SQL is the text the engine was given, up to the
  capture limit.
\<close>

subsection \<open>Through the ring\<close>

definition ring_items :: "(string \<times> slow_query_event) list \<Rightarrow> ring_item list" where
  "ring_items xs =
     map (\<lambda>(ts, ev). \<lparr>it_bytes = slow_query_event_bytes ev, it_ts = ts, it_writes = True\<rparr>) xs"

lemma ring_items_accepted:
  "\<forall>x \<in> set xs. slow_query_event_ok (snd x) \<Longrightarrow>
     accepted_items decode_slow_query_event accepts (ring_items xs) =
       filter (\<lambda>x. accepts (snd x)) xs"
proof (induction xs)
  case (Cons x xs)
  then show ?case
    using slow_query_decode_encode [of "snd x" "[]"]
    by (cases x) (simp add: ring_items_def)
qed (simp add: ring_items_def)

lemma ring_items_whole:
  "\<forall>x \<in> set xs. slow_query_event_ok (snd x) \<Longrightarrow> it \<in> set (ring_items xs) \<Longrightarrow>
     length (it_bytes it) = slow_query_event_size"
  by (auto simp: ring_items_def slow_query_event_bytes_length)

lemma pipeline_output:
  assumes "\<forall>x \<in> set xs. slow_query_event_ok (snd x)"
  defines "shown \<equiv> \<lambda>a. filter (\<lambda>x. sq_accepts a (snd x)) xs"
  shows "\<exists>s. sq_event_loop a [Readable (ring_items xs), CtrlC] sq_loop_init = (Some (Inr ()), s) \<and>
    sq_out s = map (sq_line a (seen (shown a) [])) (shown a) \<and> sq_dropped s = 0"
proof -
  let ?r = "drain_ring (sq_item a) (ring_items xs) sq_loop_init"
  have writes: "\<forall>it \<in> set (ring_items xs). it_writes it"
    by (auto simp: ring_items_def)
  have "short_items decode_slow_query_event (ring_items xs) = 0"
    using ring_items_whole [OF assms(1)]
    by (auto simp: short_items_def decode_slow_query_short filter_empty_conv)
  then have "fst ?r = Inr ()" "sq_dropped (snd ?r) = 0"
    using sq_tool.drain_accounts [OF writes, of a sq_loop_init] by (simp_all add: sq_loop_init_def)
  moreover have "sq_out (snd ?r) = map (sq_line a (seen (shown a) [])) (shown a)"
    using sq_drain_closed_form [OF writes ids_ok_init, of a] ring_items_accepted [OF assms(1)]
    by (simp add: shown_def sq_loop_init_def)
  moreover have "sq_event_loop a [Readable (ring_items xs), CtrlC] sq_loop_init =
      (case ?r of (Inl e, s) \<Rightarrow> (Some (Inl e), s) | (Inr _, s) \<Rightarrow> (Some (Inr ()), s))"
    by (cases ?r) (simp add: sq_event_loop_def split: sum.split)
  ultimately show ?thesis
    by (cases ?r) simp
qed

text \<open>C3: every event the probes put into the ring during a run arrives: the event loop drops none,
  filters by the threshold alone, and prints the remaining events in the order of emission with
  the fields they were emitted with.\<close>

theorem probes_to_output:
  assumes "\<forall>h \<in> set hs. sq_good h \<and> user_str_ok (snd h)"
    and "map snd xs = sq_events (sq_run hs sq_init)"
  shows "\<exists>s. sq_event_loop a [Readable (ring_items xs), CtrlC] sq_loop_init = (Some (Inr ()), s) \<and>
    sq_dropped s = 0 \<and>
    sq_out s = (let shown = filter (\<lambda>x. sq_accepts a (snd x)) xs
                in map (sq_line a (seen shown [])) shown)"
proof -
  have "\<forall>x \<in> set xs. slow_query_event_ok (snd x)"
  proof
    fix x assume "x \<in> set xs"
    then have "snd x \<in> set (sq_events (sq_run hs sq_init))"
      by (metis assms(2) image_eqI set_map)
    then show "slow_query_event_ok (snd x)"
      using events_well_formed_run [OF assms(1)] by blast
  qed
  from pipeline_output [OF this, of a] show ?thesis
    by (auto simp: Let_def)
qed

theorem probes_to_output_witness:
  "\<exists>s. sq_event_loop \<lparr>arg_threshold = Some 900, arg_json = True\<rparr>
      [Readable (ring_items [(''t'', immediate_event (sample_ctx 740 1900 [] None)
        (sample_capture 1000))]), CtrlC] sq_loop_init = (Some (Inr ()), s) \<and>
    length (sq_out s) = 1"
proof -
  let ?ev = "immediate_event (sample_ctx 740 1900 [] None) (sample_capture 1000)"
  let ?a = "\<lparr>arg_threshold = Some 900, arg_json = True\<rparr>"
  have "\<forall>h \<in> set sample_immediate_run. sq_good h \<and> user_str_ok (snd h)"
    by (simp add: sample_immediate_run_def sample_prepare_def)
  moreover have "map snd [(''t'', ?ev)] = sq_events (sq_run sample_immediate_run sq_init)"
    by (simp add: sample_immediate_run_events)
  moreover have "sq_accepts ?a ?ev"
    by (simp add: sq_accepts_def threshold_ns_def immediate_event_def sample_capture_def
        saturating_sub_def)
  ultimately show ?thesis
    using probes_to_output [of sample_immediate_run "[(''t'', ?ev)]" ?a] by auto
qed

subsection \<open>The text that is shown\<close>

text \<open>
  An event built from a capture of the text \<open>str\<close>, whose length was passed as \<open>l\<close> (0 if it was
  not).
\<close>

lemma captured_text_shown:
  assumes "copies_cstr c p str" "p \<noteq> 0" "0 \<notin> set str"
    "l = 0 \<or> l = of_nat (length str)" "length str < 2 ^ 32"
    "sqe_sql ev = take sql_max (ws_sql (capture_record c att l p))"
    "sqe_sql_len ev = ws_sql_len (capture_record c att l p)"
  shows "sql_str ev = from_utf8_lossy (take 511 str)"
proof -
  let ?buf = "take 511 str @ replicate (512 - length (take 511 str)) (0 :: u8)"
  have buf: "sqe_sql ev = ?buf"
    using assms(1,2,6) by (simp add: capture_record_cstr sql_max_def)
  have "unat (of_nat (length str) :: u64) = length str"
    using assms(5) by (intro unat_of_nat_small) simp
  then have "unat (ucast (of_nat (length str) :: u64) :: u32) = length str"
    using assms(5) by (simp add: unsigned_ucast_eq take_bit_nat_eq_self)
  moreover have "unat (of_nat (min (length str) 511) :: u32) = min (length str) 511"
    by (intro unat_of_nat_small) simp
  ultimately have len: "unat (sqe_sql_len ev) \<in> {length str, min (length str) 511}"
    using assms(1,2,4,7) by (auto simp: capture_record_cstr)
  let ?n = "min (unat (sqe_sql_len ev)) 512"
  have "takeWhile (\<lambda>b. b \<noteq> 0) (take ?n ?buf) = take 511 str"
  proof (cases "length str \<le> 511")
    case True
    then show ?thesis
      using len assms(3) by (auto simp: takeWhile_eq_all_conv)
  next
    case False
    have cut: "takeWhile (\<lambda>b. b \<noteq> 0) (take 511 str @ zs) = take 511 str"
      if "zs = [] \<or> zs = [0]" for zs
      using that assms(3) by (auto simp: takeWhile_append takeWhile_eq_all_conv dest: in_set_takeD)
    consider "?n = 511" | "?n = 512"
      using len False by auto
    then show ?thesis
    proof cases
      case 1
      then have "take ?n ?buf = take 511 str @ []"
        using False by simp
      then show ?thesis
        using cut [of "[]"] by simp
    next
      case 2
      then have "take ?n ?buf = take 511 str @ [0]"
        using False by simp
      then show ?thesis
        using cut [of "[0]"] by simp
    qed
  qed
  then show ?thesis
    by (simp add: sql_str_def buf sql_max_def)
qed

subsection \<open>From the engine's call to the printed line\<close>

lemma run_extends_events: "\<exists>evs. sq_events (sq_run hs s) = sq_events s @ evs"
proof (induction hs arbitrary: s)
  case (Cons h hs)
  then show ?case
    using Cons [of "sq_step h s"] by (cases h) (auto simp: sq_events_step)
qed simp

text \<open>
  The number of lines the loop prints for the events emitted so far: those that reach the
  threshold.
\<close>

definition printed_before :: "sq_args \<Rightarrow> sq_state \<Rightarrow> nat" where
  "printed_before a t = length (filter (sq_accepts a) (sq_events t))"

lemma event_printed:
  assumes good: "\<forall>h \<in> set (hs1 @ h # hs2). sq_good h \<and> user_str_ok (snd h)"
    and t: "t = sq_run hs1 sq_init" "sq_events (sq_step h t) = sq_events t @ [ev]"
    and ring: "map snd xs = sq_events (sq_run (hs1 @ h # hs2) sq_init)"
    and shown: "sq_accepts a ev" "arg_json a"
  shows "\<exists>s i ts. sq_event_loop a [Readable (ring_items xs), CtrlC] sq_loop_init =
      (Some (Inr ()), s) \<and>
    length (sq_out s) = printed_before a (sq_run (hs1 @ h # hs2) sq_init) \<and>
    printed_before a t < length (sq_out s) \<and>
    printed_before a (sq_step h t) = printed_before a t + 1 \<and>
    sq_out s ! printed_before a t = sq_write_json ts ev i \<and>
    (sqe_attachment_id ev \<noteq> 0 \<longrightarrow> i \<noteq> None)"
proof -
  let ?p = "\<lambda>x. sq_accepts a (snd x)"
  obtain evs where "map snd xs = sq_events t @ ev # evs"
    using ring t run_extends_events [of hs2 "sq_step h t"] by auto
  then obtain xs1 x xs2 where xs: "xs = xs1 @ x # xs2" "map snd xs1 = sq_events t" "snd x = ev"
    by (auto simp: map_eq_append_conv map_eq_Cons_conv)
  let ?ps = "seen (filter ?p xs) []"
  have "\<forall>x \<in> set xs. slow_query_event_ok (snd x)"
    using events_well_formed_run [OF good] by (metis image_eqI ring set_map)
  from pipeline_output [OF this, of a] obtain s where
    s: "sq_event_loop a [Readable (ring_items xs), CtrlC] sq_loop_init = (Some (Inr ()), s)"
      "sq_out s = map (sq_line a ?ps) (filter ?p xs)"
    by blast
  have n: "printed_before a t = length (filter ?p xs1)"
    by (simp add: printed_before_def filter_map o_def flip: xs(2))
  have split: "filter ?p xs = filter ?p xs1 @ x # filter ?p xs2"
    using shown(1) xs by simp
  have "x \<in> set (filter ?p xs)"
    unfolding split by simp
  then have "sqe_attachment_id ev \<noteq> 0 \<Longrightarrow> sqe_attachment_id ev \<in> set ?ps"
    using xs(3) seen_set [of "[]" "filter ?p xs"] by auto
  then have id: "sqe_attachment_id ev \<noteq> 0 \<longrightarrow> numbered ?ps (sqe_attachment_id ev) \<noteq> None"
    by (simp add: numbered_def)
  have line: "sq_line a ?ps x = sq_write_json (fst x) ev (numbered ?ps (sqe_attachment_id ev))"
    using shown(2) by (simp add: sq_line_def xs(3))
  have "printed_before a t < length (sq_out s)"
    unfolding s(2) n split by simp
  moreover have "sq_out s ! printed_before a t = sq_line a ?ps x"
    unfolding s(2) n by (subst (2) split) (simp add: nth_append)
  moreover have "printed_before a (sq_step h t) = printed_before a t + 1"
    using shown(1) by (simp add: printed_before_def t(2))
  moreover have "length (sq_out s) = printed_before a (sq_run (hs1 @ h # hs2) sq_init)"
    unfolding s(2) printed_before_def ring [symmetric] by (simp add: filter_map o_def)
  ultimately show ?thesis
    using s(1) id line by metis
qed

text \<open>
  A prepare or immediate entry that hands over the NUL-free text \<open>str\<close> with its length, on the
  attachment \<open>att\<close>.
\<close>

definition passes_text :: "sq_hit_ctx \<Rightarrow> u8 list \<Rightarrow> u64 \<Rightarrow> bool" where
  "passes_text c str att \<longleftrightarrow>
     (\<exists>p. reg_arg c 4 = Some p \<and> p \<noteq> 0 \<and> copies_cstr c p str) \<and>
     reg_arg c 3 = Some (of_nat (length str)) \<and> reg_arg c 1 = Some att \<and> att \<noteq> 0 \<and>
     str \<noteq> [] \<and> 0 \<notin> set str \<and> length str < 2 ^ 32 \<and> scratch_avail c"

text \<open>An event that carries a captured record, and what is shown of it.\<close>

definition carries :: "slow_query_event \<Rightarrow> with_sql \<Rightarrow> bool" where
  "carries ev w \<longleftrightarrow> sqe_attachment_id ev = ws_attachment_ptr w \<and> sqe_sql_len ev = ws_sql_len w \<and>
     sqe_sql_truncated ev = ws_sql_truncated w \<and> sqe_sql ev = take sql_max (ws_sql w)"

lemma carriers:
  "carries (immediate_event c w) w"
  "carries (request_event c start (Some (prepared_from w now))) w"
  by (simp_all add: carries_def immediate_event_def request_event_def prepared_from_def)

definition shows_text :: "sq_json_event \<Rightarrow> u8 list \<Rightarrow> bool" where
  "shows_text j str \<longleftrightarrow>
     jse_sql j = Some (string_of_bytes (from_utf8_lossy (take 511 str))) \<and>
     (jse_truncated j \<longleftrightarrow> 511 < length str) \<and>
     (valid_utf8 str \<and> length str \<le> 511 \<longrightarrow> jse_sql j = Some (string_of_bytes str))"

lemma passed_text_shown:
  assumes "passes_text c str att"
  obtains w where "captured c = Some w" "ws_ts_ns w = ktime c" "ws_attachment_ptr w = att"
    "\<And>ev i ts. carries ev w \<Longrightarrow> \<exists>j. sq_write_json ts ev i = SqJson j \<and> shows_text j str \<and>
       jse_att j = i \<and> jse_att_ptr j = Some (''0x'' @ lower_hex (unat att)) \<and>
       jse_tid j = sqe_tid ev \<and> jse_prepare_us j = sqe_prepare_ns ev div 1000 \<and>
       jse_execute_us j = sqe_execute_ns ev div 1000"
proof -
  let ?l = "of_nat (length str) :: u64"
  obtain p where p: "reg_arg c 4 = Some p" "p \<noteq> 0" "copies_cstr c p str"
    using assms by (auto simp: passes_text_def)
  let ?w = "capture_record c att ?l p"
  have str: "0 \<notin> set str" "str \<noteq> []" "length str < 2 ^ 32" "att \<noteq> 0"
    and "captured c = Some ?w"
    using assms p by (auto simp: passes_text_def captured_def)
  have att: "ws_ts_ns ?w = ktime c" "ws_attachment_ptr ?w = att"
    using p by (simp_all add: capture_record_cstr)
  have l: "unat ?l = length str"
    using str(3) by (intro unat_of_nat_small) simp
  then have "511 < ?l \<longleftrightarrow> 511 < length str"
    by (simp add: word_less_nat_alt)
  then have truncated: "ws_sql_truncated ?w \<noteq> 0 \<longleftrightarrow> 511 < length str"
    using p by (auto simp: capture_record_cstr)
  have shown: "sql_str ev = from_utf8_lossy (take 511 str)" if "carries ev ?w" for ev
    by (rule captured_text_shown [OF p(3,2) str(1) _ str(3), of ?l ev att])
      (use that in \<open>auto simp: carries_def\<close>)
  show ?thesis
    by (rule that [OF \<open>captured c = Some ?w\<close> att])
      (use truncated att str(4) lossy_keeps_valid [of str] in
        \<open>simp add: sq_write_json_def Let_def shown shows_text_def carries_def\<close>)
qed

text \<open>C11: an immediate execution whose text is passed with its length is reported, end to end: in a
  run from the empty state, with arbitrary hits before it, after it, and of other threads
  inside it, it adds exactly one line to the JSON output of the event loop, right after the lines
  of the events emitted before it, unless it is under the threshold. The line has exactly the
  text's first 511 bytes (a character cut in two shows as the replacement character), the
  truncation flag exactly when there were more, a valid text that fits verbatim, the attachment
  pointer in hexadecimal with a small id, the thread, prepare time 0 and the elapsed time of the
  call in microseconds. Assumed: the call's thread has no other immediate hit inside the call, the
  insert of the call is admitted, the per-CPU scratch slot is there and the ring has room.\<close>

theorem immediate_text_reported:
  assumes run: "run = pre @ (ImmediateEntry, i0) # hs @ (ImmediateExit, i1) # post"
      "\<forall>h \<in> set run. sq_good h \<and> user_str_ok (snd h)"
    and call: "passes_text i0 str att" "update_admits (with_sql_ops i0)"
      "sq_undisturbed (on_thread {ImmediateEntry, ImmediateExit}) (tid_of i0) hs
        (sq_run (pre @ [(ImmediateEntry, i0)]) sq_init)"
      "tid_of i1 = tid_of i0" "ring_room i1"
    and ring: "map snd xs = sq_events (sq_run run sq_init)"
    and args: "arg_json a"
      "\<forall>t. threshold_ns a = Some t \<longrightarrow> t \<le> saturating_sub (ktime i1) (ktime i0)"
    and line: "n = printed_before a (sq_run (pre @ (ImmediateEntry, i0) # hs) sq_init)"
  shows "\<exists>s j. sq_event_loop a [Readable (ring_items xs), CtrlC] sq_loop_init =
      (Some (Inr ()), s) \<and>
    length (sq_out s) = printed_before a (sq_run run sq_init) \<and>
    n < length (sq_out s) \<and> sq_out s ! n = SqJson j \<and>
    printed_before a (sq_run (pre @ (ImmediateEntry, i0) # hs @ [(ImmediateExit, i1)]) sq_init) =
      n + 1 \<and>
    shows_text j str \<and>
    jse_att_ptr j = Some (''0x'' @ lower_hex (unat att)) \<and> jse_att j \<noteq> None \<and>
    jse_tid j = tid_of i0 \<and> jse_prepare_us j = 0 \<and>
    jse_execute_us j = saturating_sub (ktime i1) (ktime i0) div 1000"
proof -
  let ?hs = "pre @ (ImmediateEntry, i0) # hs"
  let ?t = "sq_run ?hs sq_init"
  obtain w where w: "captured i0 = Some w" "ws_ts_ns w = ktime i0" "ws_attachment_ptr w = att"
    and shown: "\<And>ev i ts. carries ev w \<Longrightarrow> \<exists>j. sq_write_json ts ev i = SqJson j \<and>
      shows_text j str \<and> jse_att j = i \<and> jse_att_ptr j = Some (''0x'' @ lower_hex (unat att)) \<and>
      jse_tid j = sqe_tid ev \<and> jse_prepare_us j = sqe_prepare_ns ev div 1000 \<and>
      jse_execute_us j = sqe_execute_ns ev div 1000"
    using passed_text_shown [OF call(1)] by metis
  have "immediate_in_progress ?t (tid_of i1) = Some w"
    using sq_survives(3) [OF call(3)] call(2,4) run w(1) by (simp add: immediate_entry_stores)
  then have emits: "sq_events (sq_step (ImmediateExit, i1) ?t) = sq_events ?t @ [immediate_event i1 w]"
    using call(5) by (simp add: sq_events_step)
  have accepted: "sq_accepts a (immediate_event i1 w)"
    using args(2) by (simp add: sq_accepts_def immediate_event_def w(2))
  have good: "\<forall>h \<in> set (?hs @ (ImmediateExit, i1) # post). sq_good h \<and> user_str_ok (snd h)"
    using run by simp
  have xs: "map snd xs = sq_events (sq_run (?hs @ (ImmediateExit, i1) # post) sq_init)"
    using ring run(1) by simp
  obtain s i ts where s: "sq_event_loop a [Readable (ring_items xs), CtrlC] sq_loop_init =
      (Some (Inr ()), s)" "length (sq_out s) = printed_before a (sq_run run sq_init)"
    "n < length (sq_out s)"
    "printed_before a (sq_step (ImmediateExit, i1) ?t) = n + 1"
    "sq_out s ! n = sq_write_json ts (immediate_event i1 w) i" "i \<noteq> None"
    using event_printed [OF good refl emits xs accepted args(1)] call(1) w(3)
    by (auto simp: line run(1) immediate_event_def passes_text_def)
  then show ?thesis
    using shown [OF carriers(1) [of i1 w], of ts i] call(4)
    by (auto simp: immediate_event_def w(2))
qed

definition sample_explicit :: "u32 \<Rightarrow> u64 \<Rightarrow> sq_hit_ctx" where
  "sample_explicit t now = sample_ctx t now [1, 0xa000, 0, 8, 0xb000] None"

lemma sample_explicit_simps [simp]:
  "tid_of (sample_explicit t now) = t" "ktime (sample_explicit t now) = now"
  "with_sql_ops (sample_explicit t now) = roomy_ops"
  "sq_good (p, sample_explicit t now)" "user_str_ok (sample_explicit t now)"
  by (simp_all add: sample_explicit_def)

lemma sample_explicit_passes: "passes_text (sample_explicit t now) select_text 0xa000"
proof -
  have "length select_text = 8" "0 \<notin> set select_text" "select_text \<noteq> []"
    by (simp_all add: select_text_def)
  then show ?thesis
    by (simp add: passes_text_def sample_explicit_def)
qed

lemma captured_explicit: "captured (sample_explicit t now) = Some (sample_capture now)"
  by (simp add: sample_explicit_def captured_def sample_capture_def
      capture_record_cstr [OF sample_ctx_simps(7)] select_text_def)

lemma select_shown:
  "shows_text j select_text \<Longrightarrow> jse_sql j = Some ''SELECT 1'' \<and> \<not> jse_truncated j"
proof -
  have "valid_utf8 select_text" "string_of_bytes select_text = ''SELECT 1''"
    by (rule ascii_valid) (simp add: select_text_def, code_simp)
  moreover have "length select_text = 8"
    by (simp add: select_text_def)
  ultimately show "shows_text j select_text \<Longrightarrow> jse_sql j = Some ''SELECT 1'' \<and> \<not> jse_truncated j"
    by (auto simp: shows_text_def)
qed

theorem immediate_text_reported_witness:
  "\<exists>s j. sq_event_loop \<lparr>arg_threshold = Some 3000000, arg_json = True\<rparr>
      [Readable (ring_items [(''t'', immediate_event (sample_ctx 740 3101000 [] None)
        (sample_capture 1000))]), CtrlC] sq_loop_init = (Some (Inr ()), s) \<and>
    0 < length (sq_out s) \<and> sq_out s ! 0 = SqJson j \<and>
    jse_sql j = Some ''SELECT 1'' \<and> \<not> jse_truncated j \<and>
    jse_execute_us j = saturating_sub 3101000 1000 div 1000"
proof -
  let ?i0 = "sample_explicit 740 1000" and ?i1 = "sample_ctx 740 3101000 [] None"
  let ?run = "[] @ (ImmediateEntry, ?i0) # [] @ (ImmediateExit, ?i1) # []"
  let ?a = "\<lparr>arg_threshold = Some 3000000, arg_json = True\<rparr>"
  have events: "map snd [(''t'', immediate_event ?i1 (sample_capture 1000))] =
      sq_events (sq_run ?run sq_init)"
    by (simp add: sq_events_step immediate_in_progress_step captured_explicit)
  have good: "\<forall>h \<in> set ?run. sq_good h \<and> user_str_ok (snd h)"
    by simp
  have slow: "\<forall>t. threshold_ns ?a = Some t \<longrightarrow> t \<le> saturating_sub (ktime ?i1) (ktime ?i0)"
    by (simp add: threshold_ns_def saturating_sub_def)
  have first: "0 = printed_before ?a (sq_run ([] @ (ImmediateEntry, ?i0) # []) sq_init)"
    by (simp add: printed_before_def sq_events_step)
  have json: "arg_json ?a"
    by simp
  from immediate_text_reported [OF refl good sample_explicit_passes _ _ _ _ events json slow first]
    select_shown
  show ?thesis
    by (auto simp: sq_undisturbed_Nil)
qed

text \<open>C15: a statement that is prepared, with its text passed by length, and later executed by any
  thread is reported, end to end: in a run from the empty state each execution adds exactly one
  line to the JSON output, right after the lines of the events emitted before it, unless the
  execute time is under the threshold. The line has the first 511 bytes of the text that was
  prepared, the truncation flag exactly when there were more, a valid text that fits verbatim,
  the preparing attachment's pointer and a small id, the executing thread, and the elapsed
  times of the prepare call and of the execute call in microseconds. Assumed: neither call's
  thread has another hit of that call inside it; no prepare exit between returns the same
  request pointer again or evicts the statement; the inserts are admitted, the scratch slots are
  there and the ring has room.\<close>

theorem statement_text_reported:
  assumes run: "run = pre @ (PrepareEntry, p0) # as @ (PrepareExit, p1) # bs @
        (ExecuteEntry, x0) # cs @ (ExecuteExit, x1) # post"
      "\<forall>h \<in> set run. sq_good h \<and> user_str_ok (snd h)"
    and prepare: "passes_text p0 str att" "update_admits (with_sql_ops p0)"
      "s0 = sq_run (pre @ [(PrepareEntry, p0)]) sq_init"
      "sq_undisturbed (on_thread {PrepareEntry, PrepareExit}) (tid_of p0) as s0"
    and prepared: "update_admits (prepared_ops p1)" "scratch_avail p1" "tid_of p1 = tid_of p0"
      "reg_ret p1 = Some r" "r \<noteq> 0"
      "s1 = sq_run (as @ [(PrepareExit, p1)]) s0"
    and kept: "sq_undisturbed touches_statement r (bs @ (ExecuteEntry, x0) # cs) s1"
    and execute: "update_admits (execute_ops x0)" "reg_arg x0 2 = Some r"
      "sq_undisturbed (on_thread {ExecuteEntry, ExecuteExit}) (tid_of x0) cs
        (sq_run (bs @ [(ExecuteEntry, x0)]) s1)"
      "tid_of x1 = tid_of x0" "ring_room x1"
    and t: "t = sq_run (bs @ (ExecuteEntry, x0) # cs) s1"
    and ring: "map snd xs = sq_events (sq_run run sq_init)"
    and args: "arg_json a"
      "\<forall>t. threshold_ns a = Some t \<longrightarrow> t \<le> saturating_sub (ktime x1) (ktime x0)"
  shows "\<exists>s j. sq_event_loop a [Readable (ring_items xs), CtrlC] sq_loop_init =
      (Some (Inr ()), s) \<and>
    length (sq_out s) = printed_before a (sq_run run sq_init) \<and>
    printed_before a t < length (sq_out s) \<and> sq_out s ! printed_before a t = SqJson j \<and>
    printed_before a (sq_step (ExecuteExit, x1) t) = printed_before a t + 1 \<and>
    shows_text j str \<and>
    jse_att_ptr j = Some (''0x'' @ lower_hex (unat att)) \<and> jse_att j \<noteq> None \<and>
    jse_tid j = tid_of x0 \<and>
    jse_prepare_us j = saturating_sub (ktime p1) (ktime p0) div 1000 \<and>
    jse_execute_us j = saturating_sub (ktime x1) (ktime x0) div 1000"
proof -
  let ?hs = "pre @ (PrepareEntry, p0) # as @ (PrepareExit, p1) # bs @ (ExecuteEntry, x0) # cs"
  obtain w where w: "captured p0 = Some w" "ws_ts_ns w = ktime p0" "ws_attachment_ptr w = att"
    and shown: "\<And>ev i ts. carries ev w \<Longrightarrow> \<exists>j. sq_write_json ts ev i = SqJson j \<and>
      shows_text j str \<and> jse_att j = i \<and> jse_att_ptr j = Some (''0x'' @ lower_hex (unat att)) \<and>
      jse_tid j = sqe_tid ev \<and> jse_prepare_us j = sqe_prepare_ns ev div 1000 \<and>
      jse_execute_us j = sqe_execute_ns ev div 1000"
    using passed_text_shown [OF prepare(1)] by metis
  let ?ev = "request_event x1 (ktime x0) (Some (prepared_from w (ktime p1)))"
  have "prepared_statements (sq_run ((PrepareEntry, p0) # as @ [(PrepareExit, p1)])
      (sq_run pre sq_init)) r = Some (prepared_from w (ktime p1))"
    by (rule prepare_call_stores) (use run prepare prepared w(1) in auto)
  then have "prepared_statements t r = Some (prepared_from w (ktime p1))"
    using sq_survives(6) [OF kept] by (simp add: t prepare(3) prepared(6))
  moreover have "sq_good (ExecuteEntry, x0)"
    using run by simp
  ultimately have emits: "sq_events (sq_step (ExecuteExit, x1) t) = sq_events t @ [?ev]"
    using execute_call_emits [where ?x0.0 = x0 and ?x1.0 = x1 and hs = cs and s = "sq_run bs s1"
        and r = r and t = t] execute prepared(5) by (simp add: t)
  have accepted: "sq_accepts a ?ev"
    using args(2) by (simp add: sq_accepts_def request_event_def)
  have good: "\<forall>h \<in> set (?hs @ (ExecuteExit, x1) # post). sq_good h \<and> user_str_ok (snd h)"
    using run by simp
  have state: "t = sq_run ?hs sq_init"
    by (simp add: t prepare(3) prepared(6))
  have xs: "map snd xs = sq_events (sq_run (?hs @ (ExecuteExit, x1) # post) sq_init)"
    using ring run(1) by simp
  obtain s i ts where s: "sq_event_loop a [Readable (ring_items xs), CtrlC] sq_loop_init =
      (Some (Inr ()), s)" "length (sq_out s) = printed_before a (sq_run run sq_init)"
    "printed_before a t < length (sq_out s)"
    "printed_before a (sq_step (ExecuteExit, x1) t) = printed_before a t + 1"
    "sq_out s ! printed_before a t = sq_write_json ts ?ev i" "i \<noteq> None"
    using event_printed [OF good state emits xs accepted args(1)] prepare(1) w(3)
    by (auto simp: run(1) request_event_def prepared_from_def passes_text_def)
  then show ?thesis
    using shown [OF carriers(2) [of x1 "ktime x0" w "ktime p1"], of ts i] execute(4)
    by (auto simp: request_event_def prepared_from_def w(2))
qed

theorem statement_text_reported_witness:
  "\<exists>s j. sq_event_loop \<lparr>arg_threshold = Some 500000, arg_json = True\<rparr>
      [Readable (ring_items [(''t'', request_event (sample_ctx 741 2500000 [] None) 2000000
        (Some (prepared_from (sample_capture 1000) 801000)))]), CtrlC] sq_loop_init =
      (Some (Inr ()), s) \<and>
    0 < length (sq_out s) \<and> sq_out s ! 0 = SqJson j \<and>
    jse_sql j = Some ''SELECT 1'' \<and> \<not> jse_truncated j \<and> jse_tid j = 741 \<and>
    jse_prepare_us j = 800 \<and> jse_execute_us j = 500"
proof -
  let ?p0 = "sample_explicit 740 1000" and ?p1 = "sample_ctx 740 801000 [] (Some 0xd0)"
  let ?x0 = "sample_ctx 741 2000000 [0, 0, 0xd0] None" and ?x1 = "sample_ctx 741 2500000 [] None"
  let ?run = "[] @ (PrepareEntry, ?p0) # [] @ (PrepareExit, ?p1) # [] @ (ExecuteEntry, ?x0) # [] @
    (ExecuteExit, ?x1) # []"
  let ?a = "\<lparr>arg_threshold = Some 500000, arg_json = True\<rparr>"
  let ?t = "sq_run ([] @ (ExecuteEntry, ?x0) # []) (sq_run ([] @ [(PrepareExit, ?p1)])
    (sq_run ([] @ [(PrepareEntry, ?p0)]) sq_init))"
  have events: "map snd [(''t'', request_event ?x1 2000000
      (Some (prepared_from (sample_capture 1000) 801000)))] = sq_events (sq_run ?run sq_init)"
    by (simp add: sq_events_step execute_in_progress_step prepared_statements_step
        prepare_in_progress_step captured_explicit Let_def)
  have good: "\<forall>h \<in> set ?run. sq_good h \<and> user_str_ok (snd h)"
    by simp
  have slow: "\<forall>t. threshold_ns ?a = Some t \<longrightarrow> t \<le> saturating_sub (ktime ?x1) (ktime ?x0)"
    by (simp add: threshold_ns_def saturating_sub_def)
  have kept: "sq_undisturbed touches_statement 0xd0 ([] @ (ExecuteEntry, ?x0) # []) s" for s
    by (simp add: sq_undisturbed_Nil sq_undisturbed_Cons touches_statement_def)
  have json: "arg_json ?a"
    by simp
  have first: "printed_before ?a ?t = 0"
    by (simp add: printed_before_def sq_events_step)
  have "saturating_sub (ktime ?p1) (ktime ?p0) div 1000 = 800"
    "saturating_sub (ktime ?x1) (ktime ?x0) div 1000 = 500"
    by (simp_all add: saturating_sub_def)
  with statement_text_reported [OF refl good sample_explicit_passes _ refl _ _ _ _ _ _ refl kept
      _ _ _ _ _ refl events json slow] select_shown first
  show ?thesis
    by (auto simp: sq_undisturbed_Nil)
qed

end
