(* ===== verification/Slowquery_Invariant.thy ===== *)
theory Slowquery_Invariant
  imports Slowquery_Claims
begin

section \<open>tragach-slowquery: the invariant of the state\<close>

text \<open>
  What holds of the maps, scratch slots and ring after every hit: the fixed-size SQL buffers have
  their size, flags are 0 or 1, no null pointer is a key or a stored target, and no map outgrows
  the size it was declared with, provided the kernel keeps its own bounds. The records stored
  under the kernel's pointers are therefore always safe to copy.
\<close>

definition with_sql_ok :: "with_sql \<Rightarrow> bool" where
  "with_sql_ok w \<longleftrightarrow> length (ws_sql w) = sql_max \<and> ws_sql_truncated w \<in> {0, 1}"

definition prepared_ok :: "prepared_statement \<Rightarrow> bool" where
  "prepared_ok p \<longleftrightarrow> length (ps_sql p) = sql_max \<and> ps_sql_truncated p \<in> {0, 1}"

definition event_ok :: "slow_query_event \<Rightarrow> bool" where
  "event_ok ev \<longleftrightarrow> slow_query_event_ok ev \<and> sqe_sql_truncated ev \<in> {0, 1} \<and> sqe_pad ev = 0"

text \<open>The declared sizes of the maps.\<close>

definition in_flight_max :: nat where
  "in_flight_max = 8192"

definition lru_max :: nat where
  "lru_max = 1024"

definition sizes_ok :: "sq_state \<Rightarrow> bool" where
  "sizes_ok s \<longleftrightarrow>
     map_bounded in_flight_max (prepare_in_progress s) \<and>
     map_bounded in_flight_max (execute_in_progress s) \<and>
     map_bounded in_flight_max (immediate_in_progress s) \<and>
     map_bounded in_flight_max (opencursor_in_progress s) \<and>
     map_bounded in_flight_max (fetch_in_progress s) \<and>
     map_bounded lru_max (prepared_statements s) \<and> map_bounded lru_max (open_cursors s)"

definition entries_ok :: "sq_state \<Rightarrow> bool" where
  "entries_ok s \<longleftrightarrow>
     (\<forall>t w. prepare_in_progress s t = Some w \<longrightarrow> with_sql_ok w) \<and>
     (\<forall>t w. immediate_in_progress s t = Some w \<longrightarrow> with_sql_ok w) \<and>
     (\<forall>t e. execute_in_progress s t = Some e \<longrightarrow> ee_dsql_request_ptr e \<noteq> 0) \<and>
     (\<forall>t k. fetch_in_progress s t = Some k \<longrightarrow> k \<noteq> 0) \<and>
     (\<forall>r p. prepared_statements s r = Some p \<longrightarrow> r \<noteq> 0 \<and> prepared_ok p) \<and>
     (\<forall>k oc. open_cursors s k = Some oc \<longrightarrow> k \<noteq> 0)"

definition scratch_ok :: "sq_state \<Rightarrow> bool" where
  "scratch_ok s \<longleftrightarrow>
     (\<forall>n. with_sql_ok (with_sql_scratch s n)) \<and> (\<forall>n. prepared_ok (prepared_scratch s n))"

definition sq_state_ok :: "sq_state \<Rightarrow> bool" where
  "sq_state_ok s \<longleftrightarrow>
     entries_ok s \<and> scratch_ok s \<and> (\<forall>ev \<in> set (sq_events s). event_ok ev) \<and> sizes_ok s"

text \<open>The kernel keeps the declared sizes.\<close>

definition keeps_sizes :: "sq_hit_ctx \<Rightarrow> bool" where
  "keeps_sizes c \<longleftrightarrow>
     update_bounded in_flight_max (with_sql_ops c) \<and> update_bounded in_flight_max (execute_ops c) \<and>
     update_bounded in_flight_max (opencursor_ops c) \<and> update_bounded in_flight_max (fetch_ops c) \<and>
     update_bounded lru_max (prepared_ops c) \<and> update_bounded lru_max (cursors_ops c)"

subsection \<open>Each part is preserved\<close>

lemma captured_ok: "captured c = Some w \<Longrightarrow> user_str_ok c \<Longrightarrow> with_sql_ok w"
  using captured_sql_length captured_truncated by (auto simp: with_sql_ok_def)

lemma prepared_from_ok: "with_sql_ok w \<Longrightarrow> prepared_ok (prepared_from w now)"
  by (simp add: with_sql_ok_def prepared_ok_def prepared_from_def)

lemma with_sql_scratch_step:
  "with_sql_scratch (sq_step (p, c) s) =
     (if p \<in> {PrepareEntry, ImmediateEntry}
      then (case captured c of None \<Rightarrow> with_sql_scratch s
            | Some w \<Rightarrow> (with_sql_scratch s)(cpu c := w))
      else with_sql_scratch s)"
  by (cases p)
    (auto simp: sq_step_def sq_bodies capture_eq Let_def case_prod_beta split: option.splits)

lemma prepared_scratch_step:
  "prepared_scratch (sq_step (p, c) s) =
     (case (p, prepare_in_progress s (tid_of c), reg_ret c) of
        (PrepareExit, Some w, Some r) \<Rightarrow>
          if r = 0 \<or> \<not> scratch_avail c then prepared_scratch s
          else (prepared_scratch s)(cpu c := prepared_from w (ktime c))
      | _ \<Rightarrow> prepared_scratch s)"
  by (cases p)
    (auto simp: sq_step_def sq_bodies capture_eq prepared_scratch_overwrite Let_def case_prod_beta
      split: option.splits)

lemma scratch_ok_step:
  assumes "entries_ok s" "scratch_ok s" "user_str_ok c"
  shows "scratch_ok (sq_step (p, c) s)"
  using assms captured_ok [of c] prepared_from_ok
  by (auto simp: scratch_ok_def entries_ok_def with_sql_scratch_step prepared_scratch_step
      split: option.splits sq_probe.splits)

lemma entries_ok_step:
  assumes "entries_ok s" "sq_good (p, c)" "user_str_ok c"
  shows "entries_ok (sq_step (p, c) s)"
  unfolding entries_ok_def
proof (intro conjI allI impI)
  fix t w assume "prepare_in_progress (sq_step (p, c) s) t = Some w"
  then consider "prepare_in_progress s t = Some w" | "opens_prepare s (p, c) t w"
    using prepare_flight.origin [OF assms(2)] by blast
  then show "with_sql_ok w"
    using assms(1) captured_ok assms(3) by cases (auto simp: entries_ok_def opens_prepare_def)
next
  fix t w assume "immediate_in_progress (sq_step (p, c) s) t = Some w"
  then consider "immediate_in_progress s t = Some w" | "opens_immediate s (p, c) t w"
    using immediate_flight.origin [OF assms(2)] by blast
  then show "with_sql_ok w"
    using assms(1) captured_ok assms(3) by cases (auto simp: entries_ok_def opens_immediate_def)
next
  fix t e assume "execute_in_progress (sq_step (p, c) s) t = Some e"
  then consider "execute_in_progress s t = Some e" | "opens_execute s (p, c) t e"
    using execute_flight.origin [OF assms(2)] by blast
  then show "ee_dsql_request_ptr e \<noteq> 0"
    using assms(1)  by cases (auto simp: entries_ok_def opens_execute_def)
next
  fix t k assume "fetch_in_progress (sq_step (p, c) s) t = Some k"
  then consider "fetch_in_progress s t = Some k" | "opens_fetch s (p, c) t k"
    using fetch_flight.origin [OF assms(2)] by blast
  then show "k \<noteq> 0"
    using assms(1)  by cases (auto simp: entries_ok_def opens_fetch_def)
next
  fix r q assume "prepared_statements (sq_step (p, c) s) r = Some q"
  then consider "prepared_statements s r = Some q" | "opens_statement s (p, c) r q"
    using statement_table.origin [OF assms(2)] by blast
  then show "r \<noteq> 0" "prepared_ok q"
    using assms(1) prepared_from_ok by (cases; auto simp: entries_ok_def opens_statement_def)+
next
  fix k oc assume "open_cursors (sq_step (p, c) s) k = Some oc"
  then consider "open_cursors s k = Some oc" | "opens_cursor s (p, c) k oc"
    using cursor_table.origin [OF assms(2)] by blast
  then show "k \<noteq> 0"
    using assms(1) by cases (auto simp: entries_ok_def opens_cursor_def)
qed

lemma request_event_ok:
  "(\<And>p. known = Some p \<Longrightarrow> prepared_ok p) \<Longrightarrow> event_ok (request_event c since known)"
  by (cases known) (simp_all add: event_ok_def request_event_def slow_query_event_ok_def prepared_ok_def)

lemma immediate_event_ok: "with_sql_ok w \<Longrightarrow> event_ok (immediate_event c w)"
  by (simp add: event_ok_def immediate_event_def slow_query_event_ok_def with_sql_ok_def)

lemma emitted_ok:
  assumes "entries_ok s" "emitted p c s = Some ev"
  shows "event_ok ev"
proof -
  have "event_ok (request_event c since (prepared_statements s r))" for since r
    using assms(1) by (intro request_event_ok) (simp add: entries_ok_def)
  moreover have "immediate_in_progress s t = Some w \<Longrightarrow> event_ok (immediate_event c w)" for t w
    using assms(1) by (intro immediate_event_ok) (simp add: entries_ok_def)
  ultimately show ?thesis
    using assms(2) by (cases p) (auto split: option.splits if_splits)
qed

lemma sizes_ok_step:
  assumes "sizes_ok s" "sq_good (p, c)" "keeps_sizes c"
  shows "sizes_ok (sq_step (p, c) s)"
proof -
  have laws: "remove_ok (with_sql_ops c)" "remove_ok (execute_ops c)" "remove_ok (opencursor_ops c)"
    "remove_ok (fetch_ops c)" "remove_ok (prepared_ops c)" "remove_ok (cursors_ops c)"
    using assms(2) map_ops_remove_ok by (auto simp: sq_good_def sq_kernel_ok_def)
  show ?thesis
    using assms(1,3) laws
    by (cases p)
      (auto simp: sizes_ok_def keeps_sizes_def state_simps Let_def bounded_update bounded_remove
        split: option.splits)
qed

lemma sq_state_ok_step:
  assumes "sq_state_ok s" "sq_good h \<and> user_str_ok (snd h) \<and> keeps_sizes (snd h)"
  shows "sq_state_ok (sq_step h s)"
proof -
  obtain p c where h: "h = (p, c)" by fastforce
  have "\<forall>ev \<in> set (sq_events (sq_step (p, c) s)). event_ok ev"
    using assms(1) emitted_ok [of s p c]
    by (auto simp: sq_state_ok_def sq_events_step split: option.splits)
  then show ?thesis
    using assms entries_ok_step [of s p c] scratch_ok_step [of s c p] sizes_ok_step [of s p c]
    by (simp add: sq_state_ok_def h)
qed

lemma sq_state_ok_init: "sq_state_ok sq_init"
  by (simp add: sq_state_ok_def entries_ok_def scratch_ok_def sizes_ok_def sq_init_def
      with_sql_ok_def prepared_ok_def)

text \<open>C19: after any hits the state is well formed: every SQL buffer in a map, a scratch slot or an
  event has exactly 512 bytes and a flag of 0 or 1, no null pointer is a key or an execute or
  fetch target, events have a zero padding, and no map holds more entries than its declared size
  (8192 in-flight calls, 1024 statements and cursors), as long as the kernel keeps those sizes
  and the string helper stays within its buffer.\<close>

theorem state_well_formed:
  assumes "\<forall>h \<in> set hs. sq_good h \<and> user_str_ok (snd h) \<and> keeps_sizes (snd h)"
  shows "sq_state_ok (sq_run hs sq_init)"
  unfolding sq_run_def
  by (rule fold_invariant_run) (use assms sq_state_ok_step sq_state_ok_init in blast)+

text \<open>A kernel that keeps the declared sizes, and an immediate execution it runs.\<close>

definition sized_ctx :: "sq_hit_ctx \<Rightarrow> sq_hit_ctx" where
  "sized_ctx c = c\<lparr>with_sql_ops := capped_ops in_flight_max, execute_ops := capped_ops in_flight_max,
     opencursor_ops := capped_ops in_flight_max, fetch_ops := capped_ops in_flight_max,
     prepared_ops := lru_capped_ops lru_max, cursors_ops := lru_capped_ops lru_max\<rparr>"

lemma sized_ctx_ok: "sq_good (p, sized_ctx c)" "keeps_sizes (sized_ctx c)"
  "user_str_ok (sized_ctx c) \<longleftrightarrow> user_str_ok c"
  by (simp_all add: sized_ctx_def sq_good_def sq_kernel_ok_def keeps_sizes_def lru_max_def
      user_str_ok_def)

theorem state_well_formed_witness:
  "sq_state_ok (sq_run [(PrepareEntry, sized_ctx (sample_prepare 740 1000)),
     (PrepareExit, sized_ctx (sample_ctx 740 1800 [] (Some 0xd0)))] sq_init)"
proof -
  have "user_str_ok (sample_prepare 740 1000)"
    by (simp add: sample_prepare_def)
  then show ?thesis
    by (intro state_well_formed) (simp add: sized_ctx_ok)
qed

end
