(* ===== verification/Slowquery_Eviction.thy ===== *)
theory Slowquery_Eviction
  imports Slowquery_Claims "HOL-Library.Sublist"
begin

section \<open>tragach-slowquery: what eviction costs\<close>

text \<open>
  The statement and cursor tables are LRU maps: the kernel may drop any of their entries to make
  room. This theory compares a run on such a kernel with the same hits on a kernel whose two
  tables have no limit, by a simulation: the in-flight tables agree, and the lossy tables hold
  only entries the unlimited ones hold. So eviction can turn an event into one of an unknown
  statement and can lose the event of an evicted cursor, and nothing else: it never attributes
  an execution to another statement and never changes a duration.
\<close>

definition unlimited :: "sq_hit_ctx \<Rightarrow> sq_hit_ctx" where
  "unlimited c = c\<lparr>prepared_ops := roomy_ops, cursors_ops := roomy_ops\<rparr>"

abbreviation unlimited_hits :: "sq_hit list \<Rightarrow> sq_hit list" where
  "unlimited_hits hs \<equiv> map (map_prod id unlimited) hs"

text \<open>The event of the same request when its statement is not in the table.\<close>

definition forget :: "slow_query_event \<Rightarrow> slow_query_event" where
  "forget ev = ev\<lparr>sqe_prepare_ns := 0, sqe_attachment_id := 0, sqe_sql_len := 0,
     sqe_sql_truncated := 0, sqe_sql := replicate sql_max 0\<rparr>"

definition degraded :: "slow_query_event \<Rightarrow> slow_query_event \<Rightarrow> bool" where
  "degraded ev full \<longleftrightarrow> ev = full \<or> ev = forget full"

definition lossy :: "sq_state \<Rightarrow> sq_state \<Rightarrow> bool" where
  "lossy s t \<longleftrightarrow>
     prepare_in_progress s = prepare_in_progress t \<and>
     execute_in_progress s = execute_in_progress t \<and>
     immediate_in_progress s = immediate_in_progress t \<and>
     opencursor_in_progress s = opencursor_in_progress t \<and>
     fetch_in_progress s = fetch_in_progress t \<and>
     prepared_statements s \<subseteq>\<^sub>m prepared_statements t \<and> open_cursors s \<subseteq>\<^sub>m open_cursors t"

lemma unlimited_simps [simp]:
  "tid_of (unlimited c) = tid_of c" "ktime (unlimited c) = ktime c"
  "reg_arg (unlimited c) = reg_arg c" "reg_ret (unlimited c) = reg_ret c"
  "ring_room (unlimited c) = ring_room c" "scratch_avail (unlimited c) = scratch_avail c"
  "with_sql_ops (unlimited c) = with_sql_ops c" "execute_ops (unlimited c) = execute_ops c"
  "opencursor_ops (unlimited c) = opencursor_ops c" "fetch_ops (unlimited c) = fetch_ops c"
  "prepared_ops (unlimited c) = roomy_ops" "cursors_ops (unlimited c) = roomy_ops"
  "captured (unlimited c) = captured c"
  "request_event (unlimited c) = request_event c" "immediate_event (unlimited c) = immediate_event c"
  by (simp_all add: unlimited_def tid_of_def captured_def capture_record_def
      request_event_def [abs_def] immediate_event_def [abs_def] split: option.split)

subsection \<open>The simulation\<close>

lemma lru_update_le:
  assumes "lru_ops_ok ops" "update_admits ops" "m \<subseteq>\<^sub>m n"
  shows "snd (map_update ops m k v) \<subseteq>\<^sub>m n(k \<mapsto> v)"
proof -
  obtain m' where "map_update ops m k v = (Inr (), m')" "m' \<subseteq>\<^sub>m m(k \<mapsto> v)"
    by (rule lru_update_admitted [OF assms(1,2), of m k v])
  then show ?thesis
    using map_le_trans [OF _ map_le_upd_same [OF assms(3)]] by simp
qed

definition lossy_hit :: "sq_hit \<Rightarrow> bool" where
  "lossy_hit h \<longleftrightarrow>
     sq_good h \<and> update_admits (prepared_ops (snd h)) \<and> update_admits (cursors_ops (snd h))"

lemma lossy_hit_step:
  assumes "lossy s t" "lossy_hit (p, c)"
  shows "lossy (sq_step (p, c) s) (sq_step (p, unlimited c) t)"
proof -
  have laws: "lru_ops_ok (prepared_ops c)" "update_admits (prepared_ops c)"
      "lru_ops_ok (cursors_ops c)" "update_admits (cursors_ops c)"
    using assms(2) by (auto simp: lossy_hit_def sq_good_def sq_kernel_ok_def)
  have "prepared_statements (sq_step (p, c) s) \<subseteq>\<^sub>m prepared_statements (sq_step (p, unlimited c) t)"
    using assms(1) lru_update_le [OF laws(1,2)]
    by (auto simp: lossy_def prepared_statements_step Let_def split: sq_probe.split option.split)
  moreover have "open_cursors (sq_step (p, c) s) \<subseteq>\<^sub>m open_cursors (sq_step (p, unlimited c) t)"
    using assms(1) lru_update_le [OF laws(3,4)] lru_remove [OF laws(3)]
    by (auto simp: lossy_def open_cursors_step Let_def map_le_del_same
        split: sq_probe.split option.split) (auto simp: map_le_def dom_def)
  ultimately show ?thesis
    using assms(1)
    by (cases p)
      (auto simp: lossy_def prepare_in_progress_step execute_in_progress_step Let_def
        immediate_in_progress_step opencursor_in_progress_step fetch_in_progress_step
        split: option.split)
qed

lemma request_degraded:
  "m \<subseteq>\<^sub>m n \<Longrightarrow> degraded (request_event c since (m r)) (request_event c since (n r))"
  by (cases "m r") (auto simp: degraded_def forget_def request_event_def dest: map_leD)

lemma emitted_degraded:
  assumes "lossy s t"
  shows "case (emitted p c s, emitted p (unlimited c) t) of
      (None, None) \<Rightarrow> True | (Some ev, Some full) \<Rightarrow> degraded ev full
    | (None, Some full) \<Rightarrow> p = FetchNextExit | (Some ev, None) \<Rightarrow> False"
proof (cases p)
  case ImmediateExit
  then show ?thesis
    using assms by (auto simp: lossy_def degraded_def split: option.split)
next
  case ExecuteExit
  then show ?thesis
    using assms request_degraded by (auto simp: lossy_def split: option.split)
next
  case FetchNextExit
  have cursors: "open_cursors s k = Some oc \<Longrightarrow> open_cursors t k = Some oc" for k oc
    using assms by (auto simp: lossy_def dest: map_leD)
  show ?thesis
  proof (cases "fetch_in_progress t (tid_of c)")
    case None
    then show ?thesis using FetchNextExit assms by (simp add: lossy_def)
  next
    case (Some k)
    then show ?thesis
      using FetchNextExit assms request_degraded cursors [of k]
      by (cases "open_cursors s k") (auto simp: lossy_def split: option.split)
  qed
qed simp_all

lemma lossy_events_step:
  assumes "lossy s t" "list_emb degraded (sq_events s) (sq_events t)"
  shows "list_emb degraded (sq_events (sq_step (p, c) s)) (sq_events (sq_step (p, unlimited c) t))"
  using emitted_degraded [OF assms(1), of p c] assms(2)
  by (auto simp: sq_events_step list_emb_append2 split: option.splits
      intro!: list_emb_append_mono)

lemma exact_events_step:
  assumes "lossy s t" "list_all2 degraded (sq_events s) (sq_events t)" "p \<noteq> FetchNextExit"
  shows "list_all2 degraded (sq_events (sq_step (p, c) s)) (sq_events (sq_step (p, unlimited c) t))"
  using emitted_degraded [OF assms(1), of p c] assms(2,3)
  by (auto simp: sq_events_step list_all2_appendI split: option.splits)

lemma lossy_run:
  assumes "\<forall>h \<in> set hs. lossy_hit h" "lossy s t"
  shows "lossy (sq_run hs s) (sq_run (unlimited_hits hs) t) \<and>
    (list_emb degraded (sq_events s) (sq_events t) \<longrightarrow>
      list_emb degraded (sq_events (sq_run hs s)) (sq_events (sq_run (unlimited_hits hs) t))) \<and>
    ((\<forall>h \<in> set hs. fst h \<noteq> FetchNextExit) \<and> list_all2 degraded (sq_events s) (sq_events t) \<longrightarrow>
      list_all2 degraded (sq_events (sq_run hs s)) (sq_events (sq_run (unlimited_hits hs) t)))"
  using assms
proof (induction hs arbitrary: s t)
  case (Cons h hs)
  obtain p c where h: "h = (p, c)" by fastforce
  have "lossy (sq_step (p, c) s) (sq_step (p, unlimited c) t)"
    using Cons.prems h by (intro lossy_hit_step) simp_all
  from Cons.IH [OF _ this] show ?case
    using Cons.prems lossy_events_step [OF Cons.prems(2), of p c]
      exact_events_step [OF Cons.prems(2), of p c]
    by (auto simp: h)
qed simp

text \<open>C13: eviction from the statement and cursor tables costs detail, never truth: compared with the
  same hits on tables without a limit, the events are a subsequence of the events there, each
  the same event or that event with its statement reported as unknown (no text, no attachment,
  no prepare time, but the same time stamp, duration and thread). Only cursors can lose an event
  altogether: when no fetch ends, the two runs have the same number of events.\<close>

theorem eviction_only_forgets:
  assumes "\<forall>h \<in> set hs. lossy_hit h"
  shows "list_emb degraded (sq_events (sq_run hs sq_init))
      (sq_events (sq_run (unlimited_hits hs) sq_init)) \<and>
    ((\<forall>h \<in> set hs. fst h \<noteq> FetchNextExit) \<longrightarrow>
      list_all2 degraded (sq_events (sq_run hs sq_init))
        (sq_events (sq_run (unlimited_hits hs) sq_init)))"
  using lossy_run [OF assms, of sq_init sq_init] by (simp add: lossy_def sq_init_def)

text \<open>
  Two statements are prepared on a kernel that keeps one of them; the execution of the first is
  then reported as unknown.
\<close>

definition evicting :: "sq_hit_ctx \<Rightarrow> sq_hit_ctx" where
  "evicting c = c\<lparr>prepared_ops := evicting_ops UNIV\<rparr>"

definition evicting_hits :: "sq_hit list" where
  "evicting_hits =
     [(PrepareEntry, sample_prepare 740 1000),
      (PrepareExit, evicting (sample_ctx 740 1800 [] (Some 0xd0))),
      (PrepareEntry, sample_prepare 740 2000),
      (PrepareExit, evicting (sample_ctx 740 2100 [] (Some 0xd8))),
      (ExecuteEntry, sample_ctx 740 3000 [0, 0, 0xd0] None),
      (ExecuteExit, sample_ctx 740 3500 [] None)]"

lemma evicting_simps [simp]:
  "tid_of (evicting c) = tid_of c" "ktime (evicting c) = ktime c" "reg_ret (evicting c) = reg_ret c"
  "scratch_avail (evicting c) = scratch_avail c" "with_sql_ops (evicting c) = with_sql_ops c"
  "prepared_ops (evicting c) = evicting_ops UNIV"
  by (simp_all add: evicting_def tid_of_def)

lemma evicting_run:
  "sq_events (sq_run evicting_hits sq_init) = [request_event (sample_ctx 740 3500 [] None) 3000 None]"
  by (simp add: evicting_hits_def sq_events_step execute_in_progress_step Let_def
      prepared_statements_step prepare_in_progress_step captured_sample)
    (simp add: sample_prepare_def)

theorem eviction_only_forgets_witness:
  "list_all2 degraded [request_event (sample_ctx 740 3500 [] None) 3000 None]
     (sq_events (sq_run (unlimited_hits evicting_hits) sq_init))"
proof -
  have "\<forall>h \<in> set evicting_hits. lossy_hit h"
    by (simp add: evicting_hits_def lossy_hit_def sample_prepare_def)
      (simp add: evicting_def sq_good_def sq_kernel_ok_def sample_ctx_def)
  moreover have "\<forall>h \<in> set evicting_hits. fst h \<noteq> FetchNextExit"
    by (simp add: evicting_hits_def)
  ultimately show ?thesis
    using eviction_only_forgets [of evicting_hits] unfolding evicting_run by blast
qed

end
