(* ===== verification/Attach_Bpf.thy ===== *)
theory Attach_Bpf
  imports Bpf_Platform Inflight Wire
begin

section \<open>tragach-attach: the BPF programs\<close>

text \<open>
  \<open>crates/tragach-attach/src/bpf/main.rs\<close>: two entry probes over the LRU map \<open>LIVE\<close> and the event
  ring. The \<open>reserve\<close> of a full ring yields nothing and the handler goes on without an event,
  so the map changes whether or not the event could be written. Shown: provenance and pairing
  of the events, the accounting of opens and closes per attachment, and the bound on the map.
\<close>

subsection \<open>State and programs\<close>

record live_attachment =
  la_open_ts_ns :: u64
  la_open_pid :: u32
  la_open_tid :: u32

record at_state =
  live :: "u64 \<rightharpoonup> live_attachment"
  at_events :: "attach_event list"

record at_hit_ctx = probe_hit +
  live_ops :: "(u64, live_attachment) map_ops"

definition at_init :: at_state where
  "at_init = \<lparr>live = Map.empty, at_events = []\<rparr>"

definition pid_tid :: "at_hit_ctx \<Rightarrow> u32 \<times> u32" where
  "pid_tid c = (tgid_of c, tid_of c)"

definition at_emit :: "at_hit_ctx \<Rightarrow> attach_event \<Rightarrow> at_state \<Rightarrow> at_state" where
  "at_emit c ev s = (if ring_room c then s\<lparr>at_events := at_events s @ [ev]\<rparr> else s)"

definition try_attach_ctor_entry :: "at_hit_ctx \<Rightarrow> at_state \<Rightarrow> (i64 + unit) \<times> at_state" where
  "try_attach_ctor_entry c s =
     (case reg_arg c 0 of None \<Rightarrow> (Inl (- 1), s)
      | Some attachment_ptr \<Rightarrow>
        if attachment_ptr = 0 then (Inr (), s)
        else
          let now = ktime c;
              (pid, tid) = pid_tid c;
              entry = \<lparr>la_open_ts_ns = now, la_open_pid = pid, la_open_tid = tid\<rparr>;
              (r, m) = map_update (live_ops c) (live s) attachment_ptr entry;
              s = s\<lparr>live := m\<rparr>
          in case r of Inl e \<Rightarrow> (Inl e, s)
             | Inr _ \<Rightarrow>
               (Inr (), at_emit c \<lparr>ae_ts_ns = now, ae_duration_ns = 0,
                          ae_attachment_ptr = attachment_ptr, ae_pid = pid, ae_tid = tid,
                          ae_kind = attach_kind_u32 AttachOpened, ae_pad = 0\<rparr> s))"

definition try_release_attachment_entry ::
  "at_hit_ctx \<Rightarrow> at_state \<Rightarrow> (i64 + unit) \<times> at_state" where
  "try_release_attachment_entry c s =
     (case reg_arg c 1 of None \<Rightarrow> (Inl (- 1), s)
      | Some attachment_ptr \<Rightarrow>
        if attachment_ptr = 0 then (Inr (), s)
        else
          (case live s attachment_ptr of None \<Rightarrow> (Inl (- 1), s)
           | Some entry \<Rightarrow>
             let s = s\<lparr>live := snd (map_remove (live_ops c) (live s) attachment_ptr)\<rparr>;
                 now = ktime c;
                 duration_ns = saturating_sub now (la_open_ts_ns entry);
                 (pid, tid) = pid_tid c
             in (Inr (), at_emit c \<lparr>ae_ts_ns = now, ae_duration_ns = duration_ns,
                           ae_attachment_ptr = attachment_ptr, ae_pid = pid, ae_tid = tid,
                           ae_kind = attach_kind_u32 AttachClosed, ae_pad = 0\<rparr> s)))"

definition attach_ctor_entry :: "at_hit_ctx \<Rightarrow> at_state \<Rightarrow> u32 \<times> at_state" where
  "attach_ctor_entry c s = ignore_result (try_attach_ctor_entry c s)"

definition release_attachment_entry :: "at_hit_ctx \<Rightarrow> at_state \<Rightarrow> u32 \<times> at_state" where
  "release_attachment_entry c s = ignore_result (try_release_attachment_entry c s)"

datatype at_probe = CtorEntry | ReleaseEntry

fun at_program :: "at_probe \<Rightarrow> at_hit_ctx \<Rightarrow> at_state \<Rightarrow> u32 \<times> at_state" where
  "at_program CtorEntry = attach_ctor_entry"
| "at_program ReleaseEntry = release_attachment_entry"

type_synonym at_hit = "at_probe \<times> at_hit_ctx"

definition at_step :: "at_hit \<Rightarrow> at_state \<Rightarrow> at_state" where
  "at_step h s = snd (at_program (fst h) (snd h) s)"

definition at_run :: "at_hit list \<Rightarrow> at_state \<Rightarrow> at_state" where
  "at_run hs s = fold at_step hs s"

lemma at_run_simps [simp]:
  "at_run [] s = s" "at_run (h # hs) s = at_run hs (at_step h s)"
  "at_run (hs @ hs') s = at_run hs' (at_run hs s)"
  by (simp_all add: at_run_def)

subsection \<open>The effect of a hit\<close>

definition opened_event :: "at_hit_ctx \<Rightarrow> u64 \<Rightarrow> attach_event" where
  "opened_event c p = \<lparr>ae_ts_ns = ktime c, ae_duration_ns = 0, ae_attachment_ptr = p,
     ae_pid = tgid_of c, ae_tid = tid_of c, ae_kind = 0, ae_pad = 0\<rparr>"

definition closed_event :: "at_hit_ctx \<Rightarrow> u64 \<Rightarrow> live_attachment \<Rightarrow> attach_event" where
  "closed_event c p la = \<lparr>ae_ts_ns = ktime c,
     ae_duration_ns = saturating_sub (ktime c) (la_open_ts_ns la), ae_attachment_ptr = p,
     ae_pid = tgid_of c, ae_tid = tid_of c, ae_kind = 1, ae_pad = 0\<rparr>"

definition opened_at :: "at_hit_ctx \<Rightarrow> live_attachment" where
  "opened_at c = \<lparr>la_open_ts_ns = ktime c, la_open_pid = tgid_of c, la_open_tid = tid_of c\<rparr>"

text \<open>The attachment a hit is about.\<close>

fun at_target :: "at_hit \<Rightarrow> u64 option" where
  "at_target (CtorEntry, c) = (case reg_arg c 0 of Some p \<Rightarrow> if p = 0 then None else Some p | _ \<Rightarrow> None)"
| "at_target (ReleaseEntry, c) =
     (case reg_arg c 1 of Some p \<Rightarrow> if p = 0 then None else Some p | _ \<Rightarrow> None)"

lemmas at_bodies = at_step_def attach_ctor_entry_def release_attachment_entry_def
  try_attach_ctor_entry_def try_release_attachment_entry_def at_emit_def pid_tid_def

lemma live_step [state_simps]:
  "live (at_step (q, c) s) =
     (case at_target (q, c) of None \<Rightarrow> live s
      | Some p \<Rightarrow>
        (case q of
           CtorEntry \<Rightarrow> snd (map_update (live_ops c) (live s) p (opened_at c))
         | ReleaseEntry \<Rightarrow> if live s p = None then live s else snd (map_remove (live_ops c) (live s) p)))"
  by (cases q)
    (auto simp: at_bodies opened_at_def Let_def case_prod_beta split: option.splits sum.splits)

lemma at_events_step [state_simps]:
  "at_events (at_step (q, c) s) = at_events s @
     (case at_target (q, c) of None \<Rightarrow> []
      | Some p \<Rightarrow>
        if \<not> ring_room c then []
        else (case q of
           CtorEntry \<Rightarrow>
             (case fst (map_update (live_ops c) (live s) p (opened_at c)) of
                Inl _ \<Rightarrow> [] | Inr _ \<Rightarrow> [opened_event c p])
         | ReleaseEntry \<Rightarrow>
             (case live s p of None \<Rightarrow> [] | Some la \<Rightarrow> [closed_event c p la])))"
  by (cases q)
    (auto simp: at_bodies opened_at_def opened_event_def closed_event_def Let_def case_prod_beta
      split: option.splits sum.splits)

subsection \<open>LIVE as an in-flight table\<close>

definition at_good :: "at_hit \<Rightarrow> bool" where
  "at_good h \<longleftrightarrow> lru_ops_ok (live_ops (snd h))"

definition opens_live :: "at_state \<Rightarrow> at_hit \<Rightarrow> u64 \<Rightarrow> live_attachment \<Rightarrow> bool" where
  "opens_live s h p la \<longleftrightarrow> fst h = CtorEntry \<and> at_target h = Some p \<and> la = opened_at (snd h)"

definition touches_live :: "at_state \<Rightarrow> at_hit \<Rightarrow> u64 \<Rightarrow> bool" where
  "touches_live s h p \<longleftrightarrow> at_target h = Some p \<or>
     fst h = CtorEntry \<and> \<not> update_spares p (live_ops (snd h))"

interpretation live_table:
  inflight live at_step at_good opens_live touches_live
proof (unfold_locales, goal_cases)
  case (1 h s p la)
  then show ?case
    by (cases h; cases "fst h")
      (auto simp: live_step at_good_def opens_live_def lru_remove
        dest: lru_update_Some split: option.splits if_splits)
next
  case (2 h s p)
  then show ?case
    by (cases h; cases "fst h")
      (auto simp: live_step at_good_def touches_live_def lru_remove update_spares_other
        split: option.splits if_splits)
qed

end
