(* ===== verification/Attach_Claims.thy ===== *)
theory Attach_Claims
  imports Attach_Bpf
begin

section \<open>tragach-attach: lifecycle theorems\<close>

text \<open>
  The contract of the attachment tracer over whole runs: a release is reported once, with the
  attachment's lifetime, if its construction was seen and is still remembered; nothing else is
  ever reported as closed; opens and closes balance; the table stays within its bound.
\<close>

definition at_undisturbed :: "u64 \<Rightarrow> at_hit list \<Rightarrow> at_state \<Rightarrow> bool" where
  "at_undisturbed p hs s \<longleftrightarrow> along (\<lambda>h s. at_good h \<and> \<not> touches_live s h p) at_step hs s"

lemma live_survives: "at_undisturbed p hs s \<Longrightarrow> live (at_run hs s) p = live s p"
  unfolding at_undisturbed_def at_run_def by (rule live_table.frame_run)

lemma ctor_stores:
  assumes "at_good (CtorEntry, c)" "update_admits (live_ops c)" "at_target (CtorEntry, c) = Some p"
  shows "live (at_step (CtorEntry, c) s) p = Some (opened_at c)"
  using assms by (simp add: live_step at_good_def lru_update_admitted_at del: at_target.simps)

lemma at_init_empty [simp]: "live at_init p = None" "at_events at_init = []"
  by (simp_all add: at_init_def)

subsection \<open>Concrete hits\<close>

definition at_ctx :: "u32 \<Rightarrow> u64 \<Rightarrow> u64 list \<Rightarrow> at_hit_ctx" where
  "at_ctx t now args =
     \<lparr>pid_tgid = task_id 736 t, ktime = now, cpu = 0,
      reg_arg = (\<lambda>n. if n < length args then Some (args ! n) else None), reg_ret = None,
      ring_room = True, live_ops = roomy_ops\<rparr>"

lemma at_ctx_simps [simp]:
  "ktime (at_ctx t now args) = now" "tid_of (at_ctx t now args) = t"
  "tgid_of (at_ctx t now args) = 736"
  "reg_arg (at_ctx t now args) n = (if n < length args then Some (args ! n) else None)"
  "ring_room (at_ctx t now args)" "live_ops (at_ctx t now args) = roomy_ops"
  "at_good (q, at_ctx t now args)"
  by (simp_all add: at_ctx_def tid_of_task_id tgid_of_task_id at_good_def)

subsection \<open>One attachment\<close>

text \<open>C7: an attachment that is constructed, left alone and then released yields exactly one closed
  event at the release: its duration is the time between the two probes, its process and thread
  are the releasing ones, and the attachment is forgotten, so releasing it again yields
  nothing.\<close>

theorem attachment_lifecycle:
  assumes opened: "at_good (CtorEntry, c)" "update_admits (live_ops c)"
      "at_target (CtorEntry, c) = Some p"
    and kept: "at_undisturbed p hs (at_step (CtorEntry, c) s)"
    and closed: "at_good (ReleaseEntry, d)" "at_target (ReleaseEntry, d) = Some p" "ring_room d"
    and again: "at_target (ReleaseEntry, e) = Some p"
    and run: "t = at_run ((CtorEntry, c) # hs) s"
  shows "at_events (at_step (ReleaseEntry, d) t) = at_events t @
      [\<lparr>ae_ts_ns = ktime d, ae_duration_ns = saturating_sub (ktime d) (ktime c),
        ae_attachment_ptr = p, ae_pid = tgid_of d, ae_tid = tid_of d, ae_kind = 1, ae_pad = 0\<rparr>] \<and>
    at_events (at_run [(ReleaseEntry, d), (ReleaseEntry, e)] t) =
      at_events (at_step (ReleaseEntry, d) t)"
proof -
  have known: "live t p = Some (opened_at c)"
    using live_survives [OF kept] ctor_stores [OF opened] by (simp add: run)
  have "at_events (at_step (ReleaseEntry, d) t) = at_events t @ [closed_event d p (opened_at c)]"
    using known closed by (simp add: at_events_step del: at_target.simps)
  moreover have "live (at_step (ReleaseEntry, d) t) p = None"
    using known closed by (simp add: live_step at_good_def lru_remove del: at_target.simps)
  then have "at_events (at_step (ReleaseEntry, e) (at_step (ReleaseEntry, d) t)) =
      at_events (at_step (ReleaseEntry, d) t)"
    using again by (simp add: at_events_step [of ReleaseEntry e] del: at_target.simps)
  ultimately show ?thesis
    by (simp add: closed_event_def opened_at_def)
qed

theorem attachment_lifecycle_witness:
  "at_events (at_run [(CtorEntry, at_ctx 740 1000 [0xa0]), (CtorEntry, at_ctx 741 1100 [0xb0]),
      (ReleaseEntry, at_ctx 742 9000 [0, 0xa0]), (ReleaseEntry, at_ctx 742 9001 [0, 0xa0])] at_init) =
   [opened_event (at_ctx 740 1000 [0xa0]) 0xa0, opened_event (at_ctx 741 1100 [0xb0]) 0xb0,
    \<lparr>ae_ts_ns = 9000, ae_duration_ns = 8000, ae_attachment_ptr = 0xa0, ae_pid = 736,
     ae_tid = 742, ae_kind = 1, ae_pad = 0\<rparr>]"
proof -
  let ?c = "at_ctx 740 1000 [0xa0]" and ?h = "(CtorEntry, at_ctx 741 1100 [0xb0])"
  let ?d = "at_ctx 742 9000 [0, 0xa0]" and ?e = "at_ctx 742 9001 [0, 0xa0]"
  have "at_undisturbed 0xa0 [?h] (at_step (CtorEntry, ?c) at_init)"
    by (simp add: at_undisturbed_def touches_live_def)
  then show ?thesis
    using attachment_lifecycle [of ?c "0xa0" "[?h]" at_init ?d ?e, OF _ _ _ _ _ _ _ _ refl]
    by (simp add: at_events_step saturating_sub_def)
qed

subsection \<open>Nothing is invented\<close>

text \<open>Every event of a run from the empty state is an opened or a closed one, and a closed one was
  emitted by a release, with the entry that an earlier construction at that address stored.\<close>

lemma at_event_source:
  assumes "\<forall>h \<in> set hs. at_good h" "ev \<in> set (at_events (at_run hs at_init))"
  shows "ae_kind ev = 0 \<or>
    (\<exists>c d p. (CtorEntry, c) \<in> set hs \<and> (ReleaseEntry, d) \<in> set hs \<and>
      at_target (CtorEntry, c) = Some p \<and> at_target (ReleaseEntry, d) = Some p \<and>
      ev = closed_event d p (opened_at c))"
  using assms
proof (induction hs rule: rev_induct)
  case Nil
  then show ?case by simp
next
  case (snoc h hs)
  let ?s = "at_run hs at_init"
  obtain q d where h: "h = (q, d)" by fastforce
  show ?case
  proof (cases "ev \<in> set (at_events ?s) \<or> ae_kind ev = 0")
    case True
    then show ?thesis
      using snoc.IH snoc.prems(1) by auto
  next
    case False
    with snoc.prems(2) obtain p la where ev: "ev = closed_event d p la" "q = ReleaseEntry"
      "at_target (ReleaseEntry, d) = Some p" and la: "live ?s p = Some la"
      by (cases q)
        (auto simp: h at_events_step opened_event_def split: option.splits
          sum.splits if_splits simp del: at_target.simps)
    have "\<forall>h \<in> set hs. at_good h"
      using snoc.prems(1) by simp
    then have "\<exists>hs1 e hs2. hs = hs1 @ e # hs2 \<and> opens_live (at_run hs1 at_init) e p la"
      using live_table.origin_from_empty [of hs at_init p la] la
      unfolding at_run_def by (metis at_init_empty(1))
    then obtain hs1 e hs2 where "hs = hs1 @ e # hs2" "opens_live (at_run hs1 at_init) e p la"
      by blast
    then have "(CtorEntry, snd e) \<in> set hs \<and> at_target (CtorEntry, snd e) = Some p \<and>
        la = opened_at (snd e)"
      by (cases e) (auto simp: opens_live_def simp del: at_target.simps)
    then show ?thesis
      using ev h by (auto simp del: at_target.simps)
  qed
qed

text \<open>Whatever the kernel evicts or refuses and however full the ring is, every closed event of a
  run from the empty state belongs to an attachment whose construction was seen earlier in the
  same run, and its duration is measured from that construction.\<close>

lemma closed_events_were_opened:
  assumes "\<forall>h \<in> set hs. at_good h" "ev \<in> set (at_events (at_run hs at_init))" "ae_kind ev = 1"
  shows "\<exists>c. (CtorEntry, c) \<in> set hs \<and> at_target (CtorEntry, c) = Some (ae_attachment_ptr ev) \<and>
    ae_duration_ns ev = saturating_sub (ae_ts_ns ev) (ktime c)"
  using at_event_source [OF assms(1,2)] assms(3)
  by (auto simp: closed_event_def opened_at_def simp del: at_target.simps)

lemma closed_events_were_opened_witness:
  "\<exists>c. (CtorEntry, c) \<in> {(CtorEntry, at_ctx 740 1000 [0xa0]), (ReleaseEntry, at_ctx 742 9000 [0, 0xa0])} \<and>
    at_target (CtorEntry, c) = Some 0xa0 \<and> 8000 = saturating_sub 9000 (ktime c)"
proof -
  let ?hs = "[(CtorEntry, at_ctx 740 1000 [0xa0]), (ReleaseEntry, at_ctx 742 9000 [0, 0xa0])]"
  let ?ev = "\<lparr>ae_ts_ns = 9000, ae_duration_ns = 8000, ae_attachment_ptr = 0xa0, ae_pid = 736,
     ae_tid = 742, ae_kind = 1, ae_pad = 0\<rparr>"
  have "?ev \<in> set (at_events (at_run ?hs at_init))"
    by (simp add: at_events_step live_step closed_event_def opened_at_def saturating_sub_def)
  then show ?thesis
    using closed_events_were_opened [of ?hs ?ev] by simp
qed

subsection \<open>Accounting\<close>

definition opens_of :: "u64 \<Rightarrow> attach_event list \<Rightarrow> nat" where
  "opens_of p evs = length (filter (\<lambda>ev. ae_attachment_ptr ev = p \<and> ae_kind ev = 0) evs)"

definition closes_of :: "u64 \<Rightarrow> attach_event list \<Rightarrow> nat" where
  "closes_of p evs = length (filter (\<lambda>ev. ae_attachment_ptr ev = p \<and> ae_kind ev = 1) evs)"

text \<open>A kernel with room everywhere, and a construction only at an address that is not live.\<close>

definition orderly :: "at_hit \<Rightarrow> at_state \<Rightarrow> bool" where
  "orderly h s \<longleftrightarrow> hash_ops_ok (live_ops (snd h)) \<and> update_admits (live_ops (snd h)) \<and>
     ring_room (snd h) \<and>
     (\<forall>p. fst h = CtorEntry \<and> at_target h = Some p \<longrightarrow> live s p = None)"

lemma orderly_step:
  assumes "orderly h s"
  shows "opens_of p (at_events (at_step h s)) + closes_of p (at_events s) +
      (if live s p = None then 0 else 1) =
    opens_of p (at_events s) + closes_of p (at_events (at_step h s)) +
      (if live (at_step h s) p = None then 0 else 1)"
proof -
  obtain q c where h: "h = (q, c)" by fastforce
  have upd: "map_update (live_ops c) m k v = (Inr (), m(k \<mapsto> v))" for m k v
    using assms by (simp add: orderly_def h hash_update_admitted)
  have del: "snd (map_remove (live_ops c) m k) = m(k := None)" for m k
    using assms by (simp add: orderly_def h hash_remove)
  show ?thesis
    using assms unfolding h
    by (cases q; cases "at_target (q, c)")
      (auto simp: live_step at_events_step upd del opens_of_def closes_of_def opened_event_def
        closed_event_def orderly_def simp del: at_target.simps split: option.splits)
qed

text \<open>C24: in an orderly run from the empty state (the map and the ring have room, and no attachment is
  constructed at an address that is still live) opens and closes balance for every attachment:
  there are as many opened events as closed events, plus one while it lives. So \<open>n\<close> connections
  that open and close give \<open>n\<close> opened and \<open>n\<close> closed events.\<close>

theorem opens_balance_closes:
  assumes "along orderly at_step hs at_init"
  shows "opens_of p (at_events (at_run hs at_init)) =
    closes_of p (at_events (at_run hs at_init)) + (if live (at_run hs at_init) p = None then 0 else 1)"
  using assms
proof (induction hs rule: rev_induct)
  case Nil
  then show ?case by (simp add: opens_of_def closes_of_def)
next
  case (snoc h hs)
  then have "orderly h (at_run hs at_init)"
    by (simp add: along_append at_run_def)
  then show ?case
    using orderly_step [of h "at_run hs at_init" p] snoc by (auto simp: along_append split: if_splits)
qed

theorem opens_balance_closes_witness:
  "opens_of 0xa0 (at_events (at_run [(CtorEntry, at_ctx 740 1000 [0xa0]),
      (CtorEntry, at_ctx 741 1100 [0xb0]), (ReleaseEntry, at_ctx 742 9000 [0, 0xa0])] at_init)) =
   closes_of 0xa0 (at_events (at_run [(CtorEntry, at_ctx 740 1000 [0xa0]),
      (CtorEntry, at_ctx 741 1100 [0xb0]), (ReleaseEntry, at_ctx 742 9000 [0, 0xa0])] at_init))"
proof -
  let ?hs = "[(CtorEntry, at_ctx 740 1000 [0xa0]), (CtorEntry, at_ctx 741 1100 [0xb0]),
    (ReleaseEntry, at_ctx 742 9000 [0, 0xa0])]"
  have "along orderly at_step ?hs at_init"
    by (simp add: orderly_def live_step)
  moreover have "live (at_run ?hs at_init) 0xa0 = None"
    by (simp add: live_step)
  ultimately show ?thesis
    using opens_balance_closes [of ?hs "0xa0"] by simp
qed

text \<open>The live table never outgrows the size it was declared with, as long as the kernel keeps its
  bound: after any run from the empty state at most that many attachments are remembered.\<close>

lemma live_table_bounded:
  assumes "\<forall>h \<in> set hs. at_good h \<and> update_bounded 1024 (live_ops (snd h))"
  shows "map_bounded 1024 (live (at_run hs at_init))"
  unfolding at_run_def
proof (rule fold_invariant_run [where I = "\<lambda>s. map_bounded 1024 (live s)"])
  fix h and s :: at_state
  assume h: "h \<in> set hs" and bound: "map_bounded 1024 (live s)"
  obtain q c where qc: "h = (q, c)" by fastforce
  have "at_good (q, c)" "update_bounded 1024 (live_ops c)"
    using assms h qc by force+
  then show "map_bounded 1024 (live (at_step h s))"
    using bound unfolding qc
    by (cases q) (auto simp: live_step at_good_def bounded_update bounded_remove map_ops_remove_ok
        simp del: at_target.simps split: option.splits)
qed (simp add: at_init_def)

lemma live_table_bounded_witness:
  "map_bounded 1024 (live (at_run
     [(CtorEntry, (at_ctx 740 1000 [0xa0])\<lparr>live_ops := evicting_ops UNIV\<rparr>)] at_init))"
proof -
  have "update_bounded 1024 (evicting_ops UNIV)"
    by (auto simp: update_bounded_def map_bounded_def)
  then show ?thesis
    using live_table_bounded [of "[(CtorEntry, (at_ctx 740 1000 [0xa0])\<lparr>live_ops := evicting_ops UNIV\<rparr>)]"]
    by (simp add: at_good_def)
qed

end
