(* ===== verification/Attach_User.thy ===== *)
theory Attach_User
  imports User_Loop
begin

section \<open>tragach-attach: the event loop\<close>

text \<open>
  \<open>crates/tragach-attach/src/main.rs\<close> from \<open>run_event_loop\<close> on. Unlike tragach-slowquery the loop
  keeps no table: a line depends on its record alone. Shown: the output is the accepted records,
  each printed by itself; opened events are never filtered; and the line carries the event's data.
\<close>

record at_json_event =
  jae_ts :: string
  jae_event :: string
  jae_att_ptr :: string
  jae_duration_us :: "u64 option"
  jae_pid :: u32
  jae_tid :: u32

datatype at_output = AtJson at_json_event | AtLine string

definition at_fmt_duration :: "u64 \<Rightarrow> string" where
  "at_fmt_duration ns = fmt_duration ns"

definition at_write_human :: "string \<Rightarrow> attach_event \<Rightarrow> at_output" where
  "at_write_human ts ev =
     (let kind_str = (if ae_kind ev = attach_kind_u32 AttachOpened then ''opened'' else ''closed'');
          duration_str = (if ae_kind ev = attach_kind_u32 AttachOpened then ''        -''
                          else pad_right 9 (at_fmt_duration (ae_duration_ns ev)))
      in AtLine (ts @ ''  att_ptr=0x'' @ pad_zero 16 (lower_hex (unat (ae_attachment_ptr ev))) @
           ''  duration='' @ duration_str @ ''  pid='' @ pad_right 6 (decimal (unat (ae_pid ev))) @
           '' tid='' @ pad_right 6 (decimal (unat (ae_tid ev))) @ ''  ('' @ kind_str @ '')''))"

definition at_write_json :: "string \<Rightarrow> attach_event \<Rightarrow> at_output" where
  "at_write_json ts ev =
     (let kind = (if ae_kind ev = attach_kind_u32 AttachOpened then ''opened'' else ''closed'')
      in AtJson \<lparr>jae_ts = ts, jae_event = kind,
           jae_att_ptr = ''0x'' @ lower_hex (unat (ae_attachment_ptr ev)),
           jae_duration_us = (if ae_kind ev = attach_kind_u32 AttachOpened then None
                              else Some (ae_duration_ns ev div 1000)),
           jae_pid = ae_pid ev, jae_tid = ae_tid ev\<rparr>)"

record at_args =
  arg_min_duration :: "nat option"
  arg_at_json :: bool

record at_loop =
  at_dropped :: u64
  at_out :: "at_output list"

definition at_loop_init :: at_loop where
  "at_loop_init = \<lparr>at_dropped = 0, at_out = []\<rparr>"

definition min_duration_ns :: "at_args \<Rightarrow> u64 option" where
  "min_duration_ns a = map_option of_nat (arg_min_duration a)"

definition at_item :: "at_args \<Rightarrow> ring_item \<Rightarrow> at_loop \<Rightarrow> (unit + unit) \<times> at_loop" where
  "at_item a it s =
     (case decode_attach_event (it_bytes it) of
        Inr ev \<Rightarrow>
          if ae_kind ev = attach_kind_u32 AttachClosed \<and>
             (case min_duration_ns a of Some t \<Rightarrow> ae_duration_ns ev < t | None \<Rightarrow> False)
          then (Inr (), s)
          else
            let line = (if arg_at_json a then at_write_json (it_ts it) ev
                        else at_write_human (it_ts it) ev)
            in if it_writes it then (Inr (), s\<lparr>at_out := at_out s @ [line]\<rparr>) else (Inl (), s)
      | Inl _ \<Rightarrow> (Inr (), s\<lparr>at_dropped := at_dropped s + 1\<rparr>))"

definition at_event_loop ::
  "at_args \<Rightarrow> wakeup list \<Rightarrow> at_loop \<Rightarrow> (unit + unit) option \<times> at_loop" where
  "at_event_loop a ws s = event_loop (at_item a) ws s"

subsection \<open>Accounting\<close>

definition at_accepts :: "at_args \<Rightarrow> attach_event \<Rightarrow> bool" where
  "at_accepts a ev \<longleftrightarrow>
     ae_kind ev = 1 \<longrightarrow> (\<forall>t. min_duration_ns a = Some t \<longrightarrow> t \<le> ae_duration_ns ev)"

definition at_line :: "at_args \<Rightarrow> string \<times> attach_event \<Rightarrow> at_output" where
  "at_line a x =
     (if arg_at_json a then at_write_json (fst x) (snd x) else at_write_human (fst x) (snd x))"

lemma at_item_cases:
  "decode_attach_event (it_bytes it) = Inl () \<Longrightarrow>
     at_item a it s = (Inr (), s\<lparr>at_dropped := at_dropped s + 1\<rparr>)"
  "decode_attach_event (it_bytes it) = Inr ev \<Longrightarrow> \<not> at_accepts a ev \<Longrightarrow> at_item a it s = (Inr (), s)"
  "decode_attach_event (it_bytes it) = Inr ev \<Longrightarrow> at_accepts a ev \<Longrightarrow>
     at_item a it s = (if it_writes it
       then (Inr (), s\<lparr>at_out := at_out s @ [at_line a (it_ts it, ev)]\<rparr>) else (Inl (), s))"
  by (auto simp: at_item_def at_accepts_def at_line_def Let_def not_le split: option.splits)

interpretation at_tool:
  event_tool "at_item a" decode_attach_event "at_accepts a" "\<lambda>s. length (at_out s)" at_dropped
  by unfold_locales (simp_all add: at_item_cases)

lemma at_drain_closed_form:
  "\<forall>it \<in> set its. it_writes it \<Longrightarrow>
     at_out (snd (drain_ring (at_item a) its s)) =
       at_out s @ map (at_line a) (accepted_items decode_attach_event (at_accepts a) its)"
proof (induction its arbitrary: s)
  case (Cons it its)
  show ?case
  proof (cases "decode_attach_event (it_bytes it)")
    case (Inl u)
    then show ?thesis
      using Cons at_item_cases(1) [of it a s] by simp
  next
    case (Inr ev)
    then show ?thesis
      using Cons at_item_cases(2,3) [OF Inr, of a s] by (cases "at_accepts a ev") simp_all
  qed
qed simp

text \<open>When every write succeeds and the user stops the tool, the attachment tracer has printed one
  line per record that decodes, in ring order, leaving out exactly the closed events shorter
  than the minimum duration; opened events are always printed; the dropped counter is the
  number of short records.\<close>

lemma at_loop_output:
  fixes a itss
  defines "evs \<equiv> accepted_items decode_attach_event (at_accepts a) (concat itss)"
  assumes "\<forall>it \<in> set (concat itss). it_writes it"
  shows "(\<exists>s. at_event_loop a (map Readable itss @ [CtrlC]) at_loop_init = (Some (Inr ()), s) \<and>
      at_out s = map (at_line a) evs \<and>
      at_dropped s = of_nat (length (filter
        (\<lambda>it. length (it_bytes it) < attach_event_size) (concat itss)))) \<and>
    (\<forall>it ev. it \<in> set (concat itss) \<and> decode_attach_event (it_bytes it) = Inr ev \<and>
      ae_kind ev = attach_kind_u32 AttachOpened \<longrightarrow> (it_ts it, ev) \<in> set evs)"
proof -
  let ?r = "drain_ring (at_item a) (concat itss) at_loop_init"
  have "fst ?r = Inr ()"
    "at_dropped (snd ?r) = of_nat (short_items decode_attach_event (concat itss))"
    using at_tool.drain_accounts [OF assms(2), of a at_loop_init]
    by (simp_all add: at_loop_init_def)
  moreover from this have
    "at_event_loop a (map Readable itss @ [CtrlC]) at_loop_init = (Some (Inr ()), snd ?r)"
    by (cases ?r) (simp add: at_event_loop_def event_loop_turns)
  moreover have "at_out (snd ?r) = map (at_line a) evs"
    using at_drain_closed_form [OF assms(2), of a at_loop_init]
    by (simp add: evs_def at_loop_init_def)
  moreover have "(it_ts it, ev) \<in> set (accepted_items decode_attach_event (at_accepts a) its)"
    if "it \<in> set its" "decode_attach_event (it_bytes it) = Inr ev" "ae_kind ev = 0" for it ev its
    using that by (induction its) (auto simp: at_accepts_def split: sum.splits)
  ultimately show ?thesis
    by (auto simp: short_items_def decode_attach_short evs_def)
qed

lemma at_loop_output_witness:
  "\<exists>s. at_event_loop \<lparr>arg_min_duration = Some 500, arg_at_json = True\<rparr>
     [Readable [\<lparr>it_bytes = [], it_ts = ''t'', it_writes = True\<rparr>], CtrlC] at_loop_init =
     (Some (Inr ()), s) \<and> at_out s = [] \<and> at_dropped s = 1"
proof -
  let ?it = "\<lparr>it_bytes = [], it_ts = ''t'', it_writes = True\<rparr>"
  have "decode_attach_event [] = Inl ()" "0 < attach_event_size"
    by (simp_all add: decode_attach_event_def attach_event_size_def)
  then show ?thesis
    using at_loop_output [of "[[?it]]" "\<lparr>arg_min_duration = Some 500, arg_at_json = True\<rparr>"] by simp
qed

end
