(* ===== verification/Attach_Pipeline.thy ===== *)
theory Attach_Pipeline
  imports Attach_Claims Attach_User
begin

section \<open>tragach-attach: from the probes to the printed line\<close>

text \<open>
  The kernel side and the user side joined over the ring buffer: every event the probes emit is
  decoded as it was, and a printed line tells the life of an attachment that was really opened
  and closed in the run.
\<close>

definition at_ring_items :: "(string \<times> attach_event) list \<Rightarrow> ring_item list" where
  "at_ring_items xs =
     map (\<lambda>(ts, ev). \<lparr>it_bytes = attach_event_bytes ev, it_ts = ts, it_writes = True\<rparr>) xs"

lemma at_ring_items_accepted:
  "accepted_items decode_attach_event accepts (at_ring_items xs) = filter (\<lambda>x. accepts (snd x)) xs"
proof (induction xs)
  case (Cons x xs)
  then show ?case
    using attach_decode_encode [of "snd x" "[]"] by (cases x) (simp add: at_ring_items_def)
qed (simp add: at_ring_items_def)

lemma at_ring_items_whole: "it \<in> set (at_ring_items xs) \<Longrightarrow> decode_attach_event (it_bytes it) \<noteq> Inl ()"
  using attach_decode_encode [of _ "[]"] by (auto simp: at_ring_items_def)

lemma at_pipeline_output:
  "\<exists>s. at_event_loop a [Readable (at_ring_items xs), CtrlC] at_loop_init = (Some (Inr ()), s) \<and>
    at_dropped s = 0 \<and> at_out s = map (at_line a) (filter (\<lambda>x. at_accepts a (snd x)) xs)"
proof -
  let ?r = "drain_ring (at_item a) (at_ring_items xs) at_loop_init"
  have writes: "\<forall>it \<in> set (at_ring_items xs). it_writes it"
    by (auto simp: at_ring_items_def)
  have "short_items decode_attach_event (at_ring_items xs) = 0"
    using at_ring_items_whole [of _ xs] by (auto simp: short_items_def filter_empty_conv)
  then have "fst ?r = Inr ()" "at_dropped (snd ?r) = 0"
    using at_tool.drain_accounts [OF writes, of a at_loop_init] by (simp_all add: at_loop_init_def)
  moreover have "at_out (snd ?r) = map (at_line a) (filter (\<lambda>x. at_accepts a (snd x)) xs)"
    using at_drain_closed_form [OF writes, of a at_loop_init]
    by (simp add: at_ring_items_accepted at_loop_init_def)
  ultimately show ?thesis
    by (cases ?r) (simp add: at_event_loop_def)
qed

lemma closed_line:
  assumes "AtJson j = at_line a (ts, ev)" "jae_event j = ''closed''"
    "ae_kind ev = 0 \<or> ev = closed_event d p (opened_at c)"
  shows "ev = closed_event d p (opened_at c) \<and> jae_att_ptr j = ''0x'' @ lower_hex (unat p) \<and>
    jae_duration_us j = Some (saturating_sub (ktime d) (ktime c) div 1000) \<and>
    jae_pid j = tgid_of d \<and> jae_tid j = tid_of d"
  using assms
  by (auto simp: at_line_def at_write_json_def at_write_human_def Let_def closed_event_def opened_at_def
      split: if_splits)

text \<open>C8: from the probes to the lines: every event the two programs put into the ring arrives at the
  event loop, none is dropped; an opened attachment is always printed; and every JSON line that
  says closed tells of an attachment whose construction and release are both hits of the run,
  with that attachment's address, the time between the two in microseconds, and the process and
  thread of the release. This holds whatever the kernel evicts or refuses.\<close>

theorem attachments_reported:
  assumes "\<forall>h \<in> set hs. at_good h" "map snd xs = at_events (at_run hs at_init)"
  shows "\<exists>s. at_event_loop a [Readable (at_ring_items xs), CtrlC] at_loop_init = (Some (Inr ()), s) \<and>
    at_dropped s = 0 \<and> at_out s = map (at_line a) (filter (\<lambda>x. at_accepts a (snd x)) xs) \<and>
    (\<forall>x \<in> set xs. ae_kind (snd x) = attach_kind_u32 AttachOpened \<longrightarrow> at_line a x \<in> set (at_out s)) \<and>
    (\<forall>j. AtJson j \<in> set (at_out s) \<and> jae_event j = ''closed'' \<longrightarrow>
      (\<exists>c d p. (CtorEntry, c) \<in> set hs \<and> (ReleaseEntry, d) \<in> set hs \<and>
        at_target (CtorEntry, c) = Some p \<and> at_target (ReleaseEntry, d) = Some p \<and>
        jae_att_ptr j = ''0x'' @ lower_hex (unat p) \<and>
        jae_duration_us j = Some (saturating_sub (ktime d) (ktime c) div 1000) \<and>
        jae_pid j = tgid_of d \<and> jae_tid j = tid_of d))"
proof -
  obtain s where s: "at_event_loop a [Readable (at_ring_items xs), CtrlC] at_loop_init = (Some (Inr ()), s)"
    "at_dropped s = 0" "at_out s = map (at_line a) (filter (\<lambda>x. at_accepts a (snd x)) xs)"
    using at_pipeline_output by blast
  have opened: "at_line a x \<in> set (at_out s)"
    if "x \<in> set xs" "ae_kind (snd x) = attach_kind_u32 AttachOpened" for x
    using that by (auto simp: s(3) at_accepts_def)
  have closed: "\<exists>c d p. (CtorEntry, c) \<in> set hs \<and> (ReleaseEntry, d) \<in> set hs \<and>
      at_target (CtorEntry, c) = Some p \<and> at_target (ReleaseEntry, d) = Some p \<and>
      jae_att_ptr j = ''0x'' @ lower_hex (unat p) \<and>
      jae_duration_us j = Some (saturating_sub (ktime d) (ktime c) div 1000) \<and>
      jae_pid j = tgid_of d \<and> jae_tid j = tid_of d"
    if j: "AtJson j \<in> set (at_out s)" "jae_event j = ''closed''" for j
  proof -
    obtain ts ev where x: "(ts, ev) \<in> set xs" "AtJson j = at_line a (ts, ev)"
      using j(1) by (auto simp: s(3))
    have "ev \<in> set (at_events (at_run hs at_init))"
      using image_eqI [OF _ x(1), of ev snd] assms(2) by (metis set_map snd_conv)
    from at_event_source [OF assms(1) this] have "ae_kind ev \<noteq> 0 \<Longrightarrow> \<exists>c d p.
        (CtorEntry, c) \<in> set hs \<and> (ReleaseEntry, d) \<in> set hs \<and>
        at_target (CtorEntry, c) = Some p \<and> at_target (ReleaseEntry, d) = Some p \<and>
        ev = closed_event d p (opened_at c)"
      by blast
    moreover have "ae_kind ev \<noteq> 0"
      using x(2) j(2) by (auto simp: at_line_def at_write_json_def at_write_human_def Let_def split: if_splits)
    ultimately show ?thesis
      using closed_line [OF x(2) j(2)] by blast
  qed
  show ?thesis
    using s opened closed by blast
qed

text \<open>An attachment that lives 8 microseconds; the minimum duration filters nothing here.\<close>

definition sample_life :: "at_hit list" where
  "sample_life = [(CtorEntry, at_ctx 740 1000 [0xa0]), (ReleaseEntry, at_ctx 742 9000 [0, 0xa0])]"

lemma sample_life_events:
  "at_events (at_run sample_life at_init) =
     [opened_event (at_ctx 740 1000 [0xa0]) 0xa0,
      closed_event (at_ctx 742 9000 [0, 0xa0]) 0xa0 (opened_at (at_ctx 740 1000 [0xa0]))]"
  by (simp add: sample_life_def at_events_step live_step)

theorem attachments_reported_witness:
  "\<exists>s. at_event_loop \<lparr>arg_min_duration = None, arg_at_json = True\<rparr>
      [Readable (at_ring_items
        [(''t0'', opened_event (at_ctx 740 1000 [0xa0]) 0xa0),
         (''t1'', closed_event (at_ctx 742 9000 [0, 0xa0]) 0xa0 (opened_at (at_ctx 740 1000 [0xa0])))]),
       CtrlC] at_loop_init = (Some (Inr ()), s) \<and>
    at_dropped s = 0 \<and> length (at_out s) = 2 \<and>
    AtJson \<lparr>jae_ts = ''t1'', jae_event = ''closed'', jae_att_ptr = ''0xa0'', jae_duration_us = Some 8,
      jae_pid = 736, jae_tid = 742\<rparr> \<in> set (at_out s)"
proof -
  let ?a = "\<lparr>arg_min_duration = None, arg_at_json = True\<rparr>"
  let ?xs = "[(''t0'', opened_event (at_ctx 740 1000 [0xa0]) 0xa0),
      (''t1'', closed_event (at_ctx 742 9000 [0, 0xa0]) 0xa0 (opened_at (at_ctx 740 1000 [0xa0])))]"
  have "\<forall>h \<in> set sample_life. at_good h"
    by (simp add: sample_life_def)
  moreover have "map snd ?xs = at_events (at_run sample_life at_init)"
    by (simp add: sample_life_events)
  ultimately obtain s where s: "at_event_loop ?a [Readable (at_ring_items ?xs), CtrlC] at_loop_init =
      (Some (Inr ()), s)" "at_dropped s = 0"
    "at_out s = map (at_line ?a) (filter (\<lambda>x. at_accepts ?a (snd x)) ?xs)"
    using attachments_reported [of sample_life ?xs ?a] by blast
  have "lower_hex 160 = ''a0''"
    by (simp add: lower_hex_def digit_char_def radix_digits.simps char_of_def bit_0)
  then have "length (at_out s) = 2"
    "AtJson \<lparr>jae_ts = ''t1'', jae_event = ''closed'', jae_att_ptr = ''0xa0'', jae_duration_us = Some 8,
      jae_pid = 736, jae_tid = 742\<rparr> \<in> set (at_out s)"
    by (simp_all add: s(3) at_accepts_def min_duration_ns_def at_line_def at_write_json_def
        closed_event_def opened_at_def saturating_sub_def)
  then show ?thesis
    using s(1,2) by blast
qed

end
