(* ===== verification/Symbols.thy ===== *)
theory Symbols
  imports Prelude
begin

section \<open>Resolving probe offsets\<close>

text \<open>
  \<open>symbols.rs\<close> of tragach-slowquery, tragach-attach and tragach-pageio: a scan of the debug file's
  symbol table that collects, per probed function, the address of the symbols whose mangled name
  starts with its prefix. Reading the file and parsing ELF are not in the repository: they are
  the parameter \<open>elf_file\<close>. The interface \<open>symbol_scan\<close> states what the three loops have in
  common; derived are soundness, completeness and independence of the order of the symbol table.
\<close>

subsection \<open>The symbol table\<close>

record elf_symbol =
  sym_is_text :: bool
  sym_name :: "string option"
  sym_address :: u64

datatype resolve_error =
    ReadError string
  | ParseError string
  | MultipleMatches string u64 u64
  | SymbolNotFound string

text \<open>What reading and parsing the file at a path yields.\<close>

datatype elf_file = Unreadable | Unparsable | ElfSymbols "elf_symbol list"

fun open_elf :: "string \<Rightarrow> elf_file \<Rightarrow> resolve_error + elf_symbol list" where
  "open_elf path Unreadable = Inl (ReadError path)"
| "open_elf path Unparsable = Inl (ParseError path)"
| "open_elf path (ElfSymbols sys) = Inr sys"

text \<open>The first three guards of each loop: kind, name, cold clone.\<close>

definition candidate :: "elf_symbol \<Rightarrow> string option" where
  "candidate sy =
     (if \<not> sym_is_text sy then None
      else case sym_name sy of None \<Rightarrow> None
      | Some name \<Rightarrow> if ends_with name ''.cold'' then None else Some name)"

definition check_unique :: "string \<Rightarrow> u64 option \<Rightarrow> u64 \<Rightarrow> resolve_error + u64 option" where
  "check_unique label slot addr =
     (case slot of
        Some prev \<Rightarrow> if prev \<noteq> addr then Inl (MultipleMatches label prev addr) else Inr slot
      | None \<Rightarrow> Inr (Some addr))"

definition ok_or_not_found :: "string \<Rightarrow> u64 option \<Rightarrow> resolve_error + u64" where
  "ok_or_not_found label slot =
     (case slot of Some a \<Rightarrow> Inr a | None \<Rightarrow> Inl (SymbolNotFound label))"

definition and_then :: "'e + 'a \<Rightarrow> ('a \<Rightarrow> 'e + 'b) \<Rightarrow> 'e + 'b" where
  "and_then r f = (case r of Inl e \<Rightarrow> Inl e | Inr x \<Rightarrow> f x)"

lemma and_then_simps [simp]:
  "and_then (Inl e) f = Inl e" "and_then (Inr x) f = f x"
  by (simp_all add: and_then_def)

lemma and_then_Inr: "and_then r f = Inr y \<longleftrightarrow> (\<exists>x. r = Inr x \<and> f x = Inr y)"
  by (cases r) simp_all

lemma and_then_Inl: "and_then r f = Inl e \<longleftrightarrow> r = Inl e \<or> (\<exists>x. r = Inr x \<and> f x = Inl e)"
  by (cases r) simp_all

lemma ok_or_not_found_iff:
  "ok_or_not_found label slot = Inr a \<longleftrightarrow> slot = Some a"
  "ok_or_not_found label slot = Inl e \<longleftrightarrow> slot = None \<and> e = SymbolNotFound label"
  by (auto simp: ok_or_not_found_def split: option.splits)

lemma open_elf_Inr: "open_elf path f = Inr sys \<longleftrightarrow> f = ElfSymbols sys"
  by (cases f) simp_all

subsection \<open>The loop\<close>

text \<open>
  \<open>classify\<close> says which of the targets a symbol is for, \<open>slot\<close> and \<open>put\<close> read and write a target's
  slot, \<open>empty\<close> is the state in which every slot is empty.
\<close>

locale symbol_scan =
  fixes scan :: "elf_symbol list \<Rightarrow> 's \<Rightarrow> resolve_error + 's"
    and classify :: "elf_symbol \<Rightarrow> 'k option"
    and label :: "'k \<Rightarrow> string"
    and slot :: "'s \<Rightarrow> 'k \<Rightarrow> u64 option"
    and put :: "'k \<Rightarrow> u64 option \<Rightarrow> 's \<Rightarrow> 's"
    and empty :: 's
  assumes scan_Nil: "scan [] s = Inr s"
    and scan_skip: "classify sy = None \<Longrightarrow> scan (sy # sys) s = scan sys s"
    and scan_match: "classify sy = Some k \<Longrightarrow> scan (sy # sys) s =
      and_then (check_unique (label k) (slot s k) (sym_address sy)) (\<lambda>v. scan sys (put k v s))"
    and slot_put: "slot (put k v s) j = (if j = k then v else slot s j)"
    and slot_empty: "slot empty k = None"
begin

text \<open>The addresses of the symbols of one target.\<close>

definition found :: "elf_symbol list \<Rightarrow> 'k \<Rightarrow> u64 set" where
  "found sys k = sym_address ` {sy \<in> set sys. classify sy = Some k}"

definition consistent :: "elf_symbol list \<Rightarrow> 's \<Rightarrow> bool" where
  "consistent sys s \<longleftrightarrow>
     (\<forall>k a b. a \<in> found sys k \<union> set_option (slot s k) \<longrightarrow>
              b \<in> found sys k \<union> set_option (slot s k) \<longrightarrow> a = b)"

lemma found_Cons:
  "found (sy # sys) k = (if classify sy = Some k then {sym_address sy} else {}) \<union> found sys k"
  by (auto simp: found_def)

lemma check_unique_Inr:
  "check_unique l v a = Inr w \<longleftrightarrow> w = Some a \<and> (v = None \<or> v = Some a)"
  by (auto simp: check_unique_def split: option.splits)

lemma scan_Inr_iff:
  "(\<exists>t. scan sys s = Inr t) \<longleftrightarrow> consistent sys s"
proof (induction sys arbitrary: s)
  case Nil
  then show ?case
    by (auto simp: scan_Nil consistent_def found_def)
next
  case (Cons sy sys)
  show ?case
  proof (cases "classify sy")
    case None
    then show ?thesis
      using Cons.IH [of s] by (simp add: scan_skip consistent_def found_Cons)
  next
    case (Some k)
    show ?thesis
    proof (cases "slot s k = None \<or> slot s k = Some (sym_address sy)")
      case True
      then have "scan (sy # sys) s = scan sys (put k (Some (sym_address sy)) s)"
        by (auto simp: scan_match [OF Some] check_unique_def)
      moreover have "consistent (sy # sys) s \<longleftrightarrow> consistent sys (put k (Some (sym_address sy)) s)"
      proof -
        have "found (sy # sys) j \<union> set_option (slot s j) =
            found sys j \<union> set_option (slot (put k (Some (sym_address sy)) s) j)" for j
          using True Some by (auto simp: found_Cons slot_put)
        then show ?thesis
          by (simp only: consistent_def)
      qed
      ultimately show ?thesis
        using Cons.IH by simp
    next
      case False
      then have "\<not> consistent (sy # sys) s"
        using Some by (auto simp: consistent_def found_Cons)
      then show ?thesis
        using False by (auto simp: scan_match [OF Some] check_unique_def split: option.splits)
    qed
  qed
qed

lemma scan_slots:
  "scan sys s = Inr t \<Longrightarrow> set_option (slot t k) = found sys k \<union> set_option (slot s k)"
proof (induction sys arbitrary: s)
  case Nil
  then show ?case
    by (simp add: scan_Nil found_def)
next
  case (Cons sy sys)
  show ?case
  proof (cases "classify sy")
    case None
    then show ?thesis
      using Cons by (simp add: scan_skip found_Cons)
  next
    case (Some j)
    then obtain v where v: "check_unique (label j) (slot s j) (sym_address sy) = Inr v"
      and rest: "scan sys (put j v s) = Inr t"
      using Cons.prems by (auto simp: scan_match and_then_Inr)
    then have new: "v = Some (sym_address sy)"
      and old: "slot s j = None \<or> slot s j = Some (sym_address sy)"
      by (simp_all add: check_unique_Inr)
    have "set_option (slot t k) = found sys k \<union> set_option (slot (put j v s) k)"
      by (rule Cons.IH [OF rest])
    then show ?thesis
      using old Some by (cases "k = j"; elim disjE) (simp_all add: found_Cons slot_put new)
  qed
qed

lemma scan_from_empty:
  assumes "scan sys empty = Inr t"
  shows "slot t k = Some a \<longleftrightarrow> found sys k = {a}" "slot t k = None \<longleftrightarrow> found sys k = {}"
  using scan_slots [OF assms, of k] by (cases "slot t k"; auto simp: slot_empty)+

lemma scan_order:
  assumes "scan sys empty = Inr t" "set sys = set sys'"
  shows "\<exists>t'. scan sys' empty = Inr t' \<and> slot t' = slot t"
proof -
  have same: "found sys' = found sys"
    by (rule ext) (simp add: found_def assms(2))
  have "consistent sys' empty"
    using scan_Inr_iff [of sys empty] assms(1) by (auto simp: consistent_def same)
  then obtain t' where t': "scan sys' empty = Inr t'"
    using scan_Inr_iff by blast
  have "slot t' k = slot t k" for k
    using scan_from_empty [OF assms(1), of k] scan_from_empty [OF t', of k] same
    by (cases "slot t k") auto
  then show ?thesis
    using t' by auto
qed

lemma scan_error:
  assumes "scan sys s = Inl e"
  shows "\<exists>k a b. e = MultipleMatches (label k) a b \<and> a \<noteq> b \<and> b \<in> found sys k \<and>
    a \<in> found sys k \<union> set_option (slot s k)"
  using assms
proof (induction sys arbitrary: s)
  case Nil
  then show ?case by (simp add: scan_Nil)
next
  case (Cons sy sys)
  show ?case
  proof (cases "classify sy")
    case None
    then show ?thesis
      using Cons by (simp add: scan_skip found_Cons)
  next
    case (Some k)
    show ?thesis
    proof (cases "slot s k = None \<or> slot s k = Some (sym_address sy)")
      case True
      then have "scan sys (put k (Some (sym_address sy)) s) = Inl e"
        using Cons.prems by (auto simp: scan_match [OF Some] check_unique_def)
      then obtain j a b where "e = MultipleMatches (label j) a b" "a \<noteq> b" "b \<in> found sys j"
        "a \<in> found sys j \<union> set_option (slot (put k (Some (sym_address sy)) s) j)"
        using Cons.IH by blast
      then show ?thesis
        using Some by (intro exI [of _ j] exI [of _ a] exI [of _ b])
          (auto simp: found_Cons slot_put split: if_splits)
    next
      case False
      then obtain prev where "slot s k = Some prev" "prev \<noteq> sym_address sy"
        by auto
      then show ?thesis
        using Cons.prems Some
        by (auto simp: scan_match check_unique_def found_Cons)
    qed
  qed
qed

end

end
