(* ===== verification/Resolvers.thy ===== *)
theory Resolvers
  imports Symbols
begin

section \<open>The three resolvers\<close>

text \<open>
  \<open>resolve\<close> of the three tools: the loop over the symbol table with each tool's prefixes in the
  order of its \<open>if\<close> chain, and the final collection of the slots. Each loop is an interpretation
  of \<open>symbol_scan\<close>; the claims state what a resolver returns and when it fails.
\<close>

subsection \<open>tragach-slowquery\<close>

record dsql_offsets =
  off_prepare :: u64
  off_execute :: u64
  off_execute_immediate :: u64
  off_open_cursor :: u64
  off_fetch_next :: u64

record dsql_slots =
  sl_prepare :: "u64 option"
  sl_execute :: "u64 option"
  sl_execute_immediate :: "u64 option"
  sl_open_cursor :: "u64 option"
  sl_fetch_next :: "u64 option"

definition dsql_slots_empty :: dsql_slots where
  "dsql_slots_empty =
     \<lparr>sl_prepare = None, sl_execute = None, sl_execute_immediate = None, sl_open_cursor = None,
      sl_fetch_next = None\<rparr>"

fun dsql_scan :: "elf_symbol list \<Rightarrow> dsql_slots \<Rightarrow> resolve_error + dsql_slots" where
  "dsql_scan [] s = Inr s"
| "dsql_scan (sy # sys) s =
     (case candidate sy of None \<Rightarrow> dsql_scan sys s
      | Some name \<Rightarrow>
        if starts_with name ''_Z12DSQL_prepareP'' then
          and_then (check_unique ''DSQL_prepare'' (sl_prepare s) (sym_address sy))
            (\<lambda>v. dsql_scan sys (s\<lparr>sl_prepare := v\<rparr>))
        else if starts_with name ''_Z22DSQL_execute_immediateP'' then
          and_then (check_unique ''DSQL_execute_immediate'' (sl_execute_immediate s)
              (sym_address sy))
            (\<lambda>v. dsql_scan sys (s\<lparr>sl_execute_immediate := v\<rparr>))
        else if starts_with name ''_Z12DSQL_executeP'' then
          and_then (check_unique ''DSQL_execute'' (sl_execute s) (sym_address sy))
            (\<lambda>v. dsql_scan sys (s\<lparr>sl_execute := v\<rparr>))
        else if starts_with name ''_ZN3Jrd14DsqlDmlRequest10openCursorE'' then
          and_then (check_unique ''Jrd::DsqlDmlRequest::openCursor'' (sl_open_cursor s)
              (sym_address sy))
            (\<lambda>v. dsql_scan sys (s\<lparr>sl_open_cursor := v\<rparr>))
        else if starts_with name ''_ZN3Jrd10DsqlCursor9fetchNextE'' then
          and_then (check_unique ''Jrd::DsqlCursor::fetchNext'' (sl_fetch_next s) (sym_address sy))
            (\<lambda>v. dsql_scan sys (s\<lparr>sl_fetch_next := v\<rparr>))
        else dsql_scan sys s)"

definition dsql_collect :: "dsql_slots \<Rightarrow> resolve_error + dsql_offsets" where
  "dsql_collect s =
     and_then (ok_or_not_found ''DSQL_prepare'' (sl_prepare s)) (\<lambda>a.
     and_then (ok_or_not_found ''DSQL_execute'' (sl_execute s)) (\<lambda>b.
     and_then (ok_or_not_found ''DSQL_execute_immediate'' (sl_execute_immediate s)) (\<lambda>c.
     and_then (ok_or_not_found ''Jrd::DsqlDmlRequest::openCursor'' (sl_open_cursor s)) (\<lambda>d.
     and_then (ok_or_not_found ''Jrd::DsqlCursor::fetchNext'' (sl_fetch_next s)) (\<lambda>e.
     Inr \<lparr>off_prepare = a, off_execute = b, off_execute_immediate = c, off_open_cursor = d,
          off_fetch_next = e\<rparr>)))))"

definition resolve_dsql :: "string \<Rightarrow> elf_file \<Rightarrow> resolve_error + dsql_offsets" where
  "resolve_dsql path f =
     and_then (open_elf path f) (\<lambda>sys. and_then (dsql_scan sys dsql_slots_empty) dsql_collect)"

text \<open>The five targets, with their prefixes, labels and slots.\<close>

datatype dsql_target = TPrepare | TExecute | TExecuteImmediate | TOpenCursor | TFetchNext

fun dsql_prefix :: "dsql_target \<Rightarrow> string" where
  "dsql_prefix TPrepare = ''_Z12DSQL_prepareP''"
| "dsql_prefix TExecute = ''_Z12DSQL_executeP''"
| "dsql_prefix TExecuteImmediate = ''_Z22DSQL_execute_immediateP''"
| "dsql_prefix TOpenCursor = ''_ZN3Jrd14DsqlDmlRequest10openCursorE''"
| "dsql_prefix TFetchNext = ''_ZN3Jrd10DsqlCursor9fetchNextE''"

fun dsql_label :: "dsql_target \<Rightarrow> string" where
  "dsql_label TPrepare = ''DSQL_prepare''"
| "dsql_label TExecute = ''DSQL_execute''"
| "dsql_label TExecuteImmediate = ''DSQL_execute_immediate''"
| "dsql_label TOpenCursor = ''Jrd::DsqlDmlRequest::openCursor''"
| "dsql_label TFetchNext = ''Jrd::DsqlCursor::fetchNext''"

fun dsql_slot :: "dsql_slots \<Rightarrow> dsql_target \<Rightarrow> u64 option" where
  "dsql_slot s TPrepare = sl_prepare s"
| "dsql_slot s TExecute = sl_execute s"
| "dsql_slot s TExecuteImmediate = sl_execute_immediate s"
| "dsql_slot s TOpenCursor = sl_open_cursor s"
| "dsql_slot s TFetchNext = sl_fetch_next s"

fun dsql_put :: "dsql_target \<Rightarrow> u64 option \<Rightarrow> dsql_slots \<Rightarrow> dsql_slots" where
  "dsql_put TPrepare v s = s\<lparr>sl_prepare := v\<rparr>"
| "dsql_put TExecute v s = s\<lparr>sl_execute := v\<rparr>"
| "dsql_put TExecuteImmediate v s = s\<lparr>sl_execute_immediate := v\<rparr>"
| "dsql_put TOpenCursor v s = s\<lparr>sl_open_cursor := v\<rparr>"
| "dsql_put TFetchNext v s = s\<lparr>sl_fetch_next := v\<rparr>"

fun dsql_offset :: "dsql_offsets \<Rightarrow> dsql_target \<Rightarrow> u64" where
  "dsql_offset o' TPrepare = off_prepare o'"
| "dsql_offset o' TExecute = off_execute o'"
| "dsql_offset o' TExecuteImmediate = off_execute_immediate o'"
| "dsql_offset o' TOpenCursor = off_open_cursor o'"
| "dsql_offset o' TFetchNext = off_fetch_next o'"

text \<open>
  What a symbol is for, without the order of the \<open>if\<close> chain: no prefix is a prefix of another,
  so at most one target fits.
\<close>

definition dsql_matches :: "dsql_target \<Rightarrow> elf_symbol \<Rightarrow> bool" where
  "dsql_matches k sy \<longleftrightarrow>
     (\<exists>name. candidate sy = Some name \<and> starts_with name (dsql_prefix k))"

lemma dsql_prefixes_disjoint:
  "starts_with name (dsql_prefix j) \<Longrightarrow> starts_with name (dsql_prefix k) \<Longrightarrow> j = k"
  by (drule (1) starts_with_both) (cases j; cases k; simp add: starts_with_def)

definition dsql_classify :: "elf_symbol \<Rightarrow> dsql_target option" where
  "dsql_classify sy =
     (if dsql_matches TPrepare sy then Some TPrepare
      else if dsql_matches TExecuteImmediate sy then Some TExecuteImmediate
      else if dsql_matches TExecute sy then Some TExecute
      else if dsql_matches TOpenCursor sy then Some TOpenCursor
      else if dsql_matches TFetchNext sy then Some TFetchNext else None)"

lemma dsql_classify_iff: "dsql_classify sy = Some k \<longleftrightarrow> dsql_matches k sy"
proof
  show "dsql_classify sy = Some k \<Longrightarrow> dsql_matches k sy"
    by (auto simp: dsql_classify_def split: if_splits)
next
  assume k: "dsql_matches k sy"
  then have "dsql_matches j sy \<longleftrightarrow> j = k" for j
    using dsql_prefixes_disjoint by (auto simp: dsql_matches_def)
  then show "dsql_classify sy = Some k"
    by (cases k) (simp_all add: dsql_classify_def)
qed

lemma dsql_scan_step:
  "dsql_scan (sy # sys) s =
     (case dsql_classify sy of None \<Rightarrow> dsql_scan sys s
      | Some k \<Rightarrow> and_then (check_unique (dsql_label k) (dsql_slot s k) (sym_address sy))
                    (\<lambda>v. dsql_scan sys (dsql_put k v s)))"
  by (cases "candidate sy") (simp_all add: dsql_classify_def dsql_matches_def)

interpretation dsql: symbol_scan dsql_scan dsql_classify dsql_label dsql_slot dsql_put
  dsql_slots_empty
proof (unfold_locales, goal_cases)
  case (4 k v s j)
  then show ?case by (cases j; cases k) simp_all
next
  case (5 k)
  then show ?case by (cases k) (simp_all add: dsql_slots_empty_def)
qed (simp_all add: dsql_scan_step del: dsql_scan.simps(2))

lemma dsql_collect_Inr:
  "dsql_collect s = Inr o' \<longleftrightarrow> (\<forall>k. dsql_slot s k = Some (dsql_offset o' k))"
proof
  assume "dsql_collect s = Inr o'"
  then show "\<forall>k. dsql_slot s k = Some (dsql_offset o' k)"
    by (intro allI, case_tac k) (auto simp: dsql_collect_def and_then_Inr ok_or_not_found_iff)
next
  assume *: "\<forall>k. dsql_slot s k = Some (dsql_offset o' k)"
  show "dsql_collect s = Inr o'"
    using * [THEN spec, of TPrepare] * [THEN spec, of TExecute] * [THEN spec, of TExecuteImmediate]
      * [THEN spec, of TOpenCursor] * [THEN spec, of TFetchNext]
    by (simp add: dsql_collect_def ok_or_not_found_def)
qed

lemma dsql_collect_Inl:
  assumes "dsql_collect s = Inl e"
  shows "\<exists>k. dsql_slot s k = None \<and> e = SymbolNotFound (dsql_label k)"
proof -
  have "\<exists>k \<in> {TPrepare, TExecute, TExecuteImmediate, TOpenCursor, TFetchNext}.
      dsql_slot s k = None \<and> e = SymbolNotFound (dsql_label k)"
    using assms by (auto simp: dsql_collect_def ok_or_not_found_def split: option.splits)
  then show ?thesis by blast
qed

lemma dsql_found: "dsql.found sys k = sym_address ` {sy \<in> set sys. dsql_matches k sy}"
  by (simp add: dsql.found_def dsql_classify_iff)

lemma resolve_dsql_found:
  assumes "resolve_dsql path f = Inr offs"
  shows "\<exists>sys. f = ElfSymbols sys \<and>
    (\<forall>k. sym_address ` {sy \<in> set sys. dsql_matches k sy} = {dsql_offset offs k})"
  using assms dsql.scan_from_empty(1)
  by (cases f) (auto simp: resolve_dsql_def and_then_Inr dsql_collect_Inr simp flip: dsql_found)

lemma dsql_unique_resolves:
  assumes "\<forall>k. sym_address ` {sy \<in> set sys. dsql_matches k sy} = {dsql_offset offs k}"
  shows "resolve_dsql path (ElfSymbols sys) = Inr offs"
proof -
  have found: "\<forall>k. dsql.found sys k = {dsql_offset offs k}"
    using assms by (simp add: dsql_found)
  then have "dsql.consistent sys dsql_slots_empty"
    by (auto simp: dsql.consistent_def dsql.slot_empty)
  then obtain t where t: "dsql_scan sys dsql_slots_empty = Inr t"
    using dsql.scan_Inr_iff by blast
  then have "dsql_collect t = Inr offs"
    using dsql.scan_from_empty(1) [OF t] found by (simp add: dsql_collect_Inr)
  with t show ?thesis
    by (simp add: resolve_dsql_def)
qed

text \<open>C9: the statement tracer resolves its five probe offsets exactly when the debug file can be read
  and parsed and, for each probed function, the text symbols with its mangled prefix that are
  not cold clones all lie at one address, at least one exists, and that address is the offset.
  The order of the symbol table and duplicates at the same address do not matter.\<close>

theorem resolve_dsql_iff:
  "resolve_dsql path f = Inr offs \<longleftrightarrow>
     (\<exists>sys. f = ElfSymbols sys \<and>
       (\<forall>k. sym_address ` {sy \<in> set sys. dsql_matches k sy} = {dsql_offset offs k}))"
  using resolve_dsql_found dsql_unique_resolves by blast

text \<open>C35: when the statement tracer's resolver fails on a readable symbol table, the error is true: a
  multiple-match error names two different addresses that both carry a symbol of the named
  function, and a not-found error names a function no symbol of the table is for.\<close>

theorem resolve_dsql_errors:
  assumes "resolve_dsql path (ElfSymbols sys) = Inl e"
  shows "\<exists>k. (\<exists>a b. e = MultipleMatches (dsql_label k) a b \<and> a \<noteq> b \<and>
        {a, b} \<subseteq> sym_address ` {sy \<in> set sys. dsql_matches k sy}) \<or>
      e = SymbolNotFound (dsql_label k) \<and> (\<forall>sy \<in> set sys. \<not> dsql_matches k sy)"
proof (cases "dsql_scan sys dsql_slots_empty")
  case (Inl e')
  then have "resolve_dsql path (ElfSymbols sys) = Inl e'"
    by (simp add: resolve_dsql_def)
  then have "dsql_scan sys dsql_slots_empty = Inl e"
    using Inl assms by simp
  from dsql.scan_error [OF this] show ?thesis
    by (auto simp: dsql.slot_empty dsql_found)
next
  case (Inr t)
  then have "dsql_collect t = Inl e"
    using assms by (simp add: resolve_dsql_def)
  then obtain k where k: "dsql_slot t k = None" "e = SymbolNotFound (dsql_label k)"
    using dsql_collect_Inl by blast
  then have "dsql.found sys k = {}"
    using dsql.scan_from_empty(2) [OF Inr] by simp
  then show ?thesis
    using k(2) by (auto simp: dsql_found)
qed

definition text_symbol :: "string \<Rightarrow> u64 \<Rightarrow> elf_symbol" where
  "text_symbol name addr = \<lparr>sym_is_text = True, sym_name = Some name, sym_address = addr\<rparr>"

theorem resolve_dsql_errors_witness:
  "\<exists>k a b. resolve_dsql ''d'' (ElfSymbols [text_symbol ''_Z12DSQL_prepareP1'' 16,
      text_symbol ''_Z12DSQL_prepareP1.cold'' 24, text_symbol ''_Z12DSQL_prepareP2'' 32]) =
      Inl (MultipleMatches (dsql_label k) a b) \<and> a \<noteq> b"
proof -
  let ?sys = "[text_symbol ''_Z12DSQL_prepareP1'' 16,
      text_symbol ''_Z12DSQL_prepareP1.cold'' 24, text_symbol ''_Z12DSQL_prepareP2'' 32]"
  have "resolve_dsql ''d'' (ElfSymbols ?sys) = Inl (MultipleMatches ''DSQL_prepare'' 16 32)"
    by code_simp
  then show ?thesis
    using resolve_dsql_errors [of "''d''" ?sys "MultipleMatches ''DSQL_prepare'' 16 32"] by auto
qed

subsection \<open>tragach-attach\<close>

record attach_offsets =
  off_attachment_ctor :: u64
  off_release_attachment :: u64

record attach_slots =
  sl_attachment_ctor :: "u64 option"
  sl_release_attachment :: "u64 option"

definition attach_slots_empty :: attach_slots where
  "attach_slots_empty = \<lparr>sl_attachment_ctor = None, sl_release_attachment = None\<rparr>"

fun attach_scan :: "elf_symbol list \<Rightarrow> attach_slots \<Rightarrow> resolve_error + attach_slots" where
  "attach_scan [] s = Inr s"
| "attach_scan (sy # sys) s =
     (case candidate sy of None \<Rightarrow> attach_scan sys s
      | Some name \<Rightarrow>
        if starts_with name ''_ZN3Jrd10AttachmentC1E'' \<or>
           starts_with name ''_ZN3Jrd10AttachmentC2E'' then
          and_then (check_unique ''Jrd::Attachment::Attachment'' (sl_attachment_ctor s)
              (sym_address sy))
            (\<lambda>v. attach_scan sys (s\<lparr>sl_attachment_ctor := v\<rparr>))
        else if starts_with name ''_ZL18release_attachment'' then
          and_then (check_unique ''release_attachment'' (sl_release_attachment s)
              (sym_address sy))
            (\<lambda>v. attach_scan sys (s\<lparr>sl_release_attachment := v\<rparr>))
        else attach_scan sys s)"

definition attach_collect :: "attach_slots \<Rightarrow> resolve_error + attach_offsets" where
  "attach_collect s =
     and_then (ok_or_not_found ''Jrd::Attachment::Attachment'' (sl_attachment_ctor s)) (\<lambda>a.
     and_then (ok_or_not_found ''release_attachment'' (sl_release_attachment s)) (\<lambda>b.
     Inr \<lparr>off_attachment_ctor = a, off_release_attachment = b\<rparr>))"

definition resolve_attach :: "string \<Rightarrow> elf_file \<Rightarrow> resolve_error + attach_offsets" where
  "resolve_attach path f =
     and_then (open_elf path f) (\<lambda>sys. and_then (attach_scan sys attach_slots_empty) attach_collect)"

datatype attach_target = TCtor | TRelease

fun attach_label :: "attach_target \<Rightarrow> string" where
  "attach_label TCtor = ''Jrd::Attachment::Attachment''"
| "attach_label TRelease = ''release_attachment''"

fun attach_slot :: "attach_slots \<Rightarrow> attach_target \<Rightarrow> u64 option" where
  "attach_slot s TCtor = sl_attachment_ctor s"
| "attach_slot s TRelease = sl_release_attachment s"

fun attach_put :: "attach_target \<Rightarrow> u64 option \<Rightarrow> attach_slots \<Rightarrow> attach_slots" where
  "attach_put TCtor v s = s\<lparr>sl_attachment_ctor := v\<rparr>"
| "attach_put TRelease v s = s\<lparr>sl_release_attachment := v\<rparr>"

fun attach_offset :: "attach_offsets \<Rightarrow> attach_target \<Rightarrow> u64" where
  "attach_offset offs TCtor = off_attachment_ctor offs"
| "attach_offset offs TRelease = off_release_attachment offs"

fun attach_prefixes :: "attach_target \<Rightarrow> string list" where
  "attach_prefixes TCtor = [''_ZN3Jrd10AttachmentC1E'', ''_ZN3Jrd10AttachmentC2E'']"
| "attach_prefixes TRelease = [''_ZL18release_attachment'']"

definition attach_matches :: "attach_target \<Rightarrow> elf_symbol \<Rightarrow> bool" where
  "attach_matches k sy \<longleftrightarrow>
     (\<exists>name. candidate sy = Some name \<and> (\<exists>p \<in> set (attach_prefixes k). starts_with name p))"

lemma attach_prefixes_disjoint:
  "p \<in> set (attach_prefixes j) \<Longrightarrow> q \<in> set (attach_prefixes k) \<Longrightarrow>
     starts_with name p \<Longrightarrow> starts_with name q \<Longrightarrow> j = k"
  by (drule (1) starts_with_both) (cases j; cases k; auto simp: starts_with_def)

definition attach_classify :: "elf_symbol \<Rightarrow> attach_target option" where
  "attach_classify sy =
     (if attach_matches TCtor sy then Some TCtor
      else if attach_matches TRelease sy then Some TRelease else None)"

lemma attach_classify_iff: "attach_classify sy = Some k \<longleftrightarrow> attach_matches k sy"
proof
  show "attach_classify sy = Some k \<Longrightarrow> attach_matches k sy"
    by (auto simp: attach_classify_def split: if_splits)
next
  assume k: "attach_matches k sy"
  then have "attach_matches j sy \<longleftrightarrow> j = k" for j
    using attach_prefixes_disjoint unfolding attach_matches_def by (metis option.inject)
  then show "attach_classify sy = Some k"
    by (cases k) (simp_all add: attach_classify_def)
qed

lemma attach_scan_step:
  "attach_scan (sy # sys) s =
     (case attach_classify sy of None \<Rightarrow> attach_scan sys s
      | Some k \<Rightarrow> and_then (check_unique (attach_label k) (attach_slot s k) (sym_address sy))
                    (\<lambda>v. attach_scan sys (attach_put k v s)))"
  by (cases "candidate sy") (simp_all add: attach_classify_def attach_matches_def)

interpretation attach_syms: symbol_scan attach_scan attach_classify attach_label attach_slot
  attach_put attach_slots_empty
proof (unfold_locales, goal_cases)
  case (4 k v s j)
  then show ?case by (cases j; cases k) simp_all
next
  case (5 k)
  then show ?case by (cases k) (simp_all add: attach_slots_empty_def)
qed (simp_all add: attach_scan_step del: attach_scan.simps(2))

lemma attach_collect_Inr:
  "attach_collect s = Inr offs \<longleftrightarrow> (\<forall>k. attach_slot s k = Some (attach_offset offs k))"
proof
  assume "attach_collect s = Inr offs"
  then show "\<forall>k. attach_slot s k = Some (attach_offset offs k)"
    by (intro allI, case_tac k) (auto simp: attach_collect_def and_then_Inr ok_or_not_found_iff)
next
  assume *: "\<forall>k. attach_slot s k = Some (attach_offset offs k)"
  show "attach_collect s = Inr offs"
    using * [THEN spec, of TCtor] * [THEN spec, of TRelease]
    by (simp add: attach_collect_def ok_or_not_found_def)
qed

text \<open>The attachment tracer resolves its two offsets exactly when the constructor's symbols, both
  the complete-object and the base-object variant, lie at one address, the release function's
  symbols lie at one address, and those are the offsets; a table in which the two constructor
  variants differ is refused.\<close>

lemma resolve_attach_iff:
  "resolve_attach path f = Inr offs \<longleftrightarrow>
     (\<exists>sys. f = ElfSymbols sys \<and>
       (\<forall>k. sym_address ` {sy \<in> set sys. attach_matches k sy} = {attach_offset offs k}))"
proof (cases f)
  case (ElfSymbols sys)
  have "(\<exists>t. attach_scan sys attach_slots_empty = Inr t \<and> attach_collect t = Inr offs) \<longleftrightarrow>
      (\<forall>k. attach_syms.found sys k = {attach_offset offs k})" (is "?l \<longleftrightarrow> ?r")
  proof
    assume ?l
    then show ?r
      using attach_syms.scan_from_empty(1) by (auto simp: attach_collect_Inr)
  next
    assume r: ?r
    then have "attach_syms.consistent sys attach_slots_empty"
      by (auto simp: attach_syms.consistent_def attach_syms.slot_empty)
    then obtain t where t: "attach_scan sys attach_slots_empty = Inr t"
      using attach_syms.scan_Inr_iff by blast
    then have "attach_collect t = Inr offs"
      using attach_syms.scan_from_empty(1) [OF t] r by (simp add: attach_collect_Inr)
    with t show ?l by blast
  qed
  then show ?thesis
    by (simp add: resolve_attach_def ElfSymbols and_then_Inr attach_syms.found_def
        attach_classify_iff)
qed (simp_all add: resolve_attach_def)

subsection \<open>tragach-pageio\<close>

record pageio_offsets =
  off_cch_fetch_page :: u64

fun pageio_scan :: "elf_symbol list \<Rightarrow> u64 option \<Rightarrow> resolve_error + u64 option" where
  "pageio_scan [] slot = Inr slot"
| "pageio_scan (sy # sys) slot =
     (case candidate sy of None \<Rightarrow> pageio_scan sys slot
      | Some name \<Rightarrow>
        if starts_with name ''_Z14CCH_fetch_pagePN3Jrd9thread_dbE'' then
          and_then (check_unique ''CCH_fetch_page'' slot (sym_address sy)) (pageio_scan sys)
        else pageio_scan sys slot)"

definition resolve_pageio :: "string \<Rightarrow> elf_file \<Rightarrow> resolve_error + pageio_offsets" where
  "resolve_pageio path f =
     and_then (open_elf path f) (\<lambda>sys. and_then (pageio_scan sys None) (\<lambda>slot.
     and_then (ok_or_not_found ''CCH_fetch_page'' slot) (\<lambda>a. Inr \<lparr>off_cch_fetch_page = a\<rparr>)))"

definition pageio_matches :: "elf_symbol \<Rightarrow> bool" where
  "pageio_matches sy \<longleftrightarrow>
     (\<exists>name. candidate sy = Some name \<and> starts_with name ''_Z14CCH_fetch_pagePN3Jrd9thread_dbE'')"

interpretation pageio_syms: symbol_scan pageio_scan
  "\<lambda>sy. if pageio_matches sy then Some () else None" "\<lambda>_. ''CCH_fetch_page''"
  "\<lambda>s _. s" "\<lambda>_ v _. v" None
  by unfold_locales
    (auto simp: pageio_matches_def and_then_def split: if_splits option.splits)

text \<open>The page-I/O tracer resolves its offset exactly when the text symbols of the page-fetch
  function lie at one address, and that is the offset. The local callback whose mangled name
  starts with \<open>_ZZ\<close> and the shorter-named fetch function are never taken for it.\<close>

lemma resolve_pageio_iff:
  "(resolve_pageio path f = Inr offs \<longleftrightarrow>
     (\<exists>sys. f = ElfSymbols sys \<and>
        sym_address ` {sy \<in> set sys. pageio_matches sy} = {off_cch_fetch_page offs})) \<and>
   \<not> pageio_matches (text_symbol (''_ZZ14CCH_fetch_page'' @ rest) a) \<and>
   \<not> pageio_matches (text_symbol (''_Z9CCH_fetchP'' @ rest) a)"
proof (intro conjI)
  show "resolve_pageio path f = Inr offs \<longleftrightarrow>
     (\<exists>sys. f = ElfSymbols sys \<and>
        sym_address ` {sy \<in> set sys. pageio_matches sy} = {off_cch_fetch_page offs})"
  proof (cases f)
    case (ElfSymbols sys)
    have found: "pageio_syms.found sys () = sym_address ` {sy \<in> set sys. pageio_matches sy}"
      by (simp add: pageio_syms.found_def if_split_eq1)
    have "pageio_scan sys None = Inr (Some a) \<longleftrightarrow> pageio_syms.found sys () = {a}" for a
    proof
      assume "pageio_scan sys None = Inr (Some a)"
      then show "pageio_syms.found sys () = {a}"
        using pageio_syms.scan_from_empty(1) by blast
    next
      assume r: "pageio_syms.found sys () = {a}"
      then have "pageio_syms.consistent sys None"
        by (auto simp: pageio_syms.consistent_def)
      then obtain t where t: "pageio_scan sys None = Inr t"
        using pageio_syms.scan_Inr_iff by blast
      then show "pageio_scan sys None = Inr (Some a)"
        using pageio_syms.scan_from_empty(1) [OF t] r by simp
    qed
    then show ?thesis
      by (cases offs) (auto simp: resolve_pageio_def ElfSymbols and_then_Inr ok_or_not_found_iff found)
  qed (simp_all add: resolve_pageio_def)
qed (auto simp: pageio_matches_def candidate_def text_symbol_def starts_with_def split: if_splits)

end
