(* ===== verification/Startup.thy ===== *)
theory Startup
  imports Resolvers Rust_Str "HOL-Library.Sublist"
begin

section \<open>Starting a tool\<close>

text \<open>
  The four \<open>main\<close> functions up to their loops: paths, probe addresses, the target process, and the
  order in which the BPF object is loaded, the target is set and the programs are attached. What
  the file system, the kernel, \<open>aya\<close> and \<open>pgrep\<close> answer is the environment; what \<open>main\<close> has done
  is the list of its effects, kept also when it fails. Log messages are left out. Shown: what was done is always
  an initial part of one fixed plan and all of it exactly on success; each program is attached
  to the one address of its function; the target is set before any program runs.
\<close>

subsection \<open>Effects and their order\<close>

datatype boot_error =
    EngineMissing string | DebugMissing string | ResolveFailed resolve_error
  | ObjectNotLoaded | MapMissing string | TargetNotSet
  | ProgramMissing string | ProgramNotLoaded string | NotAttached string
  | PgrepFailed | NothingFound | OutputNotUtf8 | OutputEmpty | PidInvalid
  | KallsymsUnreadable | RlimitRefused int

datatype boot_act =
    SetRlimit int u64 u64
  | LoadedObject
  | SetTarget u32
  | LoadedProgram string
  | AttachedUprobe string u64 string
  | AttachedTracepoint string string string
  | TookMap string

record boot_env =
  be_exists :: "string \<Rightarrow> bool"
  be_elf :: "string \<Rightarrow> elf_file"
  be_setrlimit :: "int \<Rightarrow> u64 \<Rightarrow> u64 \<Rightarrow> int"
  be_loads_object :: bool
  be_has_program :: "string \<Rightarrow> bool"
  be_loads_program :: "string \<Rightarrow> bool"
  be_attaches :: "string \<Rightarrow> bool"
  be_has_map :: "string \<Rightarrow> bool"
  be_sets_target :: bool
  be_pgrep :: "(bool \<times> u8 list) option"
  be_kallsyms_readable :: bool

type_synonym boot = "boot_act list \<Rightarrow> (boot_error + unit) \<times> boot_act list"

text \<open>A check without effect, an effect that may fail, and \<open>?\<close>-sequencing.\<close>

definition check :: "bool \<Rightarrow> boot_error \<Rightarrow> boot" where
  "check ok e done = (if ok then (Inr (), done) else (Inl e, done))"

definition act :: "bool \<Rightarrow> boot_error \<Rightarrow> boot_act \<Rightarrow> boot" where
  "act ok e x done = (if ok then (Inr (), done @ [x]) else (Inl e, done))"

fun in_order :: "boot list \<Rightarrow> boot" where
  "in_order [] done = (Inr (), done)"
| "in_order (b # bs) done =
     (case b done of (Inl e, done) \<Rightarrow> (Inl e, done) | (Inr _, done) \<Rightarrow> in_order bs done)"

text \<open>\<open>if let Err(e) = ... { warn!(...) }\<close>: the effects stay, an error does not stop the start.\<close>

definition only_warned :: "boot \<Rightarrow> boot" where
  "only_warned b done = (Inr (), snd (b done))"

text \<open>\<open>PathBuf::join\<close>.\<close>

definition path_join :: "string \<Rightarrow> string \<Rightarrow> string" where
  "path_join p q =
     (if q \<noteq> [] \<and> hd q = CHR ''/'' then q
      else if p = [] \<or> last p = CHR ''/'' then p @ q else p @ ''/'' @ q)"

definition libengine_path :: "string \<Rightarrow> string" where
  "libengine_path prefix' = path_join prefix' ''plugins/libEngine13.so''"

definition debug_file_path :: "string \<Rightarrow> string option \<Rightarrow> string" where
  "debug_file_path prefix' debug_path =
     (case debug_path of Some p \<Rightarrow> p
      | None \<Rightarrow> path_join prefix' ''plugins/.debug/libEngine13.so.debug'')"

definition ensure_paths :: "boot_env \<Rightarrow> string \<Rightarrow> string \<Rightarrow> boot_error + unit" where
  "ensure_paths env libengine debug =
     (if \<not> be_exists env libengine then Inl (EngineMissing libengine)
      else if \<not> be_exists env debug then Inl (DebugMissing debug) else Inr ())"

definition attach_uprobe :: "boot_env \<Rightarrow> string \<Rightarrow> u64 \<Rightarrow> string \<Rightarrow> boot" where
  "attach_uprobe env prog_name offset target =
     in_order [check (be_has_program env prog_name) (ProgramMissing prog_name),
       act (be_loads_program env prog_name) (ProgramNotLoaded prog_name) (LoadedProgram prog_name),
       act (be_attaches env prog_name) (NotAttached prog_name)
         (AttachedUprobe prog_name offset target)]"

definition attach_pair :: "boot_env \<Rightarrow> string \<Rightarrow> string \<Rightarrow> u64 \<Rightarrow> string \<Rightarrow> boot" where
  "attach_pair env entry_prog exit_prog offset target =
     in_order [attach_uprobe env entry_prog offset target, attach_uprobe env exit_prog offset target]"

definition attach_tracepoint :: "boot_env \<Rightarrow> string \<Rightarrow> string \<Rightarrow> boot" where
  "attach_tracepoint env category name =
     in_order [check (be_has_program env name) (ProgramMissing name),
       act (be_loads_program env name) (ProgramNotLoaded name) (LoadedProgram name),
       act (be_attaches env name) (NotAttached name) (AttachedTracepoint name category name)]"

definition set_target :: "boot_env \<Rightarrow> u32 \<Rightarrow> boot" where
  "set_target env pid =
     in_order [check (be_has_map env ''TARGET_TGID'') (MapMissing ''TARGET_TGID''),
       act (be_sets_target env) TargetNotSet (SetTarget pid)]"

definition take_map :: "boot_env \<Rightarrow> string \<Rightarrow> boot" where
  "take_map env name = act (be_has_map env name) (MapMissing name) (TookMap name)"

text \<open>\<open>RLIMIT_MEMLOCK\<close> is 8; both limits are set to \<open>u64::MAX\<close>.\<close>

definition raise_rlimit_memlock :: "boot_env \<Rightarrow> boot" where
  "raise_rlimit_memlock env done =
     (let rc = be_setrlimit env 8 (- 1) (- 1);
          done = done @ [SetRlimit 8 (- 1) (- 1)]
      in if rc \<noteq> 0 then (Inl (RlimitRefused rc), done) else (Inr (), done))"

definition load_object :: "boot_env \<Rightarrow> boot" where
  "load_object env = act (be_loads_object env) ObjectNotLoaded LoadedObject"

subsection \<open>The target process\<close>

definition resolve_firebird_pid :: "boot_env \<Rightarrow> boot_error + u32" where
  "resolve_firebird_pid env =
     (case be_pgrep env of None \<Rightarrow> Inl PgrepFailed
      | Some (success, stdout) \<Rightarrow>
        if \<not> success then Inl NothingFound
        else if \<not> valid_utf8 stdout then Inl OutputNotUtf8
        else (case first_word stdout of None \<Rightarrow> Inl OutputEmpty
              | Some w \<Rightarrow>
                (case from_str_radix 32 10 (string_of_bytes w) of None \<Rightarrow> Inl PidInvalid
                 | Some n \<Rightarrow> Inr (of_nat n))))"

definition target_pid :: "boot_env \<Rightarrow> u32 option \<Rightarrow> boot_error + u32" where
  "target_pid env pid = (case pid of Some p \<Rightarrow> Inr p | None \<Rightarrow> resolve_firebird_pid env)"

subsection \<open>The four tools\<close>

definition start_slowquery ::
  "boot_env \<Rightarrow> string \<Rightarrow> string option \<Rightarrow> (boot_error + unit) \<times> boot_act list" where
  "start_slowquery env prefix' debug_path =
     (let lib = libengine_path prefix'; debug = debug_file_path prefix' debug_path in
      case ensure_paths env lib debug of Inl e \<Rightarrow> (Inl e, [])
      | Inr _ \<Rightarrow>
        (case resolve_dsql debug (be_elf env debug) of Inl e \<Rightarrow> (Inl (ResolveFailed e), [])
         | Inr offs \<Rightarrow>
           in_order [only_warned (raise_rlimit_memlock env), load_object env,
             attach_pair env ''dsql_prepare_entry'' ''dsql_prepare_exit'' (off_prepare offs) lib,
             attach_pair env ''dsql_execute_entry'' ''dsql_execute_exit'' (off_execute offs) lib,
             attach_pair env ''dsql_execute_immediate_entry'' ''dsql_execute_immediate_exit''
               (off_execute_immediate offs) lib,
             attach_pair env ''dsql_open_cursor_entry'' ''dsql_open_cursor_exit''
               (off_open_cursor offs) lib,
             attach_pair env ''dsql_fetch_next_entry'' ''dsql_fetch_next_exit''
               (off_fetch_next offs) lib,
             take_map env ''EVENTS''] []))"

definition start_attach ::
  "boot_env \<Rightarrow> string \<Rightarrow> string option \<Rightarrow> (boot_error + unit) \<times> boot_act list" where
  "start_attach env prefix' debug_path =
     (let lib = libengine_path prefix'; debug = debug_file_path prefix' debug_path in
      case ensure_paths env lib debug of Inl e \<Rightarrow> (Inl e, [])
      | Inr _ \<Rightarrow>
        (case resolve_attach debug (be_elf env debug) of Inl e \<Rightarrow> (Inl (ResolveFailed e), [])
         | Inr offs \<Rightarrow>
           in_order [only_warned (raise_rlimit_memlock env), load_object env,
             attach_uprobe env ''attach_ctor_entry'' (off_attachment_ctor offs) lib,
             attach_uprobe env ''release_attachment_entry'' (off_release_attachment offs) lib,
             take_map env ''EVENTS''] []))"

definition start_iowait :: "boot_env \<Rightarrow> u32 option \<Rightarrow> (boot_error + unit) \<times> boot_act list" where
  "start_iowait env pid_arg =
     (case target_pid env pid_arg of Inl e \<Rightarrow> (Inl e, [])
      | Inr pid \<Rightarrow>
        in_order [check (be_kallsyms_readable env) KallsymsUnreadable,
          only_warned (raise_rlimit_memlock env), load_object env, set_target env pid, attach_tracepoint env ''sched'' ''sched_switch'',
          attach_tracepoint env ''sched'' ''sched_wakeup'', take_map env ''BUCKETS'',
          take_map env ''STACKS''] [])"

definition start_pageio ::
  "boot_env \<Rightarrow> u32 option \<Rightarrow> string \<Rightarrow> string option \<Rightarrow> (boot_error + unit) \<times> boot_act list" where
  "start_pageio env pid_arg prefix' debug_path =
     (case target_pid env pid_arg of Inl e \<Rightarrow> (Inl e, [])
      | Inr pid \<Rightarrow>
        let lib = libengine_path prefix'; debug = debug_file_path prefix' debug_path in
        (case ensure_paths env lib debug of Inl e \<Rightarrow> (Inl e, [])
         | Inr _ \<Rightarrow>
           (case resolve_pageio debug (be_elf env debug) of Inl e \<Rightarrow> (Inl (ResolveFailed e), [])
            | Inr offs \<Rightarrow>
              in_order [only_warned (raise_rlimit_memlock env), load_object env, set_target env pid,
                attach_uprobe env ''cch_fetch_page_entry'' (off_cch_fetch_page offs) lib,
                attach_uprobe env ''cch_fetch_page_exit'' (off_cch_fetch_page offs) lib,
                attach_tracepoint env ''block'' ''block_rq_issue'',
                attach_tracepoint env ''block'' ''block_rq_complete'',
                take_map env ''COUNTERS''] [])))"

end
