(* ===== verification/Startup_Claims.thy ===== *)
theory Startup_Claims
  imports Startup
begin

section \<open>What a start-up has done\<close>

text \<open>
  A start-up follows a plan: the effects so far are always an initial part of it, and all of it
  when nothing failed. From the plans: which address each program is attached to, that the target
  process is set first, and which process \<open>pgrep\<close>'s output selects.
\<close>

definition follows :: "boot \<Rightarrow> boot_act list \<Rightarrow> bool" where
  "follows b plan \<longleftrightarrow>
     (\<forall>done. \<exists>q. prefix q plan \<and> snd (b done) = done @ q \<and> (fst (b done) = Inr () \<longrightarrow> q = plan))"

lemma follows_check: "follows (check ok e) []"
  by (simp add: follows_def check_def)

lemma follows_act: "follows (act ok e x) [x]"
  by (cases ok) (simp_all add: follows_def act_def)

lemma follows_in_order: "list_all2 follows bs ps \<Longrightarrow> follows (in_order bs) (concat ps)"
proof (induction bs arbitrary: ps)
  case Nil
  then show ?case by (simp add: follows_def)
next
  case (Cons b bs)
  then obtain p ps' where ps: "ps = p # ps'" and b: "follows b p" and bs: "list_all2 follows bs ps'"
    by (cases ps) auto
  have rest: "follows (in_order bs) (concat ps')"
    by (rule Cons.IH [OF bs])
  show ?case
    unfolding follows_def
  proof
    fix acts
    obtain q where q: "prefix q p" "snd (b acts) = acts @ q" "fst (b acts) = Inr () \<longrightarrow> q = p"
      using b unfolding follows_def by blast
    show "\<exists>q. prefix q (concat ps) \<and> snd (in_order (b # bs) acts) = acts @ q \<and>
        (fst (in_order (b # bs) acts) = Inr () \<longrightarrow> q = concat ps)"
    proof (cases "b acts")
      case (Pair r t)
      show ?thesis
      proof (cases r)
        case (Inl e)
        then show ?thesis
          using q Pair by (intro exI [of _ q]) (simp add: ps prefix_prefix)
      next
        case (Inr u)
        then have "t = acts @ p"
          using q Pair by simp
        moreover obtain q' where "prefix q' (concat ps')" "snd (in_order bs (acts @ p)) = (acts @ p) @ q'"
          "fst (in_order bs (acts @ p)) = Inr () \<longrightarrow> q' = concat ps'"
          using rest unfolding follows_def by blast
        ultimately show ?thesis
          using Pair Inr by (intro exI [of _ "p @ q'"]) (simp add: ps)
      qed
    qed
  qed
qed

lemma started:
  assumes "done = b []" "follows b plan"
  shows "prefix (snd done) plan" "fst done = Inr () \<Longrightarrow> snd done = plan"
proof -
  obtain q where q: "prefix q plan" "snd (b []) = [] @ q" "fst (b []) = Inr () \<longrightarrow> q = plan"
    using assms(2) unfolding follows_def by blast
  then show "prefix (snd done) plan" "fst done = Inr () \<Longrightarrow> snd done = plan"
    using assms(1) by simp_all
qed

text \<open>The plans of the building blocks.\<close>

definition uprobe_plan :: "string \<Rightarrow> u64 \<Rightarrow> string \<Rightarrow> boot_act list" where
  "uprobe_plan p off lib = [LoadedProgram p, AttachedUprobe p off lib]"

definition tracepoint_plan :: "string \<Rightarrow> string \<Rightarrow> boot_act list" where
  "tracepoint_plan category p = [LoadedProgram p, AttachedTracepoint p category p]"

lemma follows_uprobe: "follows (attach_uprobe env p off lib) (uprobe_plan p off lib)"
  using follows_in_order [of "[check (be_has_program env p) (ProgramMissing p),
      act (be_loads_program env p) (ProgramNotLoaded p) (LoadedProgram p),
      act (be_attaches env p) (NotAttached p) (AttachedUprobe p off lib)]"
      "[[], [LoadedProgram p], [AttachedUprobe p off lib]]"]
  by (simp add: attach_uprobe_def [abs_def] uprobe_plan_def follows_check follows_act)

lemma follows_tracepoint: "follows (attach_tracepoint env cat p) (tracepoint_plan cat p)"
  using follows_in_order [of "[check (be_has_program env p) (ProgramMissing p),
      act (be_loads_program env p) (ProgramNotLoaded p) (LoadedProgram p),
      act (be_attaches env p) (NotAttached p) (AttachedTracepoint p cat p)]"
      "[[], [LoadedProgram p], [AttachedTracepoint p cat p]]"]
  by (simp add: attach_tracepoint_def [abs_def] tracepoint_plan_def follows_check follows_act)

lemma follows_pair:
  "follows (attach_pair env p q off lib) (uprobe_plan p off lib @ uprobe_plan q off lib)"
  using follows_in_order [of "[attach_uprobe env p off lib, attach_uprobe env q off lib]"
      "[uprobe_plan p off lib, uprobe_plan q off lib]"]
  by (simp add: attach_pair_def [abs_def] follows_uprobe)

lemma follows_set_target: "follows (set_target env pid) [SetTarget pid]"
  using follows_in_order [of "[check (be_has_map env ''TARGET_TGID'') (MapMissing ''TARGET_TGID''),
      act (be_sets_target env) TargetNotSet (SetTarget pid)]" "[[], [SetTarget pid]]"]
  by (simp add: set_target_def [abs_def] follows_check follows_act)

lemma follows_single: "follows (load_object env) [LoadedObject]" "follows (take_map env n) [TookMap n]"
  by (simp_all add: load_object_def [abs_def] take_map_def [abs_def] follows_act)

lemma follows_rlimit: "follows (only_warned (raise_rlimit_memlock env)) [SetRlimit 8 (- 1) (- 1)]"
  by (simp add: follows_def only_warned_def raise_rlimit_memlock_def Let_def)

lemmas follows_blocks = follows_rlimit follows_check follows_uprobe follows_tracepoint follows_pair
  follows_set_target follows_single

subsection \<open>tragach-slowquery\<close>

fun dsql_programs :: "dsql_target \<Rightarrow> string \<times> string" where
  "dsql_programs TPrepare = (''dsql_prepare_entry'', ''dsql_prepare_exit'')"
| "dsql_programs TExecute = (''dsql_execute_entry'', ''dsql_execute_exit'')"
| "dsql_programs TExecuteImmediate =
     (''dsql_execute_immediate_entry'', ''dsql_execute_immediate_exit'')"
| "dsql_programs TOpenCursor = (''dsql_open_cursor_entry'', ''dsql_open_cursor_exit'')"
| "dsql_programs TFetchNext = (''dsql_fetch_next_entry'', ''dsql_fetch_next_exit'')"

definition pair_plan :: "dsql_target \<Rightarrow> dsql_offsets \<Rightarrow> string \<Rightarrow> boot_act list" where
  "pair_plan k offs lib =
     uprobe_plan (fst (dsql_programs k)) (dsql_offset offs k) lib @
     uprobe_plan (snd (dsql_programs k)) (dsql_offset offs k) lib"

definition slowquery_plan :: "dsql_offsets \<Rightarrow> string \<Rightarrow> boot_act list" where
  "slowquery_plan offs lib =
     [SetRlimit 8 (- 1) (- 1), LoadedObject] @ concat (map (\<lambda>k. pair_plan k offs lib)
       [TPrepare, TExecute, TExecuteImmediate, TOpenCursor, TFetchNext]) @ [TookMap ''EVENTS'']"

text \<open>C20: whatever fails, the statement tracer has done nothing or an initial part of its plan, and
  all of it if it started: raise the memory limit (whether or not that succeeds), load the object, attach the entry and the exit program of each of the
  five functions, take the ring. The address both programs of a function are attached to, in the
  engine library under the prefix, is the one address the debug file's symbols of that function
  have.\<close>

theorem slowquery_attaches_its_functions:
  "snd (start_slowquery env pre dbg) = [] \<and> fst (start_slowquery env pre dbg) \<noteq> Inr () \<or>
   (\<exists>sys offs. be_elf env (debug_file_path pre dbg) = ElfSymbols sys \<and>
      (\<forall>k. sym_address ` {sy \<in> set sys. dsql_matches k sy} = {dsql_offset offs k}) \<and>
      prefix (snd (start_slowquery env pre dbg)) (slowquery_plan offs (libengine_path pre)) \<and>
      (fst (start_slowquery env pre dbg) = Inr () \<longrightarrow>
        snd (start_slowquery env pre dbg) = slowquery_plan offs (libengine_path pre)))"
proof -
  let ?lib = "libengine_path pre" and ?debug = "debug_file_path pre dbg"
  consider (refused) e where "start_slowquery env pre dbg = (Inl e, [])"
    | (resolved) offs where "ensure_paths env ?lib ?debug = Inr ()"
        "resolve_dsql ?debug (be_elf env ?debug) = Inr offs"
    by (cases "ensure_paths env ?lib ?debug"; cases "resolve_dsql ?debug (be_elf env ?debug)")
      (auto simp: start_slowquery_def)
  then show ?thesis
  proof cases
    case resolved
    let ?boot = "in_order [only_warned (raise_rlimit_memlock env), load_object env,
       attach_pair env ''dsql_prepare_entry'' ''dsql_prepare_exit'' (off_prepare offs) ?lib,
       attach_pair env ''dsql_execute_entry'' ''dsql_execute_exit'' (off_execute offs) ?lib,
       attach_pair env ''dsql_execute_immediate_entry'' ''dsql_execute_immediate_exit''
         (off_execute_immediate offs) ?lib,
       attach_pair env ''dsql_open_cursor_entry'' ''dsql_open_cursor_exit'' (off_open_cursor offs) ?lib,
       attach_pair env ''dsql_fetch_next_entry'' ''dsql_fetch_next_exit'' (off_fetch_next offs) ?lib,
       take_map env ''EVENTS'']"
    have plan: "follows ?boot (concat [[SetRlimit 8 (- 1) (- 1)], [LoadedObject], pair_plan TPrepare offs ?lib,
        pair_plan TExecute offs ?lib, pair_plan TExecuteImmediate offs ?lib,
        pair_plan TOpenCursor offs ?lib, pair_plan TFetchNext offs ?lib, [TookMap ''EVENTS'']])"
      by (rule follows_in_order) (simp add: pair_plan_def follows_blocks)
    have steps: "concat [[SetRlimit 8 (- 1) (- 1)], [LoadedObject], pair_plan TPrepare offs ?lib,
        pair_plan TExecute offs ?lib, pair_plan TExecuteImmediate offs ?lib,
        pair_plan TOpenCursor offs ?lib, pair_plan TFetchNext offs ?lib, [TookMap ''EVENTS'']] =
        slowquery_plan offs ?lib"
      by (simp add: slowquery_plan_def)
    have boot: "start_slowquery env pre dbg = ?boot []"
      using resolved by (simp add: start_slowquery_def Let_def del: in_order.simps)
    obtain sys where "be_elf env ?debug = ElfSymbols sys"
      "\<forall>k. sym_address ` {sy \<in> set sys. dsql_matches k sy} = {dsql_offset offs k}"
      using resolve_dsql_found [OF resolved(2)] by blast
    then show ?thesis
      using started [OF boot plan] unfolding steps by blast
  qed simp
qed

subsection \<open>The target process\<close>

fun attaches :: "boot_act \<Rightarrow> bool" where
  "attaches (AttachedUprobe p off lib) = True"
| "attaches (AttachedTracepoint p cat n) = True"
| "attaches _ = False"

lemma target_first:
  assumes "prefix (as @ x # bs) (firsts @ SetTarget p # rest)" "attaches x"
    "\<forall>y \<in> set firsts. \<not> attaches y"
  shows "SetTarget p \<in> set as"
proof -
  obtain zs where plan: "firsts @ SetTarget p # rest = as @ x # bs @ zs"
    using assms(1) by (auto simp: prefix_def)
  then show ?thesis
    using assms(2,3)
  proof (induction firsts arbitrary: as)
    case Nil
    then show ?case by (cases as) auto
  next
    case (Cons y ys)
    then show ?case by (cases as) auto
  qed
qed

abbreviation before_target :: "boot_act list" where
  "before_target \<equiv> [SetRlimit 8 (- 1) (- 1), LoadedObject]"

lemma iowait_plan:
  "snd (start_iowait env pid) = [] \<or> (\<exists>p. target_pid env pid = Inr p \<and>
     prefix (snd (start_iowait env pid)) (before_target @ SetTarget p #
       tracepoint_plan ''sched'' ''sched_switch'' @ tracepoint_plan ''sched'' ''sched_wakeup'' @
       [TookMap ''BUCKETS'', TookMap ''STACKS'']))"
proof (cases "target_pid env pid")
  case (Inr p)
  let ?bs = "[check (be_kallsyms_readable env) KallsymsUnreadable,
      only_warned (raise_rlimit_memlock env), load_object env, set_target env p, attach_tracepoint env ''sched'' ''sched_switch'',
      attach_tracepoint env ''sched'' ''sched_wakeup'', take_map env ''BUCKETS'',
      take_map env ''STACKS'']"
  have plan: "follows (in_order ?bs) (concat [[], [SetRlimit 8 (- 1) (- 1)], [LoadedObject], [SetTarget p],
      tracepoint_plan ''sched'' ''sched_switch'', tracepoint_plan ''sched'' ''sched_wakeup'',
      [TookMap ''BUCKETS''], [TookMap ''STACKS'']])"
    by (rule follows_in_order) (simp add: follows_blocks)
  have boot: "start_iowait env pid = in_order ?bs []"
    using Inr by (simp add: start_iowait_def del: in_order.simps)
  show ?thesis
    using started(1) [OF boot plan] Inr by simp
qed (simp add: start_iowait_def)

lemma pageio_plan:
  "snd (start_pageio env pid pre dbg) = [] \<or> (\<exists>p rest. target_pid env pid = Inr p \<and>
     prefix (snd (start_pageio env pid pre dbg)) (before_target @ SetTarget p # rest))"
proof -
  let ?lib = "libengine_path pre" and ?debug = "debug_file_path pre dbg"
  consider "snd (start_pageio env pid pre dbg) = []"
    | (resolved) p offs where "target_pid env pid = Inr p" "ensure_paths env ?lib ?debug = Inr ()"
        "resolve_pageio ?debug (be_elf env ?debug) = Inr offs"
    by (cases "target_pid env pid"; cases "ensure_paths env ?lib ?debug";
        cases "resolve_pageio ?debug (be_elf env ?debug)") (auto simp: start_pageio_def)
  then show ?thesis
  proof cases
    case resolved
    let ?bs = "[only_warned (raise_rlimit_memlock env), load_object env, set_target env p,
        attach_uprobe env ''cch_fetch_page_entry'' (off_cch_fetch_page offs) ?lib,
        attach_uprobe env ''cch_fetch_page_exit'' (off_cch_fetch_page offs) ?lib,
        attach_tracepoint env ''block'' ''block_rq_issue'',
        attach_tracepoint env ''block'' ''block_rq_complete'', take_map env ''COUNTERS'']"
    let ?ps = "[[SetRlimit 8 (- 1) (- 1)], [LoadedObject], [SetTarget p],
        uprobe_plan ''cch_fetch_page_entry'' (off_cch_fetch_page offs) ?lib,
        uprobe_plan ''cch_fetch_page_exit'' (off_cch_fetch_page offs) ?lib,
        tracepoint_plan ''block'' ''block_rq_issue'', tracepoint_plan ''block'' ''block_rq_complete'',
        [TookMap ''COUNTERS'']]"
    have plan: "follows (in_order ?bs) (concat ?ps)"
      by (rule follows_in_order) (simp add: follows_blocks)
    have boot: "start_pageio env pid pre dbg = in_order ?bs []"
      using resolved by (simp add: start_pageio_def Let_def del: in_order.simps)
    have "concat ?ps = before_target @ SetTarget p # concat (drop 3 ?ps)"
      by simp
    then show ?thesis
      using started(1) [OF boot plan] resolved(1) by metis
  qed simp
qed

text \<open>C21: when a program of tragach-iowait or tragach-pageio is attached, the target process has been
  set before, to the process given on the command line or else found by \<open>pgrep\<close>: no hit meets a
  target that is not set yet.\<close>

theorem target_set_before_probes:
  assumes "attaches x"
    and "snd (start_iowait env pid) = as @ x # bs \<or> snd (start_pageio env pid pre dbg) = as @ x # bs"
  shows "\<exists>p. target_pid env pid = Inr p \<and> SetTarget p \<in> set as"
  using assms(2)
proof
  assume at: "snd (start_iowait env pid) = as @ x # bs"
  then show ?thesis
    using iowait_plan [of env pid] target_first [OF _ assms(1), of as bs before_target] by auto
next
  assume at: "snd (start_pageio env pid pre dbg) = as @ x # bs"
  then show ?thesis
    using pageio_plan [of env pid pre dbg] target_first [OF _ assms(1), of as bs before_target]
    by auto
qed

text \<open>An environment in which everything works.\<close>

definition sample_symbols :: "elf_symbol list" where
  "sample_symbols =
     [text_symbol ''_Z12DSQL_prepareP'' 16, text_symbol ''_Z12DSQL_prepareP.cold'' 24,
      text_symbol ''_Z12DSQL_executeP'' 32, text_symbol ''_Z22DSQL_execute_immediateP'' 48,
      text_symbol ''_ZN3Jrd14DsqlDmlRequest10openCursorE'' 64,
      text_symbol ''_ZN3Jrd10DsqlCursor9fetchNextE'' 80]"

definition working_env :: boot_env where
  "working_env =
     \<lparr>be_exists = (\<lambda>_. True), be_elf = (\<lambda>_. ElfSymbols sample_symbols),
      be_setrlimit = (\<lambda>_ _ _. - 1), be_loads_object = True,
      be_has_program = (\<lambda>_. True), be_loads_program = (\<lambda>_. True), be_attaches = (\<lambda>_. True),
      be_has_map = (\<lambda>_. True), be_sets_target = True, be_pgrep = None, be_kallsyms_readable = True\<rparr>"

lemma sample_resolves:
  "resolve_dsql d (ElfSymbols sample_symbols) =
     Inr \<lparr>off_prepare = 16, off_execute = 32, off_execute_immediate = 48, off_open_cursor = 64,
          off_fetch_next = 80\<rparr>"
proof -
  have "dsql_scan sample_symbols dsql_slots_empty =
      Inr \<lparr>sl_prepare = Some 16, sl_execute = Some 32, sl_execute_immediate = Some 48,
           sl_open_cursor = Some 64, sl_fetch_next = Some 80\<rparr>"
    by code_simp
  then show ?thesis
    by (simp add: resolve_dsql_def dsql_collect_def ok_or_not_found_def)
qed

theorem slowquery_attaches_its_functions_witness:
  "fst (start_slowquery working_env ''/opt/fb'' None) = Inr () \<and>
   (\<exists>offs. snd (start_slowquery working_env ''/opt/fb'' None) =
      slowquery_plan offs ''/opt/fb/plugins/libEngine13.so'')"
proof -
  have started: "fst (start_slowquery working_env ''/opt/fb'' None) = Inr ()"
    by (simp add: start_slowquery_def working_env_def ensure_paths_def sample_resolves Let_def
        load_object_def attach_pair_def attach_uprobe_def check_def act_def take_map_def only_warned_def
        raise_rlimit_memlock_def)
  then show ?thesis
    using slowquery_attaches_its_functions [of working_env "''/opt/fb''" None]
    by (auto simp: libengine_path_def path_join_def)
qed

theorem target_set_before_probes_witness:
  "SetTarget 736 \<in> set (take 4 (snd (start_iowait working_env (Some 736))))"
proof -
  let ?acts = "snd (start_iowait working_env (Some 736))"
  have "?acts = [SetRlimit 8 (- 1) (- 1), LoadedObject, SetTarget 736, LoadedProgram ''sched_switch''] @
      AttachedTracepoint ''sched_switch'' ''sched'' ''sched_switch'' #
      [LoadedProgram ''sched_wakeup'', AttachedTracepoint ''sched_wakeup'' ''sched'' ''sched_wakeup'',
       TookMap ''BUCKETS'', TookMap ''STACKS'']"
    by (simp add: start_iowait_def target_pid_def working_env_def load_object_def set_target_def
        attach_tracepoint_def check_def act_def take_map_def only_warned_def
        raise_rlimit_memlock_def)
  then show ?thesis
    using target_set_before_probes [of "AttachedTracepoint ''sched_switch'' ''sched'' ''sched_switch''"
        working_env "Some 736" "[SetRlimit 8 (- 1) (- 1), LoadedObject, SetTarget 736, LoadedProgram ''sched_switch'']"]
    by (auto simp: target_pid_def)
qed

subsection \<open>tragach-attach\<close>

definition attach_plan :: "attach_offsets \<Rightarrow> string \<Rightarrow> boot_act list" where
  "attach_plan offs lib =
     [SetRlimit 8 (- 1) (- 1), LoadedObject] @ uprobe_plan ''attach_ctor_entry'' (attach_offset offs TCtor) lib @
     uprobe_plan ''release_attachment_entry'' (attach_offset offs TRelease) lib @ [TookMap ''EVENTS'']"

lemma attach_attaches_its_functions:
  assumes "snd (start_attach env pre dbg) \<noteq> []"
  shows "\<exists>sys offs. be_elf env (debug_file_path pre dbg) = ElfSymbols sys \<and>
    (\<forall>k. sym_address ` {sy \<in> set sys. attach_matches k sy} = {attach_offset offs k}) \<and>
    prefix (snd (start_attach env pre dbg)) (attach_plan offs (libengine_path pre))"
proof -
  let ?lib = "libengine_path pre" and ?debug = "debug_file_path pre dbg"
  obtain offs where resolved: "ensure_paths env ?lib ?debug = Inr ()"
      "resolve_attach ?debug (be_elf env ?debug) = Inr offs"
    using assms
    by (cases "ensure_paths env ?lib ?debug"; cases "resolve_attach ?debug (be_elf env ?debug)")
      (auto simp: start_attach_def)
  let ?bs = "[only_warned (raise_rlimit_memlock env), load_object env,
      attach_uprobe env ''attach_ctor_entry'' (off_attachment_ctor offs) ?lib,
      attach_uprobe env ''release_attachment_entry'' (off_release_attachment offs) ?lib,
      take_map env ''EVENTS'']"
  have plan: "follows (in_order ?bs) (concat [[SetRlimit 8 (- 1) (- 1)], [LoadedObject],
      uprobe_plan ''attach_ctor_entry'' (off_attachment_ctor offs) ?lib,
      uprobe_plan ''release_attachment_entry'' (off_release_attachment offs) ?lib,
      [TookMap ''EVENTS'']])"
    by (rule follows_in_order) (simp add: follows_blocks)
  have boot: "start_attach env pre dbg = in_order ?bs []"
    using resolved by (simp add: start_attach_def Let_def del: in_order.simps)
  obtain sys where "be_elf env ?debug = ElfSymbols sys"
    "\<forall>k. sym_address ` {sy \<in> set sys. attach_matches k sy} = {attach_offset offs k}"
    using resolved(2) resolve_attach_iff by blast
  moreover have "prefix (snd (start_attach env pre dbg)) (attach_plan offs ?lib)"
    using started(1) [OF boot plan] by (simp add: attach_plan_def)
  ultimately show ?thesis by blast
qed

subsection \<open>The output of pgrep\<close>

definition pgrep_output :: "u32 list \<Rightarrow> u8 list" where
  "pgrep_output pids = concat (map (\<lambda>p. bytes_of_string (decimal (unat p)) @ [10]) pids)"

lemma decimal_bytes: "b \<in> set (bytes_of_string (decimal n)) \<Longrightarrow> 48 \<le> b \<and> b \<le> 57"
proof -
  assume "b \<in> set (bytes_of_string (decimal n))"
  then obtain d where d: "d \<in> set (radix_digits 10 n)" "b = of_nat (of_char (digit_char d))"
    by (auto simp: bytes_of_string_def decimal_def)
  then have "d < 10"
    using radix_digits_bounded [of 10 d n] by simp
  then have "of_char (digit_char d) = (48 + d :: nat)"
    by (simp add: digit_char_def)
  then have "unat b = 48 + d"
    using d(2) \<open>d < 10\<close> by (simp only:) (rule unat_of_nat_small, simp)
  then show ?thesis
    using \<open>d < 10\<close> by (simp add: word_le_nat_alt)
qed

lemma digit_not_space:
  assumes "48 \<le> b" "b \<le> (57 :: u8)"
  shows "white_space_at (b # bs) = 0"
proof -
  have "\<not> b \<le> 13" "b \<noteq> 32" "b \<noteq> 0xC2" "b \<noteq> 0xE1" "b \<noteq> 0xE2" "b \<noteq> 0xE3"
    using assms by (auto simp: word_le_nat_alt)
  then show ?thesis
    by (simp add: white_space_at_def byte_or_zero_def Let_def)
qed

lemma first_word_line:
  assumes "ds \<noteq> []" "\<forall>b \<in> set ds. 48 \<le> b \<and> b \<le> 57"
  shows "first_word (ds @ 10 # rest) = Some ds"
proof -
  have word: "until_white_space (ds @ 10 # rest) = ds"
    using assms(2)
  proof (induction ds)
    case Nil
    then show ?case by (simp add: white_space_at_def byte_or_zero_def)
  next
    case (Cons d ds)
    then show ?case using digit_not_space [of d] by simp
  qed
  obtain b ds' where ds: "ds = b # ds'"
    using assms(1) by (cases ds) auto
  then have "trim_start (ds @ 10 # rest) = ds @ 10 # rest"
    using assms(2) by (simp add: trim_start.simps [of "b # ds' @ 10 # rest"] digit_not_space)
  then show ?thesis
    using word ds by (simp add: first_word_def)
qed

lemma first_pid:
  assumes "pids \<noteq> []"
  shows "resolve_firebird_pid (env\<lparr>be_pgrep := Some (True, pgrep_output pids)\<rparr>) = Inr (hd pids)"
proof -
  obtain p ps where pids: "pids = p # ps"
    using assms by (cases pids) auto
  have "\<forall>b \<in> set (pgrep_output pids). b < 0x80"
  proof
    fix b assume "b \<in> set (pgrep_output pids)"
    then obtain q where "b = 10 \<or> b \<in> set (bytes_of_string (decimal (unat (q :: u32))))"
      by (auto simp: pgrep_output_def split: if_splits)
    then have "b = 10 \<or> 48 \<le> b \<and> b \<le> 57"
      using decimal_bytes by blast
    then show "b < 0x80"
      by (auto simp: word_le_nat_alt word_less_nat_alt)
  qed
  then have valid: "valid_utf8 (pgrep_output pids)"
    by (rule ascii_valid)
  have "first_word (bytes_of_string (decimal (unat p)) @ 10 # pgrep_output ps) =
      Some (bytes_of_string (decimal (unat p)))"
    by (rule first_word_line) (use decimal_bytes in \<open>auto simp: bytes_of_string_def\<close>)
  then have word: "first_word (pgrep_output pids) = Some (bytes_of_string (decimal (unat p)))"
    by (simp add: pids pgrep_output_def)
  have "from_str_radix 32 10 (decimal (unat p)) = Some (unat p)"
    using unsigned_less [of p] by (intro parse_decimal) simp
  then show ?thesis
    using valid word by (simp add: resolve_firebird_pid_def) (simp add: pids)
qed

end
