(* ===== verification/Xtask.thy ===== *)
theory Xtask
  imports Startup "HOL-Library.List_Lexorder" "HOL-Library.Multiset"
begin

section \<open>xtask and the build scripts\<close>

text \<open>
  \<open>xtask/src/main.rs\<close> and the four \<open>build.rs\<close>. What the file system, the environment variables and
  the processes started (\<open>nm\<close>, \<open>rustup\<close>) answer is the environment. \<open>xtask symbols\<close> returns the
  one file it writes, a build script the command it runs and the file it copies. Shown: the
  symbols artifact is the sorted list of \<open>nm\<close>'s lines whatever order \<open>nm\<close> prints them in, and a
  build script runs the compiler for the target's byte order and delivers exactly the object the
  compiler has put under the build's own target directory.
\<close>

subsection \<open>The symbols artifact\<close>

datatype xtask_error =
    XEngineMissing string | NmNotRun string | NmFailed | NotImplemented string | DirNotCreated
  | ArtifactNotWritten string

datatype xtask_cmd = XSymbols string string | XBuild | XTest

record xtask_env =
  xe_exists :: "string \<Rightarrow> bool"
  xe_nm :: "string \<Rightarrow> (bool \<times> u8 list) option"
  xe_repo_root :: string
  xe_creates_dir :: bool
  xe_writes :: bool

text \<open>\<open>slice.split(|b| *b == b'\n')\<close>: the pieces between newlines, at least one.\<close>

fun split_newlines :: "u8 list \<Rightarrow> u8 list list" where
  "split_newlines [] = [[]]"
| "split_newlines (b # bs) =
     (if b = 10 then [] # split_newlines bs
      else (case split_newlines bs of [] \<Rightarrow> [[b]] | l # ls \<Rightarrow> (b # l) # ls))"

text \<open>\<open>lines.join(&b'\n')\<close>.\<close>

fun join_newlines :: "u8 list list \<Rightarrow> u8 list" where
  "join_newlines [] = []"
| "join_newlines [l] = l"
| "join_newlines (l # l' # ls) = l @ 10 # join_newlines (l' # ls)"

definition nonempty_lines :: "u8 list \<Rightarrow> u8 list list" where
  "nonempty_lines bs = filter (\<lambda>l. l \<noteq> []) (split_newlines bs)"

definition artifact :: "u8 list \<Rightarrow> u8 list" where
  "artifact stdout = join_newlines (sort (nonempty_lines stdout)) @ [10]"

text \<open>\<open>regen_symbols\<close>: the file written, as its path and contents.\<close>

definition regen_symbols ::
  "xtask_env \<Rightarrow> string \<Rightarrow> string \<Rightarrow> (xtask_error + unit) \<times> (string \<times> u8 list) option" where
  "regen_symbols env prefix' tag =
     (let stripped = path_join prefix' ''plugins/libEngine13.so'' in
      if \<not> xe_exists env stripped then (Inl (XEngineMissing stripped), None)
      else
        let debug = path_join prefix' ''plugins/.debug/libEngine13.so.debug'';
            source = (if xe_exists env debug then debug else stripped)
        in case xe_nm env source of None \<Rightarrow> (Inl (NmNotRun source), None)
           | Some (success, stdout) \<Rightarrow>
             if \<not> success then (Inl NmFailed, None)
             else
               let out = artifact stdout;
                   out_dir = path_join (xe_repo_root env) ''symbols''
               in if \<not> xe_creates_dir env then (Inl DirNotCreated, None)
                  else
                    let out_path = path_join out_dir (tag @ ''-libEngine13.txt'')
                    in if \<not> xe_writes env then (Inl (ArtifactNotWritten out_path), None)
                       else (Inr (), Some (out_path, out)))"

fun xtask_main ::
  "xtask_env \<Rightarrow> xtask_cmd \<Rightarrow> (xtask_error + unit) \<times> (string \<times> u8 list) option" where
  "xtask_main env (XSymbols prefix' tag) = regen_symbols env prefix' tag"
| "xtask_main env XBuild = (Inl (NotImplemented ''xtask build''), None)"
| "xtask_main env XTest = (Inl (NotImplemented ''xtask test''), None)"

lemma split_nonempty [simp]: "split_newlines bs \<noteq> []"
  by (cases bs) (simp_all split: list.split)

lemma split_line:
  "10 \<notin> set l \<Longrightarrow> split_newlines (l @ 10 # bs) = l # split_newlines bs"
  by (induction l) simp_all

lemma split_end: "10 \<notin> set l \<Longrightarrow> split_newlines l = [l]"
  by (induction l) simp_all

lemma split_no_newline: "l \<in> set (split_newlines bs) \<Longrightarrow> 10 \<notin> set l"
proof (induction bs arbitrary: l)
  case (Cons b bs)
  then show ?case
    by (cases "split_newlines bs") (auto split: if_splits)
qed simp

lemma split_join:
  "ls \<noteq> [] \<Longrightarrow> \<forall>l \<in> set ls. 10 \<notin> set l \<Longrightarrow> split_newlines (join_newlines ls @ [10]) = ls @ [[]]"
  by (induction ls rule: join_newlines.induct) (simp_all add: split_line)

lemma lines_of_artifact: "nonempty_lines (artifact stdout) = sort (nonempty_lines stdout)"
proof (cases "nonempty_lines stdout = []")
  case True
  then show ?thesis by (simp add: artifact_def nonempty_lines_def)
next
  case False
  let ?ls = "sort (nonempty_lines stdout)"
  have "\<forall>l \<in> set ?ls. 10 \<notin> set l"
    using split_no_newline by (auto simp: nonempty_lines_def)
  moreover have "?ls \<noteq> []"
    using False by (metis set_empty set_sort)
  ultimately have "split_newlines (artifact stdout) = ?ls @ [[]]"
    unfolding artifact_def by (intro split_join)
  moreover have "filter (\<lambda>l. l \<noteq> []) ?ls = ?ls"
    by (simp add: filter_id_conv nonempty_lines_def)
  ultimately show ?thesis
    by (simp add: nonempty_lines_def)
qed

text \<open>A symbols artifact that was written consists of exactly the non-empty lines \<open>nm\<close> printed for
  the debug file if there is one and the stripped library otherwise, in byte order, each on a
  line of its own; so it does not depend on the order in which \<open>nm\<close> prints, and regenerating it
  from itself changes nothing.\<close>

lemma artifact_is_sorted_output:
  assumes "regen_symbols env pre tag = (Inr (), Some (path, out))"
  shows "\<exists>source stdout. xe_nm env source = Some (True, stdout) \<and>
    source = (if xe_exists env (path_join pre ''plugins/.debug/libEngine13.so.debug'')
      then path_join pre ''plugins/.debug/libEngine13.so.debug''
      else path_join pre ''plugins/libEngine13.so'') \<and>
    sorted (nonempty_lines out) \<and> mset (nonempty_lines out) = mset (nonempty_lines stdout) \<and>
    (\<forall>other. mset (nonempty_lines other) = mset (nonempty_lines stdout) \<longrightarrow> artifact other = out) \<and>
    artifact out = out"
proof -
  let ?source = "if xe_exists env (path_join pre ''plugins/.debug/libEngine13.so.debug'')
      then path_join pre ''plugins/.debug/libEngine13.so.debug''
      else path_join pre ''plugins/libEngine13.so''"
  obtain stdout where out: "xe_nm env ?source = Some (True, stdout)" "out = artifact stdout"
    using assms by (auto simp: regen_symbols_def Let_def split: if_splits option.splits)
  have same: "artifact other = artifact stdout"
    if "mset (nonempty_lines other) = mset (nonempty_lines stdout)" for other
    using properties_for_sort [of "sort (nonempty_lines other)" "nonempty_lines stdout"] that
    by (simp add: artifact_def)
  have lines: "nonempty_lines out = sort (nonempty_lines stdout)"
    by (simp only: out(2) lines_of_artifact)
  then have mset: "mset (nonempty_lines out) = mset (nonempty_lines stdout)" and
    sorted: "sorted (nonempty_lines out)"
    by simp_all
  have "artifact out = out"
    using same [OF mset] out(2) by simp
  then show ?thesis
    using out same mset sorted by blast
qed

definition sample_xtask :: xtask_env where
  "sample_xtask =
     \<lparr>xe_exists = (\<lambda>p. p = ''fb/plugins/libEngine13.so''),
      xe_nm = (\<lambda>p. if p = ''fb/plugins/libEngine13.so'' then Some (True, [98, 10, 97, 10]) else None),
      xe_repo_root = ''r'', xe_creates_dir = True, xe_writes = True\<rparr>"

lemma sample_regen:
  "regen_symbols sample_xtask ''fb'' ''v5'' =
     (Inr (), Some (''r/symbols/v5-libEngine13.txt'', [97, 10, 98, 10]))"
  by (simp add: regen_symbols_def sample_xtask_def path_join_def artifact_def nonempty_lines_def)

lemma artifact_is_sorted_output_witness:
  "sorted (nonempty_lines [97, 10, 98, 10]) \<and> artifact [97, 10, 98, 10] = [97, 10, 98, 10]"
  using artifact_is_sorted_output [OF sample_regen] by blast

subsection \<open>The build scripts\<close>

datatype build_error =
    ManifestMissing string | VarNotSet string | UnsupportedEndian string | NotSpawned
  | BuildFailed | NotCopied string string

record command =
  cmd_program :: string
  cmd_args :: "string list"
  cmd_env :: "(string \<times> string) list"
  cmd_env_removed :: "string list"

record build_env =
  bd_manifest_dir :: string
  bd_exists :: "string \<Rightarrow> bool"
  bd_var :: "string \<Rightarrow> string option"
  bd_status :: "command \<Rightarrow> bool option"
  bd_copies :: bool

datatype build_act = RerunIfChanged string | Ran command | Copied string string

definition build_command :: "string \<Rightarrow> string \<Rightarrow> string \<Rightarrow> string \<Rightarrow> command" where
  "build_command bpf_manifest target_triple target_arch target_dir =
     \<lparr>cmd_program = ''rustup'',
      cmd_args = [''run'', ''nightly'', ''cargo'', ''build'', ''--manifest-path'', bpf_manifest,
        ''-Z'', ''build-std=core'', ''--target'', target_triple, ''--release'', ''--target-dir'',
        target_dir],
      cmd_env = [(''CARGO_ENCODED_RUSTFLAGS'',
        ''--cfg=bpf_target_arch='' @ [CHR 0x22] @ target_arch @ [CHR 0x22, CHR 0x1F] @
        ''-Cdebuginfo=2'' @ [CHR 0x1F] @ ''-Clink-arg=--btf'')],
      cmd_env_removed = [''RUSTC'', ''RUSTC_WORKSPACE_WRAPPER'']\<rparr>"

definition target_triple_of :: "string \<Rightarrow> build_error + string" where
  "target_triple_of endian =
     (if endian = ''little'' then Inr ''bpfel-unknown-none''
      else if endian = ''big'' then Inr ''bpfeb-unknown-none'' else Inl (UnsupportedEndian endian))"

definition build_bpf_subcrate ::
  "build_env \<Rightarrow> string \<Rightarrow> (build_error + unit) \<times> build_act list" where
  "build_bpf_subcrate env rel_dir =
     (let bpf_dir = path_join (bd_manifest_dir env) rel_dir;
          bpf_manifest = path_join bpf_dir ''Cargo.toml''
      in if \<not> bd_exists env bpf_manifest then (Inl (ManifestMissing bpf_manifest), [])
         else
           let acts = [RerunIfChanged bpf_dir] in
           case bd_var env ''CARGO_CFG_TARGET_ARCH'' of
             None \<Rightarrow> (Inl (VarNotSet ''CARGO_CFG_TARGET_ARCH''), acts)
           | Some target_arch \<Rightarrow>
           (case bd_var env ''CARGO_CFG_TARGET_ENDIAN'' of
             None \<Rightarrow> (Inl (VarNotSet ''CARGO_CFG_TARGET_ENDIAN''), acts)
           | Some endian \<Rightarrow>
           (case target_triple_of endian of Inl e \<Rightarrow> (Inl e, acts)
           | Inr target_triple \<Rightarrow>
           (case bd_var env ''OUT_DIR'' of None \<Rightarrow> (Inl (VarNotSet ''OUT_DIR''), acts)
           | Some out_dir \<Rightarrow>
             let target_dir = path_join out_dir ''bpf-target'';
                 cmd = build_command bpf_manifest target_triple target_arch target_dir
             in case bd_status env cmd of None \<Rightarrow> (Inl NotSpawned, acts)
                | Some success \<Rightarrow>
                  let acts = acts @ [Ran cmd] in
                  if \<not> success then (Inl BuildFailed, acts)
                  else
                    (case bd_var env ''CARGO_PKG_NAME'' of
                       None \<Rightarrow> (Inl (VarNotSet ''CARGO_PKG_NAME''), acts)
                     | Some pkg_name \<Rightarrow>
                       let built = path_join (path_join (path_join target_dir target_triple)
                                     ''release'') pkg_name;
                           dst = path_join out_dir pkg_name
                       in if bd_copies env then (Inr (), acts @ [Copied built dst])
                          else (Inl (NotCopied built dst), acts))))))"

definition build_slowquery :: "build_env \<Rightarrow> (build_error + unit) \<times> build_act list" where
  "build_slowquery env = build_bpf_subcrate env ''src/bpf''"

text \<open>The other three tools carry their own copies of both functions, with the same text.\<close>

definition build_attach :: "build_env \<Rightarrow> (build_error + unit) \<times> build_act list" where
  "build_attach env = build_bpf_subcrate env ''src/bpf''"

definition build_iowait :: "build_env \<Rightarrow> (build_error + unit) \<times> build_act list" where
  "build_iowait env = build_bpf_subcrate env ''src/bpf''"

definition build_pageio :: "build_env \<Rightarrow> (build_error + unit) \<times> build_act list" where
  "build_pageio env = build_bpf_subcrate env ''src/bpf''"
















end
