(* ===== verification/Iowait_Classify.thy ===== *)
theory Iowait_Classify
  imports Prelude
begin

section \<open>tragach-iowait: classifying a kernel stack\<close>

text \<open>
  \<open>crates/tragach-iowait/src/classify.rs\<close> and \<open>meaningful_frame\<close> of its \<open>main.rs\<close>: the reason a
  thread was off the processor, from the symbol names of its kernel stack, leaf first. Shown: the
  leaf-most block-I/O or futex frame decides, and the frame reported as the cause is one of the
  stack's own frames.
\<close>

datatype reason = BlockIo | Futex | SchedDelay | OtherReason

fun reason_label :: "reason \<Rightarrow> string" where
  "reason_label BlockIo = ''block I/O wait''"
| "reason_label Futex = ''futex wait''"
| "reason_label SchedDelay = ''scheduler delay''"
| "reason_label OtherReason = ''other''"

definition is_block_io :: "string \<Rightarrow> bool" where
  "is_block_io name \<longleftrightarrow>
     starts_with name ''blk_'' \<or> starts_with name ''bio_'' \<or> starts_with name ''submit_bio'' \<or>
     starts_with name ''io_schedule'' \<or> starts_with name ''__io_schedule'' \<or>
     starts_with name ''wait_on_buffer''"

definition is_futex :: "string \<Rightarrow> bool" where
  "is_futex name \<longleftrightarrow>
     starts_with name ''futex_'' \<or> starts_with name ''do_futex'' \<or> starts_with name ''__futex''"

text \<open>The two loops of \<open>classify\<close>.\<close>

fun classify_specific :: "string list \<Rightarrow> reason option" where
  "classify_specific [] = None"
| "classify_specific (f # fs) =
     (if is_block_io f then Some BlockIo else if is_futex f then Some Futex
      else classify_specific fs)"

fun has_schedule :: "string list \<Rightarrow> bool" where
  "has_schedule [] = False"
| "has_schedule (f # fs) =
     (if starts_with f ''schedule'' \<or> f = ''__schedule'' then True else has_schedule fs)"

definition classify :: "string list \<Rightarrow> reason" where
  "classify frames =
     (case classify_specific frames of
        Some r \<Rightarrow> r
      | None \<Rightarrow> if has_schedule frames then SchedDelay else OtherReason)"

text \<open>
  \<open>meaningful_frame\<close>: the first frame that is not one of the scheduler's own; \<open>schedule_\<close>
  functions count as meaningful.
\<close>

definition is_scheduler_frame :: "string \<Rightarrow> bool" where
  "is_scheduler_frame s \<longleftrightarrow>
     s = ''__schedule'' \<or> starts_with s ''schedule'' \<and> \<not> starts_with s ''schedule_''"

fun first_meaningful :: "string list \<Rightarrow> string option" where
  "first_meaningful [] = None"
| "first_meaningful (s # fs) =
     (if is_scheduler_frame s then first_meaningful fs
      else if s = ''schedule'' then first_meaningful fs else Some s)"

definition meaningful_frame :: "string list \<Rightarrow> string" where
  "meaningful_frame frames =
     (case first_meaningful frames of
        Some s \<Rightarrow> s
      | None \<Rightarrow> (case frames of s # _ \<Rightarrow> s | [] \<Rightarrow> ''?''))"

subsection \<open>Which frame decides\<close>

definition specific :: "string \<Rightarrow> bool" where
  "specific f \<longleftrightarrow> is_block_io f \<or> is_futex f"

lemma prefix_heads:
  "starts_with (c # s) (d # p) \<longleftrightarrow> c = d \<and> starts_with s p" "starts_with s []"
  "\<not> starts_with [] (d # p)"
  by (auto simp: starts_with_def)

text \<open>No name is both: each of the block prefixes excludes each of the futex prefixes.\<close>

lemma not_both: "\<not> (is_block_io f \<and> is_futex f)"
proof
  let ?block = "[''blk_'', ''bio_'', ''submit_bio'', ''io_schedule'', ''__io_schedule'', ''wait_on_buffer'']"
  let ?futex = "[''futex_'', ''do_futex'', ''__futex'']"
  assume "is_block_io f \<and> is_futex f"
  then have "\<exists>p \<in> set ?block. starts_with f p" "\<exists>q \<in> set ?futex. starts_with f q"
    by (simp_all add: is_block_io_def is_futex_def)
  then obtain p q where "p \<in> set ?block" "q \<in> set ?futex" "starts_with p q \<or> starts_with q p"
    using starts_with_both by blast
  moreover have "\<forall>p \<in> set ?block. \<forall>q \<in> set ?futex. \<not> starts_with p q \<and> \<not> starts_with q p"
    by (simp add: prefix_heads)
  ultimately show False by blast
qed

lemma classify_specific_find:
  "classify_specific fs =
     map_option (\<lambda>f. if is_block_io f then BlockIo else Futex) (List.find specific fs)"
  by (induction fs) (auto simp: specific_def)

lemma has_schedule_ex:
  "has_schedule fs \<longleftrightarrow> (\<exists>f \<in> set fs. starts_with f ''schedule'' \<or> f = ''__schedule'')"
  by (induction fs) auto

text \<open>C36: the reason of a stack is decided by its leaf-most frame that names block I/O or a futex, if
  there is one; the frames closer to the root do not matter. Without one, the stack counts as
  scheduler delay exactly when some frame is a scheduler function, and as other otherwise.\<close>

theorem classify_leaf_decides:
  "(\<forall>f \<in> set leaf. \<not> specific f) \<longrightarrow>
     (is_block_io f \<longrightarrow> classify (leaf @ f # root) = BlockIo) \<and>
     (is_futex f \<longrightarrow> classify (leaf @ f # root) = Futex) \<and>
     (classify leaf = SchedDelay \<longleftrightarrow>
       (\<exists>g \<in> set leaf. starts_with g ''schedule'' \<or> g = ''__schedule'')) \<and>
     classify leaf \<in> {SchedDelay, OtherReason}"
proof (intro impI)
  assume leaf: "\<forall>f \<in> set leaf. \<not> specific f"
  then have none: "List.find specific leaf = None"
    by (simp add: find_None_iff)
  have "List.find specific (leaf @ f # root) = (if specific f then Some f else List.find specific root)"
    using leaf by (induction leaf) auto
  then show "(is_block_io f \<longrightarrow> classify (leaf @ f # root) = BlockIo) \<and>
     (is_futex f \<longrightarrow> classify (leaf @ f # root) = Futex) \<and>
     (classify leaf = SchedDelay \<longleftrightarrow>
       (\<exists>g \<in> set leaf. starts_with g ''schedule'' \<or> g = ''__schedule'')) \<and>
     classify leaf \<in> {SchedDelay, OtherReason}"
    using not_both [of f] none
    by (simp add: classify_def classify_specific_find has_schedule_ex specific_def)
qed

theorem classify_leaf_decides_witness:
  "classify [''__schedule'', ''schedule'', ''futex_wait_queue'', ''blk_mq_get_tag''] = Futex"
proof -
  have "\<forall>f \<in> set [''__schedule'', ''schedule'']. \<not> specific f" "is_futex ''futex_wait_queue''"
    by (simp_all add: specific_def is_block_io_def is_futex_def prefix_heads)
  then show ?thesis
    using classify_leaf_decides [of "[''__schedule'', ''schedule'']" "''futex_wait_queue''"
        "[''blk_mq_get_tag'']"] by simp
qed

subsection \<open>The frame that is shown\<close>

lemma first_meaningful_find:
  "first_meaningful fs = List.find (\<lambda>s. \<not> is_scheduler_frame s) fs"
  by (induction fs) (auto simp: is_scheduler_frame_def starts_with_def)

text \<open>The frame shown for a non-empty stack is one of its frames; it is a bare scheduler function
  only when the stack has nothing else, and then it is the leaf; an empty stack shows a question
  mark.\<close>

lemma meaningful_frame_of_stack:
  "meaningful_frame [] = ''?'' \<and>
   (fs \<noteq> [] \<longrightarrow> meaningful_frame fs \<in> set fs \<and>
      (is_scheduler_frame (meaningful_frame fs) \<longrightarrow>
         (\<forall>f \<in> set fs. is_scheduler_frame f) \<and> meaningful_frame fs = hd fs) \<and>
      (\<forall>g gs. fs = g # gs \<and> \<not> is_scheduler_frame g \<longrightarrow> meaningful_frame fs = g))"
proof (cases "List.find (\<lambda>s. \<not> is_scheduler_frame s) fs")
  case None
  then have "meaningful_frame fs = (case fs of s # _ \<Rightarrow> s | [] \<Rightarrow> ''?'')"
    by (simp add: meaningful_frame_def first_meaningful_find)
  moreover have "\<forall>f \<in> set fs. is_scheduler_frame f"
    using None by (simp add: find_None_iff)
  ultimately show ?thesis
    by (cases fs) (auto simp: meaningful_frame_def)
next
  case (Some s)
  then have "s \<in> set fs \<and> \<not> is_scheduler_frame s"
    by (auto simp: find_Some_iff)
  then show ?thesis
    using Some by (auto simp: meaningful_frame_def first_meaningful_find split: if_splits)
qed

lemma meaningful_frame_of_stack_witness:
  "meaningful_frame [''schedule_timeout'', ''__schedule''] = ''schedule_timeout''"
  using meaningful_frame_of_stack [of "[''schedule_timeout'', ''__schedule'']"]
  by (simp add: is_scheduler_frame_def prefix_heads)

end
