(* ===== verification/Kallsyms.thy ===== *)
theory Kallsyms
  imports Rust_Str
begin

section \<open>tragach-iowait: kernel symbols\<close>

text \<open>
  \<open>crates/tragach-iowait/src/kallsyms.rs\<close>: the table of kernel symbols and the lookup of an
  instruction pointer. Reading the file is a parameter: its contents, or nothing if it cannot be
  read as text. Shown: a loaded table is sorted and holds no zero address; a lookup names the
  symbol with the largest address not above the pointer; the binary search in the sorted table
  gives what a plain scan of the file would; and lines in the kernel's format are
  loaded back.
\<close>

type_synonym kallsyms = "(u64 \<times> string) list"

text \<open>One line: \<open>None\<close> is a \<open>continue\<close> of the loop.\<close>

definition parse_line :: "string \<Rightarrow> (u64 \<times> string) option" where
  "parse_line line =
     (case splitn 3 (CHR '' '') line of
        addr_s # _ # name # _ \<Rightarrow>
          (case from_str_radix 64 16 addr_s of
             None \<Rightarrow> None
           | Some a \<Rightarrow>
               let addr = of_nat a :: u64
               in if addr = 0 then None
                  else Some (addr, before_char (CHR 0x09) name))
      | _ \<Rightarrow> None)"

definition parse_text :: "string \<Rightarrow> (u64 \<times> string) list" where
  "parse_text text' = List.map_filter parse_line (lines_of text')"

definition load :: "string option \<Rightarrow> unit + kallsyms" where
  "load file =
     (case file of None \<Rightarrow> Inl () | Some text' \<Rightarrow> Inr (sort_key fst (parse_text text')))"

definition kallsyms_len :: "kallsyms \<Rightarrow> nat" where
  "kallsyms_len syms = length syms"

text \<open>
  \<open>partition_point\<close>, the standard library's binary search: the window of \<open>sz\<close> elements from
  \<open>base\<close> is halved until one element is left, which decides.
\<close>

function bisect :: "('a \<Rightarrow> bool) \<Rightarrow> 'a list \<Rightarrow> nat \<Rightarrow> nat \<Rightarrow> nat" where
  "bisect P xs base sz =
     (if sz \<le> 1 then base
      else let half = sz div 2; mid = base + half
           in bisect P xs (if P (xs ! mid) then mid else base) (sz - half))"
  by auto
termination
  by (relation "measure (\<lambda>(P, xs, base, sz). sz)") auto

declare bisect.simps [simp del]

definition partition_point :: "('a \<Rightarrow> bool) \<Rightarrow> 'a list \<Rightarrow> nat" where
  "partition_point P xs =
     (if xs = [] then 0
      else let base = bisect P xs 0 (length xs) in if P (xs ! base) then base + 1 else base)"

definition lookup :: "kallsyms \<Rightarrow> u64 \<Rightarrow> string" where
  "lookup syms ip =
     (if ip = 0 \<or> syms = [] then ''?''
      else
        let idx = partition_point (\<lambda>x. fst x \<le> ip) syms
        in if idx = 0 then ''0x'' @ lower_hex (unat ip)
           else snd (syms ! (idx - 1)))"

subsection \<open>The table\<close>

lemma load_sorted: "load file = Inr syms \<Longrightarrow> sorted (map fst syms)"
  by (auto simp: load_def split: option.splits)

lemma parse_line_nonzero: "parse_line l = Some (a, n) \<Longrightarrow> a \<noteq> 0"
  by (auto simp: parse_line_def Let_def split: list.splits option.splits if_splits)

text \<open>
  Where \<open>p\<close> is the number of leading elements that satisfy the predicate, and no later one does,
  the search keeps \<open>p\<close> within its window.
\<close>

lemma bisect_window:
  assumes "\<forall>i < length xs. P (xs ! i) \<longleftrightarrow> i < p" "base + sz \<le> length xs" "1 \<le> sz"
    "base = 0 \<or> base < p" "p \<le> base + sz"
  shows "let b = bisect P xs base sz in b < length xs \<and> (b = 0 \<or> b < p) \<and> p \<le> b + 1"
  using assms
proof (induction P xs base sz rule: bisect.induct [case_names halve])
  case (halve P xs base sz)
  show ?case
  proof (cases "sz \<le> 1")
    case True
    then show ?thesis
      using halve.prems by (simp add: bisect.simps [of P xs base sz])
  next
    case False
    let ?half = "sz div 2" let ?base = "if P (xs ! (base + ?half)) then base + ?half else base"
    have half: "1 \<le> ?half" "?half \<le> sz - ?half"
      using False by simp_all
    then have mid: "P (xs ! (base + ?half)) \<longleftrightarrow> base + ?half < p"
      using halve.prems(1,2) False by simp
    have "?base + (sz - ?half) \<le> length xs" "1 \<le> sz - ?half" "?base = 0 \<or> ?base < p"
      "p \<le> ?base + (sz - ?half)"
      using mid half halve.prems(2-5) by auto
    from halve.IH [OF False refl refl halve.prems(1) this] show ?thesis
      using False by (simp only: bisect.simps [of P xs base sz] Let_def if_False)
  qed
qed

lemma partition_point_takeWhile:
  assumes "\<forall>i < length xs. P (xs ! i) \<longleftrightarrow> i < length (takeWhile P xs)"
  shows "partition_point P xs = length (takeWhile P xs)"
proof (cases "xs = []")
  case False
  let ?p = "length (takeWhile P xs)" and ?b = "bisect P xs 0 (length xs)"
  have "?b < length xs \<and> (?b = 0 \<or> ?b < ?p) \<and> ?p \<le> ?b + 1"
    using bisect_window [OF assms, of 0 "length xs"] False
    by (simp add: Let_def Suc_le_eq length_takeWhile_le)
  then show ?thesis
    using assms False by (auto simp: partition_point_def Let_def)
qed (simp add: partition_point_def)

text \<open>In a sorted table the elements not above the pointer are the leading ones.\<close>

lemma leading_elements:
  assumes "sorted (map fst syms)"
  shows "i < length syms \<Longrightarrow> fst (syms ! i) \<le> ip \<longleftrightarrow> i < length (takeWhile (\<lambda>x. fst x \<le> ip) syms)"
  using assms
proof (induction syms arbitrary: i)
  case (Cons x syms)
  show ?case
  proof (cases i)
    case 0
    then show ?thesis by simp
  next
    case (Suc j)
    then have le: "fst x \<le> fst (syms ! j)"
      using Cons.prems by simp
    show ?thesis
    proof (cases "fst x \<le> ip")
      case True
      then show ?thesis
        using Cons.IH [of j] Cons.prems Suc by simp
    next
      case False
      then have "\<not> fst (syms ! j) \<le> ip"
        using le by (meson order_trans)
      then show ?thesis
        using False Suc by simp
    qed
  qed
qed simp

lemma partition_point_eq:
  "sorted (map fst syms) \<Longrightarrow>
     partition_point (\<lambda>x. fst x \<le> ip) syms = length (takeWhile (\<lambda>x. fst x \<le> ip) syms)"
  by (intro partition_point_takeWhile allI impI leading_elements)

lemma partition_point_sorted:
  "sorted (map fst syms) \<Longrightarrow> i < length syms \<Longrightarrow>
     fst (syms ! i) \<le> ip \<longleftrightarrow> i < partition_point (\<lambda>x. fst x \<le> ip) syms"
  by (simp add: partition_point_eq leading_elements)

text \<open>Looking an instruction pointer up in a loaded table names a symbol whose address is the
  largest one not above the pointer (of several at that address the last in file order); below
  the first symbol it is the pointer in hexadecimal, and a zero pointer or an empty table gives
  a question mark.\<close>

lemma lookup_largest_below:
  assumes "load file = Inr syms"
  shows "(ip = 0 \<or> syms = [] \<longrightarrow> lookup syms ip = ''?'') \<and>
    (ip \<noteq> 0 \<and> syms \<noteq> [] \<and> (\<forall>x \<in> set syms. ip < fst x) \<longrightarrow>
       lookup syms ip = ''0x'' @ lower_hex (unat ip)) \<and>
    (ip \<noteq> 0 \<and> (\<exists>x \<in> set syms. fst x \<le> ip) \<longrightarrow>
       (\<exists>i < length syms. lookup syms ip = snd (syms ! i) \<and> fst (syms ! i) \<le> ip \<and>
          (\<forall>j < length syms. fst (syms ! j) \<le> ip \<longrightarrow> j \<le> i \<and> fst (syms ! j) \<le> fst (syms ! i))))"
proof -
  let ?p = "partition_point (\<lambda>x. fst x \<le> ip) syms"
  have sorted: "sorted (map fst syms)"
    using assms by (rule load_sorted)
  note below = partition_point_sorted [OF sorted, of _ ip]
  have len: "?p \<le> length syms"
    by (simp add: partition_point_eq [OF sorted] length_takeWhile_le)
  have "lookup syms ip = ''0x'' @ lower_hex (unat ip)"
    if "ip \<noteq> 0" "syms \<noteq> []" "\<forall>x \<in> set syms. ip < fst x"
  proof -
    have "?p = 0"
      using that(2,3) sorted by (cases syms) (auto simp: partition_point_eq not_le)
    then show ?thesis
      using that by (simp add: lookup_def)
  qed
  moreover have "\<exists>i < length syms. lookup syms ip = snd (syms ! i) \<and> fst (syms ! i) \<le> ip \<and>
      (\<forall>j < length syms. fst (syms ! j) \<le> ip \<longrightarrow> j \<le> i \<and> fst (syms ! j) \<le> fst (syms ! i))"
    if nz: "ip \<noteq> 0" and some: "\<exists>x \<in> set syms. fst x \<le> ip"
  proof -
    obtain k where "k < length syms" "fst (syms ! k) \<le> ip"
      using some by (metis in_set_conv_nth)
    then have pos: "k < ?p"
      using below by blast
    then have last: "?p - 1 < length syms" "fst (syms ! (?p - 1)) \<le> ip"
      using below [of "?p - 1"] len by auto
    moreover have "lookup syms ip = snd (syms ! (?p - 1))"
      using nz pos len by (auto simp: lookup_def)
    moreover have "j \<le> ?p - 1 \<and> fst (syms ! j) \<le> fst (syms ! (?p - 1))"
      if j: "j < length syms" "fst (syms ! j) \<le> ip" for j
    proof -
      have "j \<le> ?p - 1"
        using below [of j] j pos by auto
      then show ?thesis
        using sorted last(1) by (simp add: sorted_iff_nth_mono)
    qed
    ultimately show ?thesis by blast
  qed
  ultimately show ?thesis
    by (auto simp: lookup_def)
qed

subsection \<open>The lookup is a scan of the file\<close>

text \<open>
  The reference: go through the symbols in file order, unsorted, and keep the last one whose
  address is not above the pointer and not below the best so far.
\<close>

definition nearer :: "u64 \<Rightarrow> (u64 \<times> string) option \<Rightarrow> u64 \<times> string \<Rightarrow> (u64 \<times> string) option" where
  "nearer ip best x =
     (if fst x \<le> ip \<and> (case best of None \<Rightarrow> True | Some y \<Rightarrow> fst y \<le> fst x) then Some x else best)"

definition scan :: "u64 \<Rightarrow> (u64 \<times> string) list \<Rightarrow> (u64 \<times> string) option" where
  "scan ip xs = foldl (nearer ip) None xs"

definition scan_lookup :: "(u64 \<times> string) list \<Rightarrow> u64 \<Rightarrow> string" where
  "scan_lookup xs ip =
     (if ip = 0 \<or> xs = [] then ''?''
      else case scan ip xs of None \<Rightarrow> ''0x'' @ lower_hex (unat ip) | Some x \<Rightarrow> snd x)"

lemma scan_snoc: "scan ip (xs @ [x]) = nearer ip (scan ip xs) x"
  by (simp add: scan_def)

text \<open>The scan's result depends only on the symbols of each address and their order.\<close>

lemma scan_None_iff: "scan ip xs = None \<longleftrightarrow> (\<forall>x \<in> set xs. ip < fst x)"
  by (induction xs rule: rev_induct)
    (auto simp: scan_snoc nearer_def scan_def not_le split: option.splits if_splits)

lemma scan_Some:
  "scan ip xs = Some y \<Longrightarrow> fst y \<le> ip \<and> (\<forall>x \<in> set xs. fst x \<le> ip \<longrightarrow> fst x \<le> fst y) \<and>
     (\<exists>ys. filter (\<lambda>x. fst x = fst y) xs = ys @ [y])"
proof (induction xs arbitrary: y rule: rev_induct)
  case Nil
  then show ?case by (simp add: scan_def)
next
  case (snoc x xs)
  show ?case
  proof (cases "scan ip xs")
    case None
    then have "\<forall>z \<in> set xs. ip < fst z"
      by (simp add: scan_None_iff)
    then show ?thesis
      using snoc.prems None by (auto simp: scan_snoc nearer_def split: if_splits)
  next
    case (Some z)
    then show ?thesis
      using snoc.prems snoc.IH [OF Some]
      by (auto simp: scan_snoc nearer_def split: if_splits)
  qed
qed

lemma scan_stable:
  assumes "\<And>a. filter (\<lambda>x. fst x = a) xs = filter (\<lambda>x. fst x = a) ys"
  shows "scan ip xs = scan ip ys"
proof -
  have set: "set xs = set ys"
  proof -
    have "x \<in> set xs \<longleftrightarrow> x \<in> set ys" for x
      using arg_cong [OF assms [of "fst x"], of "\<lambda>zs. x \<in> set zs"] by simp
    then show ?thesis by blast
  qed
  show ?thesis
  proof (cases "scan ip xs")
    case None
    then show ?thesis
      using set by (metis scan_None_iff)
  next
    case (Some x)
    then have "scan ip ys \<noteq> None"
      using set by (metis option.distinct(1) scan_None_iff)
    then obtain y where y: "scan ip ys = Some y" by auto
    obtain us vs where x': "filter (\<lambda>z. fst z = fst x) xs = us @ [x]"
      and y': "filter (\<lambda>z. fst z = fst y) ys = vs @ [y]"
      using scan_Some [OF Some] scan_Some [OF y] by blast
    have "x \<in> set xs" "y \<in> set ys"
      using arg_cong [OF x', of set] arg_cong [OF y', of set] by auto
    then have "fst x = fst y"
      using scan_Some [OF Some] scan_Some [OF y] set by (metis order_antisym)
    then have "us @ [x] = vs @ [y]"
      using x' y' assms by metis
    then show ?thesis
      using Some y by simp
  qed
qed

lemma scan_sorted:
  "sorted (map fst xs) \<Longrightarrow>
     scan ip xs = (let ys = takeWhile (\<lambda>x. fst x \<le> ip) xs in if ys = [] then None else Some (last ys))"
proof (induction xs rule: rev_induct)
  case (snoc x xs)
  then have below: "\<forall>z \<in> set xs. fst z \<le> fst x"
    by (simp add: sorted_append)
  have IH: "scan ip xs =
      (let ys = takeWhile (\<lambda>x. fst x \<le> ip) xs in if ys = [] then None else Some (last ys))"
    using snoc by (simp add: sorted_append)
  show ?case
  proof (cases "fst x \<le> ip")
    case True
    then have all: "\<forall>z \<in> set xs. fst z \<le> ip"
      using below by force
    then have "takeWhile (\<lambda>x. fst x \<le> ip) (xs @ [x]) = xs @ [x]"
      using True by (simp add: takeWhile_append2)
    moreover have "nearer ip (scan ip xs) x = Some x"
    proof -
      have "takeWhile (\<lambda>x. fst x \<le> ip) xs = xs"
        using all by (simp add: takeWhile_eq_all_conv)
      then have "scan ip xs = (if xs = [] then None else Some (last xs))"
        using IH by (simp only: Let_def)
      then show ?thesis
        using True below by (simp add: nearer_def)
    qed
    ultimately show ?thesis
      by (simp add: scan_snoc)
  next
    case False
    then have "takeWhile (\<lambda>x. fst x \<le> ip) (xs @ [x]) = takeWhile (\<lambda>x. fst x \<le> ip) xs"
      by (simp add: takeWhile_tail)
    then show ?thesis
      using False IH by (simp add: scan_snoc nearer_def)
  qed
qed (simp add: scan_def)

lemma lookup_scan:
  assumes "sorted (map fst syms)"
  shows "lookup syms ip = scan_lookup syms ip"
proof -
  let ?ys = "takeWhile (\<lambda>x. fst x \<le> ip) syms"
  have "syms ! (length ?ys - 1) = last ?ys" if "?ys \<noteq> []"
    using that takeWhile_nth [of "length ?ys - 1" "\<lambda>x. fst x \<le> ip" syms]
    by (simp add: last_conv_nth)
  then show ?thesis
    by (simp add: lookup_def scan_lookup_def scan_sorted [OF assms] partition_point_eq [OF assms] Let_def)
qed

text \<open>C25: sorting the table and searching it by bisection is only an optimisation: a lookup in the
  loaded table gives what a scan of the file's symbols in file order gives that keeps the last
  symbol with the largest address not above the pointer.\<close>

theorem lookup_equals_file_scan:
  assumes "load (Some text') = Inr syms"
  shows "lookup syms ip = scan_lookup (parse_text text') ip"
proof -
  have syms: "syms = sort_key fst (parse_text text')"
    using assms by (simp add: load_def)
  have "scan ip syms = scan ip (parse_text text')"
    by (rule scan_stable) (simp only: syms sort_key_stable)
  moreover have "syms = [] \<longleftrightarrow> parse_text text' = []"
    using syms by (metis length_0_conv length_sort)
  moreover have "lookup syms ip = scan_lookup syms ip"
    by (rule lookup_scan) (simp add: syms)
  ultimately show ?thesis
    by (simp only: scan_lookup_def)
qed

subsection \<open>The file format\<close>

text \<open>
  A line as the kernel prints it: the address as 16 hexadecimal digits, the type, the name and,
  for a symbol of a module, a tab and the module's name in brackets.
\<close>

definition sym_line :: "u64 \<Rightarrow> char \<Rightarrow> string \<Rightarrow> string option \<Rightarrow> string" where
  "sym_line addr t name module' =
     pad_zero 16 (lower_hex (unat addr)) @ '' '' @ [t] @ '' '' @ name @
     (case module' of None \<Rightarrow> [] | Some m \<Rightarrow> [CHR 0x09, CHR ''[''] @ m @ '']'')"

lemma digit_char_clean: "d < 16 \<Longrightarrow> digit_char d \<notin> {CHR '' '', CHR 0x0A, CHR 0x0D}"
proof -
  assume "d < 16"
  then have "d \<in> set [0..<16]" by simp
  moreover have "\<forall>d \<in> set [0..<16]. digit_char d \<notin> {CHR '' '', CHR 0x0A, CHR 0x0D}"
    by code_simp
  ultimately show ?thesis by blast
qed

lemma padded_hex_clean:
  "c \<in> set (pad_zero w (lower_hex n)) \<Longrightarrow> c \<notin> {CHR '' '', CHR 0x0A, CHR 0x0D}"
  using digit_char_clean radix_digits_bounded [of 16]
  by (auto simp: pad_zero_def lower_hex_def split: if_splits)

lemma parse_sym_line:
  assumes "t \<noteq> CHR '' ''" "CHR 0x09 \<notin> set name"
  shows "parse_line (sym_line addr t name m) = (if addr = 0 then None else Some (addr, name))"
proof -
  let ?hex = "pad_zero 16 (lower_hex (unat addr))"
  let ?rest = "name @ (case m of None \<Rightarrow> [] | Some m \<Rightarrow> [CHR 0x09, CHR ''[''] @ m @ '']'')"
  have hex: "CHR '' '' \<notin> set ?hex"
    using padded_hex_clean by blast
  have "splitn 3 (CHR '' '') (sym_line addr t name m) = [?hex, [t], ?rest]"
    using splitn_append [OF hex, of 1 "[t] @ '' '' @ ?rest"] splitn_append [of "CHR '' ''" "[t]" 0 ?rest]
      assms(1)
    by (simp add: sym_line_def numeral_3_eq_3 del: splitn.simps(3))
  moreover have "from_str_radix 64 16 ?hex = Some (unat addr)"
    using unsigned_less [of addr] by (intro parse_padded_hex) simp
  moreover have "before_char (CHR 0x09) ?rest = name"
    using assms(2) by (cases m) simp_all
  ultimately show ?thesis
    by (simp add: parse_line_def Let_def)
qed

text \<open>The text of a table, one line per symbol.\<close>

definition sym_text :: "(u64 \<times> char \<times> string \<times> string option) list \<Rightarrow> string" where
  "sym_text xs = concat (map (\<lambda>(a, t, n, m). sym_line a t n m @ [CHR 0x0A]) xs)"

definition clean :: "string \<Rightarrow> bool" where
  "clean s \<longleftrightarrow> set s \<inter> {CHR 0x0A, CHR 0x0D} = {}"

definition sym_ok :: "u64 \<times> char \<times> string \<times> string option \<Rightarrow> bool" where
  "sym_ok x = (case x of (a, t, n, m) \<Rightarrow> t \<noteq> CHR '' '' \<and> clean [t] \<and> clean n \<and>
     CHR 0x09 \<notin> set n \<and> (case m of None \<Rightarrow> True | Some m \<Rightarrow> clean m))"

lemma sym_line_clean: "sym_ok (a, t, n, m) \<Longrightarrow> clean (sym_line a t n m)"
  using padded_hex_clean by (auto simp: clean_def sym_line_def sym_ok_def split: option.splits)

lemma lines_of_sym_text:
  "\<forall>x \<in> set xs. sym_ok x \<Longrightarrow> lines_of (sym_text xs) = map (\<lambda>(a, t, n, m). sym_line a t n m) xs"
proof (induction xs)
  case Nil
  then show ?case by (simp add: sym_text_def)
next
  case (Cons x xs)
  obtain a t n m where x: "x = (a, t, n, m)" by (metis prod_cases4)
  have "clean (sym_line a t n m)"
    using Cons.prems x sym_line_clean by simp
  then have "lines_of (sym_line a t n m @ CHR 0x0A # sym_text xs) =
      sym_line a t n m # lines_of (sym_text xs)"
    by (simp add: clean_def lines_of_append strip_cr_noop)
  then show ?case
    using Cons x by (simp add: sym_text_def)
qed

text \<open>The symbols of a table in file order: those the kernel shows an address of.\<close>

definition shown_symbols :: "(u64 \<times> char \<times> string \<times> string option) list \<Rightarrow> (u64 \<times> string) list" where
  "shown_symbols xs = filter (\<lambda>x. fst x \<noteq> 0) (map (\<lambda>(a, t, n, m). (a, n)) xs)"

lemma parse_printed_format:
  assumes "\<forall>x \<in> set xs. sym_ok x"
  shows "parse_text (sym_text xs) = shown_symbols xs"
proof -
  have "List.map_filter parse_line (map (\<lambda>(a, t, n, m). sym_line a t n m) xs) = shown_symbols xs"
    using assms
    by (induction xs)
      (auto simp: shown_symbols_def map_filter_simps sym_ok_def parse_sym_line split: if_splits)
  then show ?thesis
    by (simp add: parse_text_def lines_of_sym_text [OF assms])
qed

lemma load_printed_format:
  "\<forall>x \<in> set xs. sym_ok x \<Longrightarrow> load (Some (sym_text xs)) = Inr (sort_key fst (shown_symbols xs))"
  by (simp add: load_def parse_printed_format)

text \<open>C26: a file in the kernel's format (address as 16 hexadecimal digits, a one-letter type, a name
  without tab or line break and possibly a module in brackets, one symbol per line) loads as
  the table of the addresses and names of its lines, without those of address 0 (what an
  unprivileged reader is shown), sorted by address, module suffixes dropped, symbols of equal
  address kept in file order.\<close>

theorem load_printed_table:
  assumes "\<forall>x \<in> set xs. sym_ok x"
  shows "load (Some (sym_text xs)) =
    Inr (sort_key fst (filter (\<lambda>x. fst x \<noteq> 0) (map (\<lambda>(a, t, n, m). (a, n)) xs)))"
  using load_printed_format [OF assms] by (simp only: shown_symbols_def)

theorem load_printed_table_witness:
  "load (Some (sym_text
     [(0xb0, CHR ''T'', ''schedule'', None), (0, CHR ''A'', ''hidden'', None),
      (0xa0, CHR ''t'', ''blk_done'', Some ''dm'')])) =
   Inr [(0xa0, ''blk_done''), (0xb0, ''schedule'')] \<and>
   sym_line 0xa0 (CHR ''t'') ''blk_done'' (Some ''dm'') =
     ''00000000000000a0 t blk_done'' @ [CHR 0x09] @ ''[dm]''"
proof -
  let ?xs = "[(0xb0, CHR ''T'', ''schedule'', None), (0, CHR ''A'', ''hidden'', None),
      (0xa0, CHR ''t'', ''blk_done'', Some ''dm'')] :: (u64 \<times> char \<times> string \<times> string option) list"
  have "\<forall>x \<in> set ?xs. sym_ok x"
    by (simp add: sym_ok_def clean_def)
  then have "load (Some (sym_text ?xs)) = Inr [(0xa0, ''blk_done''), (0xb0, ''schedule'')]"
    using load_printed_table [of ?xs] by (simp add: insort_key_def)
  moreover have "lower_hex (unat (0xa0 :: u64)) = ''a0''"
    by code_simp
  ultimately show ?thesis
    by (simp add: sym_line_def pad_zero_def numeral_eq_Suc)
qed

theorem lookup_equals_file_scan_witness:
  "lookup (sort_key fst [(0xb0, ''schedule''), (0xa0, ''blk_done''), (0xa0, ''blk_end'')]) 0xa8 =
     ''blk_end''"
proof -
  let ?xs = "[(0xb0, CHR ''T'', ''schedule'', None), (0xa0, CHR ''t'', ''blk_done'', None),
      (0xa0, CHR ''t'', ''blk_end'', None)] :: (u64 \<times> char \<times> string \<times> string option) list"
  let ?ys = "[(0xb0, ''schedule''), (0xa0, ''blk_done''), (0xa0 :: u64, ''blk_end'')]"
  have ok: "\<forall>x \<in> set ?xs. sym_ok x"
    by (simp add: sym_ok_def clean_def)
  then have "load (Some (sym_text ?xs)) = Inr (sort_key fst ?ys)"
    using load_printed_format [OF ok] by (simp add: shown_symbols_def)
  moreover have "parse_text (sym_text ?xs) = ?ys"
    using parse_printed_format [OF ok] by (simp add: shown_symbols_def)
  ultimately show ?thesis
    using lookup_equals_file_scan [of "sym_text ?xs" "sort_key fst ?ys" "0xa8"]
    by (simp add: scan_lookup_def scan_def nearer_def)
qed

lemma lookup_largest_below_witness:
  "\<exists>i < 2. lookup [(0xa0, ''blk_done''), (0xb0, ''schedule'')] 0xa8 =
     snd ([(0xa0 :: u64, ''blk_done''), (0xb0, ''schedule'')] ! i)"
proof -
  let ?xs = "[(0xb0, CHR ''T'', ''schedule'', None), (0xa0, CHR ''t'', ''blk_done'', None)]
    :: (u64 \<times> char \<times> string \<times> string option) list"
  have "load (Some (sym_text ?xs)) = Inr (sort_key fst [(0xb0, ''schedule''), (0xa0, ''blk_done'')])"
    using load_printed_format [of ?xs] by (simp add: sym_ok_def clean_def shown_symbols_def)
  also have "sort_key fst [(0xb0 :: u64, ''schedule''), (0xa0, ''blk_done'')] =
      [(0xa0, ''blk_done''), (0xb0, ''schedule'')]"
    by simp
  finally have table: "load (Some (sym_text ?xs)) = Inr [(0xa0, ''blk_done''), (0xb0, ''schedule'')]" .
  have "(0xa8 :: u64) \<noteq> 0 \<and>
      (\<exists>x \<in> set [(0xa0 :: u64, ''blk_done''), (0xb0, ''schedule'')]. fst x \<le> 0xa8)"
    by simp
  then have "\<exists>i < length [(0xa0 :: u64, ''blk_done''), (0xb0, ''schedule'')].
      lookup [(0xa0, ''blk_done''), (0xb0, ''schedule'')] 0xa8 =
        snd ([(0xa0 :: u64, ''blk_done''), (0xb0, ''schedule'')] ! i)"
    using lookup_largest_below [OF table, of "0xa8"] by blast
  then show ?thesis
    by (simp add: numeral_2_eq_2 del: One_nat_def)
qed

end
