(* ===== verification/Iowait_User.thy ===== *)
theory Iowait_User
  imports Iowait_Bpf Iowait_Classify Kallsyms Rust_F64
begin

section \<open>tragach-iowait: a reporting window\<close>

text \<open>
  \<open>flush_window\<close>, \<open>fmt_ms\<close> and the report structures of \<open>crates/tragach-iowait/src/main.rs\<close>. What
  is not in the repository comes in as \<open>flush_env\<close>: what iterating the bucket map yields, the
  kernel's stack traces, the orders in which Rust's hash maps iterate, the time stamp, the
  window as \<open>humantime\<close> prints it, and whether the writes succeed. The idle threshold is a
  non-negative finite double.
\<close>

subsection \<open>Aggregation\<close>

record reason_agg =
  ra_total_ns :: u64
  ra_pids :: "u32 set"
  ra_by_stack :: "i32 \<rightharpoonup> u64 \<times> string list"

definition reason_agg_default :: reason_agg where
  "reason_agg_default = \<lparr>ra_total_ns = 0, ra_pids = {}, ra_by_stack = Map.empty\<rparr>"

record flush_env =
  fe_iter :: "(unit + bucket_key \<times> u64) list"
  fe_ops :: "(bucket_key, u64) map_ops"
  fe_stack :: "u32 \<Rightarrow> u64 list option"
  fe_enum_stacks :: "(i32 \<rightharpoonup> u64 \<times> string list) \<Rightarrow> (i32 \<times> u64 \<times> string list) list"
  fe_enum_reasons :: "(reason \<rightharpoonup> reason_agg) \<Rightarrow> (reason \<times> reason_agg) list"
  fe_ts :: string
  fe_window_text :: string
  fe_writes :: bool

record flush_args =
  fa_window_ns :: nat
  fa_pid :: u32
  fa_top_stacks :: u32
  fa_json :: bool
  fa_exclude_idle :: bool
  fa_idle_threshold :: ratio

fun snapshot_of :: "(unit + bucket_key \<times> u64) list \<Rightarrow> unit + (bucket_key \<times> u64) list" where
  "snapshot_of [] = Inr []"
| "snapshot_of (Inl e # es) = Inl e"
| "snapshot_of (Inr x # es) = (case snapshot_of es of Inl e \<Rightarrow> Inl e | Inr xs \<Rightarrow> Inr (x # xs))"

definition drain_buckets ::
  "(bucket_key, u64) map_ops \<Rightarrow> (bucket_key \<times> u64) list \<Rightarrow> (bucket_key \<rightharpoonup> u64) \<Rightarrow>
     bucket_key \<rightharpoonup> u64" where
  "drain_buckets ops snapshot m = fold (\<lambda>x m. snd (map_remove ops m (fst x))) snapshot m"

definition idle_threshold_ns :: "flush_args \<Rightarrow> u64" where
  "idle_threshold_ns a = f64_as_u64 (f64_mul (f64_of_nat (fa_window_ns a)) (fa_idle_threshold a))"

definition retained :: "flush_args \<Rightarrow> (bucket_key \<times> u64) list \<Rightarrow> (bucket_key \<times> u64) list" where
  "retained a snapshot =
     (if fa_exclude_idle a then filter (\<lambda>x. snd x < idle_threshold_ns a) snapshot else snapshot)"

definition frames_of :: "flush_env \<Rightarrow> kallsyms \<Rightarrow> i32 \<Rightarrow> string list" where
  "frames_of env ks stack_id =
     (if 0 \<le> sint stack_id
      then (case fe_stack env (ucast stack_id) of Some ips \<Rightarrow> map (lookup ks) ips | None \<Rightarrow> [])
      else [])"

definition add_bucket ::
  "flush_env \<Rightarrow> kallsyms \<Rightarrow> bucket_key \<times> u64 \<Rightarrow> (reason \<rightharpoonup> reason_agg) \<Rightarrow> reason \<rightharpoonup> reason_agg" where
  "add_bucket env ks x by_reason =
     (let (key, ns) = x;
          frames = frames_of env ks (bk_stack_id key);
          reason = classify frames;
          agg = (case by_reason reason of Some g \<Rightarrow> g | None \<Rightarrow> reason_agg_default);
          entry = (case ra_by_stack agg (bk_stack_id key) of Some e \<Rightarrow> e | None \<Rightarrow> (0, frames));
          agg = agg\<lparr>ra_total_ns := saturating_add (ra_total_ns agg) ns,
                    ra_pids := insert (bk_pid key) (ra_pids agg),
                    ra_by_stack := (ra_by_stack agg)
                      (bk_stack_id key \<mapsto> (saturating_add (fst entry) ns, snd entry))\<rparr>
      in by_reason(reason \<mapsto> agg))"

definition aggregate ::
  "flush_env \<Rightarrow> kallsyms \<Rightarrow> (bucket_key \<times> u64) list \<Rightarrow> reason \<rightharpoonup> reason_agg" where
  "aggregate env ks xs = fold (add_bucket env ks) xs Map.empty"

subsection \<open>The reports\<close>

text \<open>\<open>sort_by_key(Reverse(..))\<close> is stable; \<open>max_by_key\<close> returns the last of the largest.\<close>

definition sort_desc :: "('a \<Rightarrow> u64) \<Rightarrow> 'a list \<Rightarrow> 'a list" where
  "sort_desc f xs = sort_key (\<lambda>x. - int (unat (f x))) xs"

definition max_by_key :: "('a \<Rightarrow> u64) \<Rightarrow> 'a list \<Rightarrow> 'a option" where
  "max_by_key f xs =
     fold (\<lambda>x acc. case acc of None \<Rightarrow> Some x | Some y \<Rightarrow> if f y \<le> f x then Some x else acc) xs None"

definition top_of :: "flush_env \<Rightarrow> u32 \<Rightarrow> reason_agg \<Rightarrow> (i32 \<times> u64 \<times> string list) list" where
  "top_of env n agg =
     take (unat n) (sort_desc (\<lambda>e. fst (snd e)) (fe_enum_stacks env (ra_by_stack agg)))"

record json_stack =
  js_ms :: u64
  js_frames :: "string list"

record json_reason =
  jr_total_ms :: u64
  jr_threads :: nat
  jr_top_stacks :: "json_stack list"

record io_json_window =
  jw_ts :: string
  jw_window_ms :: u64
  jw_pid :: u32
  jw_excluded :: nat
  jw_by_reason :: "string \<rightharpoonup> json_reason"

definition json_reason_of :: "flush_env \<Rightarrow> flush_args \<Rightarrow> reason_agg \<Rightarrow> json_reason" where
  "json_reason_of env a agg =
     \<lparr>jr_total_ms = ra_total_ns agg div 1000000, jr_threads = card (ra_pids agg),
      jr_top_stacks = map (\<lambda>e. \<lparr>js_ms = fst (snd e) div 1000000, js_frames = snd (snd e)\<rparr>)
        (top_of env (fa_top_stacks a) agg)\<rparr>"

definition json_window :: "flush_env \<Rightarrow> flush_args \<Rightarrow> nat \<Rightarrow> (reason \<rightharpoonup> reason_agg) \<Rightarrow> io_json_window" where
  "json_window env a excluded by_reason =
     \<lparr>jw_ts = fe_ts env, jw_window_ms = of_nat (fa_window_ns a div 1000000), jw_pid = fa_pid a,
      jw_excluded = excluded,
      jw_by_reason = fold (\<lambda>x m. m(reason_label (fst x) \<mapsto> json_reason_of env a (snd x)))
        (fe_enum_reasons env by_reason) Map.empty\<rparr>"

definition fmt_ms :: "u64 \<Rightarrow> string" where
  "fmt_ms ns =
     (let ms = f64_div (f64_of_nat (unat ns)) (f64_of_nat 1000000)
      in if f64_ge ms 1000 then fixed 2 (f64_div ms (f64_of_nat 1000)) @ ''s''
         else if f64_ge ms 1 then fixed 0 ms @ ''ms''
         else fixed 0 (f64_div (f64_of_nat (unat ns)) (f64_of_nat 1000)) @ ''us'')"

definition arrow :: string where
  "arrow = '' '' @ [char_of (0xE2 :: nat), char_of (0x86 :: nat), char_of (0x92 :: nat)] @ '' ''"

fun join_arrow :: "string list \<Rightarrow> string" where
  "join_arrow [] = []"
| "join_arrow [s] = s"
| "join_arrow (s # t # ss) = s @ arrow @ join_arrow (t # ss)"

definition stack_lines :: "flush_env \<Rightarrow> flush_args \<Rightarrow> reason_agg \<Rightarrow> string list" where
  "stack_lines env a agg =
     List.map_filter (\<lambda>e. if snd (snd e) = [] then None
        else Some (''      '' @ pad_right 7 (fmt_ms (fst (snd e))) @ ''  '' @
                   join_arrow (take 5 (snd (snd e)))))
       (top_of env (fa_top_stacks a) agg)"

definition reason_lines :: "flush_env \<Rightarrow> flush_args \<Rightarrow> reason \<times> reason_agg \<Rightarrow> string list" where
  "reason_lines env a x =
     (let (reason, agg) = x;
          top_frame = (case max_by_key (\<lambda>e. fst (snd e)) (fe_enum_stacks env (ra_by_stack agg)) of
                         Some e \<Rightarrow> meaningful_frame (snd (snd e)) | None \<Rightarrow> ''?'')
      in (''  '' @ pad_left 22 (reason_label reason) @ '': '' @
          pad_right 7 (fmt_ms (ra_total_ns agg)) @ ''  ('' @
          pad_right 3 (decimal (card (ra_pids agg))) @ '' threads, top: '' @ top_frame @ '')'') #
         (if 0 < fa_top_stacks a then stack_lines env a agg else []))"

definition human_window :: "flush_env \<Rightarrow> flush_args \<Rightarrow> nat \<Rightarrow> (reason \<rightharpoonup> reason_agg) \<Rightarrow> string list" where
  "human_window env a excluded by_reason =
     [''=== tragach-iowait  '' @ fe_window_text env @ '' window  pid='' @
        decimal (unat (fa_pid a)) @ '' ===''] @
     (if fa_exclude_idle a
      then [''  --exclude-idle: dropped '' @ decimal excluded @ '' bucket(s) above '' @
              fixed 0 (f64_mul (fa_idle_threshold a) (f64_of_nat 100)) @ ''% of window'']
      else []) @
     (let reasons = fe_enum_reasons env by_reason
      in if reasons = [] then [''  (no off-CPU activity in this window)'']
         else ''Off-CPU time by reason:'' #
           concat (map (reason_lines env a) (sort_desc (\<lambda>x. ra_total_ns (snd x)) reasons))) @
     ['''']"

datatype io_output = IoJson io_json_window | IoLines "string list"

definition flush_window ::
  "flush_env \<Rightarrow> kallsyms \<Rightarrow> flush_args \<Rightarrow> (bucket_key \<rightharpoonup> u64) \<Rightarrow>
     (unit + io_output) \<times> (bucket_key \<rightharpoonup> u64)" where
  "flush_window env ks a m =
     (case snapshot_of (fe_iter env) of Inl e \<Rightarrow> (Inl e, m)
      | Inr snapshot \<Rightarrow>
        let m = drain_buckets (fe_ops env) snapshot m;
            kept = retained a snapshot;
            excluded = (if fa_exclude_idle a then length snapshot - length kept else 0);
            by_reason = aggregate env ks kept;
            out = (if fa_json a then IoJson (json_window env a excluded by_reason)
                   else IoLines (human_window env a excluded by_reason))
        in (if fe_writes env then Inr out else Inl (), m))"

end
