(* ===== verification/Iowait_Claims.thy ===== *)
theory Iowait_Claims
  imports Iowait_Bpf
begin

section \<open>tragach-iowait: what the buckets hold\<close>

text \<open>
  The contract of the off-processor profiler: which sleeps become samples, what a sample
  measures, and that the buckets are the sums of the samples.
\<close>

fun samples :: "io_hit list \<Rightarrow> io_state \<Rightarrow> (bucket_key \<times> u64) list" where
  "samples [] s = []"
| "samples (h # hs) s =
     (case sample_of h s of None \<Rightarrow> [] | Some x \<Rightarrow> [x]) @ samples hs (io_step h s)"

definition bucket_sum :: "bucket_key \<Rightarrow> (bucket_key \<times> u64) list \<Rightarrow> u64" where
  "bucket_sum k xs = sum_list (map snd (filter (\<lambda>x. fst x = k) xs))"

definition bucket_after :: "(bucket_key \<rightharpoonup> u64) \<Rightarrow> (bucket_key \<times> u64) list \<Rightarrow> bucket_key \<rightharpoonup> u64" where
  "bucket_after m xs k =
     (if k \<in> fst ` set xs then Some ((case m k of None \<Rightarrow> 0 | Some v \<Rightarrow> v) + bucket_sum k xs)
      else m k)"

subsection \<open>Concrete hits\<close>

definition io_ctx :: "u32 \<Rightarrow> u32 \<Rightarrow> u64 \<Rightarrow> i32 \<Rightarrow> i64 \<Rightarrow> i64 \<Rightarrow> io_hit_ctx" where
  "io_ctx g t now pid st stack =
     \<lparr>pid_tgid = task_id g t, ktime = now, cpu = 0,
      read_i32 = (\<lambda>off. if off = 24 then Some pid else None),
      read_i64 = (\<lambda>off. if off = 32 then Some st else None), target_avail = True,
      get_stackid = Inr stack, start_ops = roomy_ops, bucket_ops = roomy_ops\<rparr>"

lemma io_ctx_simps [simp]:
  "ktime (io_ctx g t now pid st stack) = now" "tgid_of (io_ctx g t now pid st stack) = g"
  "read_i32 (io_ctx g t now pid st stack) 24 = Some pid"
  "read_i64 (io_ctx g t now pid st stack) 32 = Some st"
  "target_avail (io_ctx g t now pid st stack)"
  "get_stackid (io_ctx g t now pid st stack) = Inr stack"
  "start_ops (io_ctx g t now pid st stack) = roomy_ops"
  "bucket_ops (io_ctx g t now pid st stack) = roomy_ops"
  "io_good (q, io_ctx g t now pid st stack)"
  by (simp_all add: io_ctx_def tgid_of_task_id io_good_def)

lemma io_init_simps [simp]:
  "target_tgid (io_init g) = g" "start (io_init g) = Map.empty" "buckets (io_init g) = Map.empty"
  by (simp_all add: io_init_def)

text \<open>Thread 740 of process 736 sleeps on stack 5 from 1000 to 1800, twice.\<close>

definition two_sleeps :: "io_hit list" where
  "two_sleeps =
     [(SchedSwitch, io_ctx 736 740 1000 740 1 5), (SchedWakeup, io_ctx 9 9 1800 740 0 0),
      (SchedSwitch, io_ctx 736 740 3000 740 2 5), (SchedWakeup, io_ctx 9 9 3050 740 0 0)]"

subsection \<open>Accounting\<close>

lemma bucket_step:
  assumes "io_good h" "update_admits (bucket_ops (snd h))"
  shows "buckets (io_step h s) =
    bucket_after (buckets s) (case sample_of h s of None \<Rightarrow> [] | Some x \<Rightarrow> [x])"
proof (cases "sample_of h s")
  case None
  then show ?thesis
    by (auto simp: buckets_step bucket_after_def)
next
  case (Some x)
  then show ?thesis
    using assms
    by (cases x)
      (auto simp: buckets_step bucket_after_def bucket_sum_def io_good_def hash_update_admitted
        split: option.splits)
qed

lemma bucket_sum_append: "bucket_sum k (xs @ ys) = bucket_sum k xs + bucket_sum k ys"
  by (simp add: bucket_sum_def)

lemma bucket_sum_none: "k \<notin> fst ` set xs \<Longrightarrow> bucket_sum k xs = 0"
  by (induction xs) (auto simp: bucket_sum_def)

lemma bucket_after_append:
  "bucket_after m (xs @ ys) = bucket_after (bucket_after m xs) ys"
  by (rule ext)
    (simp add: bucket_after_def bucket_sum_append image_Un add.assoc bucket_sum_none
      split: option.splits)

lemma buckets_after_run:
  assumes "\<forall>h \<in> set hs. io_good h \<and> update_admits (bucket_ops (snd h))"
  shows "buckets (io_run hs s) = bucket_after (buckets s) (samples hs s)"
  using assms
proof (induction hs arbitrary: s)
  case Nil
  then show ?case by (auto simp: bucket_after_def)
next
  case (Cons h hs)
  then show ?case
    by (simp add: bucket_step bucket_after_append)
qed

text \<open>The buckets are the sums of the samples: after any run in which the bucket map has room, a
  bucket holds what it held before plus the durations of the run's samples with its thread and
  stack, modulo \<open>2 ^ 64\<close>; buckets without a sample are untouched, and no sample is counted
  twice.\<close>

lemma buckets_sum_samples:
  assumes "\<forall>h \<in> set hs. io_good h \<and> update_admits (bucket_ops (snd h))"
  shows "buckets (io_run hs s) = bucket_after (buckets s) (samples hs s)"
  using assms by (rule buckets_after_run)

lemma buckets_sum_samples_witness:
  "buckets (io_run two_sleeps (io_init 736)) \<lparr>bk_pid = 740, bk_stack_id = 5\<rparr> = Some 850"
proof -
  have "\<forall>h \<in> set two_sleeps. io_good h \<and> update_admits (bucket_ops (snd h))"
    by (simp add: two_sleeps_def)
  moreover have "samples two_sleeps (io_init 736) =
      [(\<lparr>bk_pid = 740, bk_stack_id = 5\<rparr>, 800), (\<lparr>bk_pid = 740, bk_stack_id = 5\<rparr>, 50)]"
    by (simp add: two_sleeps_def sample_of_def start_step slept_def saturating_sub_def)
  ultimately show ?thesis
    by (simp add: buckets_sum_samples bucket_after_def bucket_sum_def)
qed

subsection \<open>When the bucket map is full\<close>

lemma bucket_step_any:
  assumes "io_good h"
  shows "\<exists>xs. subseq xs (case sample_of h s of None \<Rightarrow> [] | Some x \<Rightarrow> [x]) \<and>
    buckets (io_step h s) = bucket_after (buckets s) xs"
proof (cases "sample_of h s")
  case None
  then show ?thesis
    by (auto simp: buckets_step bucket_after_def intro!: exI [of _ "[]"])
next
  case (Some x)
  obtain k d where x: "x = (k, d)" by fastforce
  let ?v = "case buckets s k of Some v \<Rightarrow> v + d | None \<Rightarrow> d"
  have step: "buckets (io_step h s) = snd (map_update (bucket_ops (snd h)) (buckets s) k ?v)"
    by (simp add: buckets_step Some x)
  from assms have "hash_ops_ok (bucket_ops (snd h))"
    by (simp add: io_good_def)
  then show ?thesis
  proof (cases rule: hash_update_cases [where m = "buckets s" and k = k and v = ?v])
    case (refused e)
    then show ?thesis
      by (intro exI [of _ "[]"]) (auto simp: step bucket_after_def)
  next
    case stored
    then show ?thesis
      by (intro exI [of _ "[x]"])
        (auto simp: step Some x bucket_after_def bucket_sum_def split: option.split)
  qed
qed

text \<open>C14: the buckets never hold time that was not slept: on any lawful kernel, however often the
  bucket map refuses an entry because it is full, the buckets after a run are the sums of some
  of the run's samples, each counted at most once, in its own bucket, with its own duration;
  and of all of them when no insert is refused.\<close>

theorem buckets_hold_recorded_samples:
  assumes "\<forall>h \<in> set hs. io_good h"
  shows "(\<exists>xs. subseq xs (samples hs s) \<and> buckets (io_run hs s) = bucket_after (buckets s) xs) \<and>
    ((\<forall>h \<in> set hs. update_admits (bucket_ops (snd h))) \<longrightarrow>
      buckets (io_run hs s) = bucket_after (buckets s) (samples hs s))"
proof -
  have "\<exists>xs. subseq xs (samples hs s) \<and> buckets (io_run hs s) = bucket_after (buckets s) xs"
    using assms
  proof (induction hs arbitrary: s)
    case Nil
    then show ?case by (auto simp: bucket_after_def)
  next
    case (Cons h hs)
    obtain xs where "subseq xs (case sample_of h s of None \<Rightarrow> [] | Some x \<Rightarrow> [x])"
      "buckets (io_step h s) = bucket_after (buckets s) xs"
      using bucket_step_any Cons.prems by (meson list.set_intros(1))
    moreover obtain ys where "subseq ys (samples hs (io_step h s))"
      "buckets (io_run hs (io_step h s)) = bucket_after (buckets (io_step h s)) ys"
      using Cons.IH [of "io_step h s"] Cons.prems by auto
    ultimately show ?case
      by (intro exI [of _ "xs @ ys"]) (simp add: list_emb_append_mono bucket_after_append)
  qed
  then show ?thesis
    using buckets_after_run [of hs s] assms by blast
qed

text \<open>The second sleep's bucket is refused.\<close>

theorem buckets_hold_recorded_samples_witness:
  "\<exists>xs. subseq xs (samples (two_sleeps @
      [(SchedSwitch, io_ctx 736 741 4000 741 1 6),
       (SchedWakeup, (io_ctx 9 9 4100 741 0 0)\<lparr>bucket_ops := full_ops\<rparr>)]) (io_init 736)) \<and>
    buckets (io_run (two_sleeps @
      [(SchedSwitch, io_ctx 736 741 4000 741 1 6),
       (SchedWakeup, (io_ctx 9 9 4100 741 0 0)\<lparr>bucket_ops := full_ops\<rparr>)]) (io_init 736)) =
    bucket_after (buckets (io_init 736)) xs"
proof -
  have "\<forall>h \<in> set (two_sleeps @ [(SchedSwitch, io_ctx 736 741 4000 741 1 6),
      (SchedWakeup, (io_ctx 9 9 4100 741 0 0)\<lparr>bucket_ops := full_ops\<rparr>)]). io_good h"
    by (simp add: two_sleeps_def) (simp add: io_good_def)
  from buckets_hold_recorded_samples [OF this] show ?thesis
    by blast
qed

subsection \<open>What a sample measures\<close>

text \<open>C22: a thread of the target that leaves the processor to sleep and is woken later, with no other
  scheduler event about it in between, completes exactly one sample at the wake-up: its thread,
  the stack it slept on and the time from the switch to the wake-up; its sleep is then
  forgotten, so a second wake-up completes nothing.\<close>

theorem sleep_to_wakeup:
  assumes "io_good (SchedSwitch, c)" "update_admits (start_ops c)"
    "slept (target_tgid s) c = Some (p, si)"
    and "along (\<lambda>h s. io_good h \<and> \<not> touches_sleep s h p) io_step hs (io_step (SchedSwitch, c) s)"
    and "io_good (SchedWakeup, d)" "read_i32 d 24 = Some p" "read_i32 e 24 = Some p"
    and "t = io_run ((SchedSwitch, c) # hs) s"
  shows "sample_of (SchedWakeup, d) t =
      Some (\<lparr>bk_pid = p, bk_stack_id = si_stack_id si\<rparr>, saturating_sub (ktime d) (ktime c)) \<and>
    sample_of (SchedWakeup, e) (io_step (SchedWakeup, d) t) = None"
proof -
  have "start (io_step (SchedSwitch, c) s) p = Some si"
    using assms(1-3) by (simp add: start_step io_good_def hash_update_admitted)
  then have asleep: "start t p = Some si"
    using sleep_table.survives_run [OF _ assms(4)] assms(8) by (simp add: io_run_def)
  moreover have "si_ts_ns si = ktime c"
    using assms(3) by (auto simp: slept_def split: option.splits if_splits)
  moreover have "start (io_step (SchedWakeup, d) t) p = None"
    using asleep assms(5,6) by (simp add: start_step io_good_def hash_remove)
  ultimately show ?thesis
    using assms(6,7) by (simp add: sample_of_def)
qed

theorem sleep_to_wakeup_witness:
  "sample_of (SchedWakeup, io_ctx 9 9 1800 740 0 0)
     (io_run [(SchedSwitch, io_ctx 736 740 1000 740 1 5), (SchedSwitch, io_ctx 736 741 1200 741 1 6)]
       (io_init 736)) =
   Some (\<lparr>bk_pid = 740, bk_stack_id = 5\<rparr>, 800)"
proof -
  let ?c = "io_ctx 736 740 1000 740 1 5" and ?h = "(SchedSwitch, io_ctx 736 741 1200 741 1 6)"
  let ?d = "io_ctx 9 9 1800 740 0 0"
  have "along (\<lambda>h s. io_good h \<and> \<not> touches_sleep s h 740) io_step [?h]
      (io_step (SchedSwitch, ?c) (io_init 736))"
    by (simp add: touches_sleep_def)
  moreover have "slept (target_tgid (io_init 736)) ?c =
      Some (740, \<lparr>si_ts_ns = 1000, si_stack_id = 5, si_pad = 0\<rparr>)"
    by (simp add: slept_def)
  ultimately show ?thesis
    using sleep_to_wakeup [of ?c "io_init 736" 740 _ "[?h]" ?d ?d, OF _ _ _ _ _ _ _ refl]
    by (simp add: saturating_sub_def)
qed

subsection \<open>The target filter\<close>

lemma slept_target:
  "slept g c = Some (p, si) \<Longrightarrow> g \<noteq> 0 \<and> tgid_of c = g \<and>
     (\<exists>st. read_i64 c 32 = Some st \<and> (ucast st :: u8) \<noteq> 0) \<and> si_ts_ns si = ktime c"
  by (auto simp: slept_def split: option.splits if_splits)

lemma sleeping_origin:
  assumes "\<forall>h \<in> set hs. io_good h" "start (io_run hs (io_init g)) p = Some si"
  shows "\<exists>c. (SchedSwitch, c) \<in> set hs \<and> slept g c = Some (p, si)"
proof -
  have "\<exists>hs1 e hs2. hs = hs1 @ e # hs2 \<and> opens_sleep (io_run hs1 (io_init g)) e p si"
    using sleep_table.origin_from_empty [OF assms(1), of "io_init g" p si] assms(2)
    unfolding io_run_def by (metis io_init_simps(2))
  then obtain hs1 e hs2 where hs: "hs = hs1 @ e # hs2" and "opens_sleep (io_run hs1 (io_init g)) e p si"
    by blast
  then have "fst e = SchedSwitch" "slept g (snd e) = Some (p, si)"
    by (simp_all add: opens_sleep_def)
  then show ?thesis
    unfolding hs by (intro exI [of _ "snd e"]) (cases e, simp)
qed

lemma samples_append: "samples (hs @ hs') s = samples hs s @ samples hs' (io_run hs s)"
  by (induction hs arbitrary: s) simp_all

lemma sample_split:
  "x \<in> set (samples hs s) \<Longrightarrow>
     \<exists>hs1 h hs2. hs = hs1 @ h # hs2 \<and> sample_of h (io_run hs1 s) = Some x"
proof (induction hs arbitrary: s)
  case (Cons h hs)
  show ?case
  proof (cases "sample_of h s = Some x")
    case True
    then have "h # hs = [] @ h # hs \<and> sample_of h (io_run [] s) = Some x"
      by simp
    then show ?thesis by blast
  next
    case False
    then have "x \<in> set (samples hs (io_step h s))"
      using Cons.prems by (auto split: option.splits)
    then obtain hs1 h' hs2 where "hs = hs1 @ h' # hs2"
      "sample_of h' (io_run hs1 (io_step h s)) = Some x"
      using Cons.IH by blast
    then have "h # hs = (h # hs1) @ h' # hs2 \<and> sample_of h' (io_run (h # hs1) s) = Some x"
      by simp
    then show ?thesis by blast
  qed
qed simp

text \<open>C32: only the target is profiled: every sample of a run started for process \<open>g\<close> goes back to a
  switch of the sampled thread, in process \<open>g\<close>, away from the processor in a sleeping state (the
  low byte of the state is not zero, which excludes preemption), and its duration is measured
  from that switch to a wake-up of the run. With \<open>g = 0\<close> there are no samples at all.\<close>

theorem samples_of_target:
  assumes "\<forall>h \<in> set hs. io_good h" "(k, d) \<in> set (samples hs (io_init g))"
  shows "g \<noteq> 0 \<and> (\<exists>c w st. (SchedSwitch, c) \<in> set hs \<and> (SchedWakeup, w) \<in> set hs \<and>
    tgid_of c = g \<and> read_i32 c 24 = Some (bk_pid k) \<and> read_i32 w 24 = Some (bk_pid k) \<and>
    read_i64 c 32 = Some st \<and> (ucast st :: u8) \<noteq> 0 \<and>
    d = saturating_sub (ktime w) (ktime c))"
proof -
  obtain hs1 h hs2 where hs: "hs = hs1 @ h # hs2"
    and x: "sample_of h (io_run hs1 (io_init g)) = Some (k, d)"
    using sample_split [OF assms(2)] by blast
  obtain q w where h: "h = (q, w)" by fastforce
  from x obtain p si where wake: "q = SchedWakeup" "read_i32 w 24 = Some p"
    and si: "start (io_run hs1 (io_init g)) p = Some si" and k: "bk_pid k = p"
    and d: "d = saturating_sub (ktime w) (si_ts_ns si)"
    by (auto simp: h sample_of_def split: if_splits option.splits)
  obtain c where "(SchedSwitch, c) \<in> set hs1" "slept g c = Some (p, si)"
    using sleeping_origin [OF _ si] assms(1) hs by auto
  then show ?thesis
    using slept_target [of g c p si] slept_pid [of g c p si] wake k d hs h by auto
qed

theorem samples_of_target_witness:
  "(\<lparr>bk_pid = 740, bk_stack_id = 5\<rparr>, 800) \<in> set (samples two_sleeps (io_init 736)) \<and>
   (\<exists>c w. (SchedSwitch, c) \<in> set two_sleeps \<and> (SchedWakeup, w) \<in> set two_sleeps \<and>
      tgid_of c = 736 \<and>
      800 = saturating_sub (ktime w) (ktime c))"
proof -
  have good: "\<forall>h \<in> set two_sleeps. io_good h"
    by (simp add: two_sleeps_def)
  have "(\<lparr>bk_pid = 740, bk_stack_id = 5\<rparr>, 800) \<in> set (samples two_sleeps (io_init 736))"
    by (simp add: two_sleeps_def sample_of_def start_step slept_def saturating_sub_def)
  with samples_of_target [OF good this] show ?thesis
    by blast
qed

text \<open>A switch that leaves the outgoing task runnable changes nothing: neither a running state (0)
  nor the preemption mark (256), whose low byte is zero, starts a sample, and neither does a
  switch away from a task of another process.\<close>

lemma runnable_switch_ignored:
  "read_i64 c 32 = Some 0 \<or> read_i64 c 32 = Some 0x100 \<or> tgid_of c \<noteq> target_tgid s \<Longrightarrow>
     io_step (SchedSwitch, c) s = s"
  by (auto simp: io_bodies Let_def case_prod_beta unsigned_ucast_eq split: option.splits)

lemma runnable_switch_ignored_witness:
  "io_step (SchedSwitch, io_ctx 736 740 1000 740 0x100 5) (io_init 736) = io_init 736"
  by (rule runnable_switch_ignored) simp

end
