(* ===== verification/Iowait_Report.thy ===== *)
theory Iowait_Report
  imports Iowait_User Iowait_Claims "HOL-Library.Multiset"
begin

section \<open>tragach-iowait: what a window reports\<close>

text \<open>
  The aggregation in closed form (saturating sums over the retained buckets of a reason), its
  independence of the order in which the kernel lists the buckets, what the drain leaves
  behind, the idle filter and the top stacks.
\<close>

subsection \<open>Aggregation in closed form\<close>

text \<open>A natural number saturated at the largest \<open>u64\<close>.\<close>

definition sat :: "nat \<Rightarrow> u64" where
  "sat n = of_nat (min n (2 ^ 64 - 1))"

lemma unat_sat: "unat (sat n) = min n (2 ^ 64 - 1)"
  unfolding sat_def by (rule unat_of_nat_small) simp

lemma saturating_add_sat: "saturating_add (sat m) w = sat (m + unat w)"
proof (rule word_unat_eq_iff [THEN iffD2])
  have "unat w < 2 ^ 64"
    using unsigned_less [of w] by simp
  then show "unat (saturating_add (sat m) w) = unat (sat (m + unat w))"
    by (simp add: unat_saturating_add unat_sat)
qed

lemma sat_0 [simp]: "sat 0 = 0"
  by (simp add: sat_def)

definition ns_sum :: "(bucket_key \<times> u64) list \<Rightarrow> nat" where
  "ns_sum xs = sum_list (map (\<lambda>x. unat (snd x)) xs)"

definition reason_of :: "flush_env \<Rightarrow> kallsyms \<Rightarrow> bucket_key \<times> u64 \<Rightarrow> reason" where
  "reason_of env ks x = classify (frames_of env ks (bk_stack_id (fst x)))"

definition on_stack :: "i32 \<Rightarrow> (bucket_key \<times> u64) list \<Rightarrow> (bucket_key \<times> u64) list" where
  "on_stack i xs = filter (\<lambda>x. bk_stack_id (fst x) = i) xs"

definition stack_totals ::
  "flush_env \<Rightarrow> kallsyms \<Rightarrow> (bucket_key \<times> u64) list \<Rightarrow> i32 \<rightharpoonup> u64 \<times> string list" where
  "stack_totals env ks ys i =
     (if on_stack i ys = [] then None else Some (sat (ns_sum (on_stack i ys)), frames_of env ks i))"

definition agg_of :: "flush_env \<Rightarrow> kallsyms \<Rightarrow> (bucket_key \<times> u64) list \<Rightarrow> reason_agg" where
  "agg_of env ks ys =
     \<lparr>ra_total_ns = sat (ns_sum ys), ra_pids = (\<lambda>x. bk_pid (fst x)) ` set ys,
      ra_by_stack = stack_totals env ks ys\<rparr>"

definition by_reason_of :: "flush_env \<Rightarrow> kallsyms \<Rightarrow> (bucket_key \<times> u64) list \<Rightarrow> reason \<rightharpoonup> reason_agg" where
  "by_reason_of env ks xs r =
     (let ys = filter (\<lambda>x. reason_of env ks x = r) xs
      in if ys = [] then None else Some (agg_of env ks ys))"

lemma ns_sum_snoc [simp]: "ns_sum (xs @ [x]) = ns_sum xs + unat (snd x)" "ns_sum [] = 0"
  by (simp_all add: ns_sum_def)

lemma on_stack_snoc:
  "on_stack i (xs @ [x]) = on_stack i xs @ (if bk_stack_id (fst x) = i then [x] else [])"
  "on_stack i [] = []"
  by (simp_all add: on_stack_def)

lemma stack_totals_snoc:
  "stack_totals env ks (ys @ [x]) =
     (let i = bk_stack_id (fst x);
          entry = (case stack_totals env ks ys i of Some e \<Rightarrow> e | None \<Rightarrow> (0, frames_of env ks i))
      in (stack_totals env ks ys)(i \<mapsto> (saturating_add (fst entry) (snd x), snd entry)))"
proof
  fix j
  let ?i = "bk_stack_id (fst x)"
  have "saturating_add 0 (snd x) = sat (unat (snd x))"
    using saturating_add_sat [of 0 "snd x"] by simp
  then show "stack_totals env ks (ys @ [x]) j = (let i = ?i;
          entry = (case stack_totals env ks ys i of Some e \<Rightarrow> e | None \<Rightarrow> (0, frames_of env ks i))
      in (stack_totals env ks ys)(i \<mapsto> (saturating_add (fst entry) (snd x), snd entry))) j"
    by (cases "j = ?i"; cases "on_stack ?i ys = []")
      (simp_all add: stack_totals_def on_stack_snoc saturating_add_sat ns_sum_def Let_def)
qed

lemma agg_of_snoc:
  "agg_of env ks (ys @ [x]) =
     (let agg = (if ys = [] then reason_agg_default else agg_of env ks ys);
          i = bk_stack_id (fst x);
          entry = (case ra_by_stack agg i of Some e \<Rightarrow> e | None \<Rightarrow> (0, frames_of env ks i))
      in agg\<lparr>ra_total_ns := saturating_add (ra_total_ns agg) (snd x),
             ra_pids := insert (bk_pid (fst x)) (ra_pids agg),
             ra_by_stack := (ra_by_stack agg)
               (i \<mapsto> (saturating_add (fst entry) (snd x), snd entry))\<rparr>)"
proof -
  have default: "reason_agg_default = agg_of env ks []"
    by (auto simp: reason_agg_default_def agg_of_def stack_totals_def on_stack_snoc)
  have "(if ys = [] then reason_agg_default else agg_of env ks ys) = agg_of env ks ys"
    by (simp add: default)
  then show ?thesis
    by (simp add: agg_of_def Let_def stack_totals_snoc saturating_add_sat)
qed

lemma aggregate_closed: "aggregate env ks xs = by_reason_of env ks xs"
proof (induction xs rule: rev_induct)
  case Nil
  then show ?case by (auto simp: aggregate_def by_reason_of_def)
next
  case (snoc x xs)
  have "aggregate env ks (xs @ [x]) = add_bucket env ks x (by_reason_of env ks xs)"
    using snoc by (simp add: aggregate_def)
  also have "\<dots> = by_reason_of env ks (xs @ [x])"
  proof
    fix r
    let ?ys = "filter (\<lambda>y. reason_of env ks y = reason_of env ks x) xs"
    show "add_bucket env ks x (by_reason_of env ks xs) r = by_reason_of env ks (xs @ [x]) r"
      using agg_of_snoc [of env ks ?ys x]
      by (cases x) (auto simp: add_bucket_def by_reason_of_def reason_of_def Let_def)
  qed
  finally show ?case .
qed

lemma ns_sum_mset: "ns_sum xs = sum_mset (image_mset (\<lambda>x. unat (snd x)) (mset xs))"
  by (induction xs) (simp_all add: ns_sum_def)

text \<open>The report is a partition of the retained buckets: each bucket counts for exactly one reason,
  that of its stack; a reason's time is the sum of its buckets' times, saturated at the largest
  \<open>u64\<close>, its threads are the distinct threads of its buckets, and each of its stacks carries the
  sum of the buckets on that stack and its frames. The order in which the kernel lists the
  buckets does not matter.\<close>

lemma aggregate_partitions:
  "aggregate env ks xs r =
     (let ys = filter (\<lambda>x. reason_of env ks x = r) xs
      in if ys = [] then None
         else Some \<lparr>ra_total_ns = sat (ns_sum ys), ra_pids = (\<lambda>x. bk_pid (fst x)) ` set ys,
                ra_by_stack = stack_totals env ks ys\<rparr>) \<and>
   (mset xs = mset xs' \<longrightarrow> aggregate env ks xs r = aggregate env ks xs' r)"
proof (intro conjI impI)
  show "aggregate env ks xs r =
     (let ys = filter (\<lambda>x. reason_of env ks x = r) xs
      in if ys = [] then None
         else Some \<lparr>ra_total_ns = sat (ns_sum ys), ra_pids = (\<lambda>x. bk_pid (fst x)) ` set ys,
                ra_by_stack = stack_totals env ks ys\<rparr>)"
    by (simp add: aggregate_closed by_reason_of_def agg_of_def Let_def)
next
  assume same: "mset xs = mset xs'"
  let ?ys = "filter (\<lambda>x. reason_of env ks x = r) xs"
  let ?zs = "filter (\<lambda>x. reason_of env ks x = r) xs'"
  have m: "mset ?ys = mset ?zs"
    using same by simp
  have sum: "mset as = mset bs \<Longrightarrow> ns_sum as = ns_sum bs" for as bs
    by (simp add: ns_sum_mset)
  have stack: "mset (on_stack i ?ys) = mset (on_stack i ?zs)" for i
    unfolding on_stack_def mset_filter [of _ ?ys] mset_filter [of _ ?zs] m ..
  have "stack_totals env ks ?ys = stack_totals env ks ?zs"
  proof
    fix i
    show "stack_totals env ks ?ys i = stack_totals env ks ?zs i"
      using sum [OF stack [of i]] stack [of i] by (auto simp: stack_totals_def)
  qed
  then have "agg_of env ks ?ys = agg_of env ks ?zs"
    using sum [OF m] mset_eq_setD [OF m] by (simp add: agg_of_def)
  moreover have "?ys = [] \<longleftrightarrow> ?zs = []"
    using m by (metis mset_zero_iff)
  ultimately show "aggregate env ks xs r = aggregate env ks xs' r"
    by (simp add: aggregate_closed by_reason_of_def Let_def)
qed

definition sample_env :: "(unit + bucket_key \<times> u64) list \<Rightarrow> flush_env" where
  "sample_env entries =
     \<lparr>fe_iter = entries, fe_ops = roomy_ops,
      fe_stack = (\<lambda>i. if i = 5 then Some [0xb2] else None),
      fe_enum_stacks = (\<lambda>m. List.map_filter (\<lambda>i. map_option (Pair i) (m i)) [5, - 1]),
      fe_enum_reasons = (\<lambda>m. List.map_filter (\<lambda>r. map_option (Pair r) (m r))
        [BlockIo, Futex, SchedDelay, OtherReason]),
      fe_ts = ''t'', fe_window_text = ''10s'', fe_writes = True\<rparr>"

definition sample_buckets :: "(bucket_key \<times> u64) list" where
  "sample_buckets =
     [(\<lparr>bk_pid = 740, bk_stack_id = 5\<rparr>, 800), (\<lparr>bk_pid = 741, bk_stack_id = - 1\<rparr>, 90),
      (\<lparr>bk_pid = 742, bk_stack_id = 5\<rparr>, 200)]"

definition sample_syms :: kallsyms where
  "sample_syms = [(0xb0, ''futex_wait_queue''), (0xc0, ''schedule'')]"

lemma sample_reasons:
  "filter (\<lambda>x. reason_of (sample_env es) sample_syms x = Futex) sample_buckets =
     [(\<lparr>bk_pid = 740, bk_stack_id = 5\<rparr>, 800), (\<lparr>bk_pid = 742, bk_stack_id = 5\<rparr>, 200)]"
  by (simp add: sample_buckets_def reason_of_def frames_of_def sample_env_def sample_syms_def
      lookup_def partition_point_def bisect.simps classify_def is_block_io_def is_futex_def prefix_heads)

lemma aggregate_partitions_witness:
  "map_option ra_total_ns (aggregate (sample_env []) sample_syms (rev sample_buckets) Futex) =
     Some (sat 1000)"
proof -
  have "aggregate (sample_env []) sample_syms sample_buckets Futex =
      aggregate (sample_env []) sample_syms (rev sample_buckets) Futex"
    using conjunct2 [OF aggregate_partitions [of "sample_env []" sample_syms sample_buckets Futex
        "rev sample_buckets"]] by simp
  moreover have "map_option ra_total_ns (aggregate (sample_env []) sample_syms sample_buckets Futex) =
      Some (sat 1000)"
    by (simp add: aggregate_closed by_reason_of_def sample_reasons agg_of_def ns_sum_def)
  ultimately show ?thesis
    by simp
qed

subsection \<open>Conservation\<close>

lemma ns_sum_split: "ns_sum xs = ns_sum (filter P xs) + ns_sum (filter (\<lambda>x. \<not> P x) xs)"
  by (induction xs) (auto simp: ns_sum_def)

lemma UNIV_reason: "(UNIV :: reason set) = {BlockIo, Futex, SchedDelay, OtherReason}"
  using reason.exhaust by blast

instance reason :: finite
  by standard (simp add: UNIV_reason)

lemma ns_sum_reasons:
  "(\<Sum>r \<in> UNIV. ns_sum (filter (\<lambda>x. reason_of env ks x = r) xs)) = ns_sum xs"
proof (induction xs)
  case (Cons x xs)
  have "(\<Sum>r \<in> UNIV. ns_sum (filter (\<lambda>x. reason_of env ks x = r) (x # xs))) =
      (\<Sum>r \<in> UNIV. (if reason_of env ks x = r then unat (snd x) else 0) +
        ns_sum (filter (\<lambda>x. reason_of env ks x = r) xs))"
    by (intro sum.cong) (auto simp: ns_sum_def)
  then show ?case
    using Cons by (simp add: sum.distrib) (simp add: ns_sum_def)
qed (simp add: ns_sum_def)

lemma sum_by_key:
  fixes f :: "'a \<Rightarrow> nat"
  shows "(\<Sum>k \<in> g ` set xs. sum_list (map f (filter (\<lambda>x. g x = k) xs))) = sum_list (map f xs)"
proof (induction xs)
  case (Cons x xs)
  let ?F = "\<lambda>k. sum_list (map f (filter (\<lambda>x. g x = k) xs))"
  have absent: "?F k = 0" if "k \<notin> g ` set xs" for k
    using that by (induction xs) auto
  have "(\<Sum>k \<in> g ` set (x # xs). sum_list (map f (filter (\<lambda>y. g y = k) (x # xs)))) =
      (\<Sum>k \<in> insert (g x) (g ` set xs). (if g x = k then f x else 0) + ?F k)"
    by (intro sum.cong) auto
  also have "\<dots> = f x + (\<Sum>k \<in> insert (g x) (g ` set xs). ?F k)"
    by (simp add: sum.distrib)
  also have "(\<Sum>k \<in> insert (g x) (g ` set xs). ?F k) = (\<Sum>k \<in> g ` set xs. ?F k)"
    using absent [of "g x"] by (cases "g x \<in> g ` set xs") (auto simp: insert_absorb)
  finally show ?case
    using Cons by simp
qed simp

definition lists :: "('k \<times> 'v) list \<Rightarrow> ('k \<rightharpoonup> 'v) \<Rightarrow> bool" where
  "lists xs m \<longleftrightarrow> distinct (map fst xs) \<and> map_of xs = m"

lemma unat_bucket_sum:
  assumes "sum_list (map (\<lambda>x. unat (snd x)) ss) < 2 ^ 64"
  shows "unat (bucket_sum k ss) = sum_list (map (\<lambda>x. unat (snd x)) (filter (\<lambda>x. fst x = k) ss))"
  using assms
proof (induction ss)
  case (Cons x ss)
  let ?n = "sum_list (map (\<lambda>x. unat (snd x)) (filter (\<lambda>x. fst x = k) ss))"
  have "?n \<le> sum_list (map (\<lambda>x. unat (snd x)) ss)"
    by (induction ss) auto
  then have "unat (snd x) + ?n < 2 ^ 64"
    using Cons.prems by simp
  moreover have "unat (bucket_sum k ss) = ?n"
    using Cons by simp
  ultimately show ?case
    by (simp add: bucket_sum_def unat_word_ariths)
qed (simp add: bucket_sum_def)

text \<open>The time in the buckets, when they started empty, is the time of the samples.\<close>

lemma ns_sum_samples:
  assumes "lists xs (bucket_after Map.empty ss)"
    and "sum_list (map (\<lambda>x. unat (snd x)) ss) < 2 ^ 64"
  shows "ns_sum xs = sum_list (map (\<lambda>x. unat (snd x)) ss)"
proof -
  have xs: "distinct (map fst xs)" "map_of xs = bucket_after Map.empty ss"
    using assms(1) by (simp_all add: lists_def)
  have keys: "fst ` set xs = fst ` set ss"
  proof -
    have "dom (bucket_after Map.empty ss) = fst ` set ss"
      by (auto simp: bucket_after_def dom_def)
    then show ?thesis
      by (simp add: xs(2) flip: dom_map_of_conv_image_fst)
  qed
  have val: "snd x = bucket_sum (fst x) ss" if "x \<in> set xs" for x
  proof -
    have "map_of xs (fst x) = Some (snd x)"
      using that xs(1) by (simp add: map_of_is_SomeI)
    then show ?thesis
      by (auto simp: xs(2) bucket_after_def split: if_splits)
  qed
  have "ns_sum xs = (\<Sum>x \<in> set xs. unat (snd x))"
    unfolding ns_sum_def using xs(1) by (simp add: distinct_map sum_list_distinct_conv_sum_set)
  also have "\<dots> = (\<Sum>x \<in> set xs. unat (bucket_sum (fst x) ss))"
    using val by (intro sum.cong) simp_all
  also have "\<dots> = (\<Sum>k \<in> fst ` set xs. unat (bucket_sum k ss))"
    using xs(1) by (simp add: distinct_map sum.reindex)
  also have "\<dots> = sum_list (map (\<lambda>x. unat (snd x)) ss)"
    using sum_by_key [of "\<lambda>x. unat (snd x)" fst ss] unat_bucket_sum [OF assms(2)]
    by (simp add: keys)
  finally show ?thesis .
qed

text \<open>
  One window that starts with empty buckets and whose buckets are listed as they are at its end:
  the times of the four reasons add up to the time of the window's samples.
\<close>

lemma window_time:
  assumes "\<forall>h \<in> set hs. io_good h \<and> update_admits (bucket_ops (snd h))"
    and "buckets s = Map.empty" and "lists xs (buckets (io_run hs s))"
    and "sum_list (map (\<lambda>x. unat (snd x)) (samples hs s)) < 2 ^ 64"
  shows "(\<Sum>r \<in> UNIV. case aggregate env ks xs r of None \<Rightarrow> 0 | Some g \<Rightarrow> unat (ra_total_ns g)) =
    sum_list (map (\<lambda>x. unat (snd x)) (samples hs s))"
proof -
  have total: "ns_sum xs = sum_list (map (\<lambda>x. unat (snd x)) (samples hs s))"
  proof (rule ns_sum_samples [OF _ assms(4)])
    have "buckets (io_run hs s) = bucket_after Map.empty (samples hs s)"
      using buckets_after_run [OF assms(1), of s] assms(2) by simp
    then show "lists xs (bucket_after Map.empty (samples hs s))"
      using assms(3) by simp
  qed
  have "(case aggregate env ks xs r of None \<Rightarrow> 0 | Some g \<Rightarrow> unat (ra_total_ns g)) =
      ns_sum (filter (\<lambda>x. reason_of env ks x = r) xs)" (is "_ = ns_sum ?ys") for r
  proof -
    have "ns_sum ?ys < 2 ^ 64"
      using ns_sum_split [of xs "\<lambda>x. reason_of env ks x = r"] total assms(4) by linarith
    then have "min (ns_sum ?ys) (2 ^ 64 - 1) = ns_sum ?ys"
      by simp
    then have "unat (sat (ns_sum ?ys)) = ns_sum ?ys"
      by (simp only: unat_sat)
    moreover have "?ys = [] \<Longrightarrow> ns_sum ?ys = 0"
      by (simp add: ns_sum_def)
    ultimately show ?thesis
      by (simp add: aggregate_closed by_reason_of_def agg_of_def Let_def)
  qed
  then show ?thesis
    using ns_sum_reasons [of env ks xs] total by simp
qed

end
