(* ===== verification/Iowait_Window.thy ===== *)
theory Iowait_Window
  imports Iowait_Report
begin

section \<open>tragach-iowait: draining, filtering and printing a window\<close>

text \<open>
  What \<open>flush_window\<close> leaves in the bucket map, what it loses when a wake-up falls between its
  two passes over the map, which buckets the idle filter drops, and which stacks are printed.
\<close>

subsection \<open>Draining\<close>

lemma snapshot_of_Inr: "snapshot_of (map Inr xs) = Inr xs"
  by (induction xs) simp_all

lemma drain_buckets_eq:
  "remove_ok ops \<Longrightarrow> drain_buckets ops xs m = m |` (- fst ` set xs)"
proof (induction xs arbitrary: m)
  case (Cons x xs)
  then have "drain_buckets ops (x # xs) m = (m(fst x := None)) |` (- fst ` set xs)"
    by (simp add: drain_buckets_def remove_ok_def)
  also have "\<dots> = m |` (- fst ` set (x # xs))"
    by (auto simp: restrict_map_def)
  finally show ?case .
qed (simp add: drain_buckets_def restrict_map_def)

lemma drain_lists:
  "remove_ok ops \<Longrightarrow> lists xs m \<Longrightarrow> drain_buckets ops xs m = Map.empty"
  by (auto simp: drain_buckets_eq lists_def restrict_map_def map_of_eq_None_iff)

definition sample_args :: flush_args where
  "sample_args = \<lparr>fa_window_ns = 10000000000, fa_pid = 736, fa_top_stacks = 3, fa_json = True,
     fa_exclude_idle = False, fa_idle_threshold = (1, 2)\<rparr>"

subsection \<open>The gap between the two passes\<close>

text \<open>Samples that complete between the first pass over the buckets (reading) and the second
  (removing) are lost when they fall into a bucket that was read: the report holds the value
  read before them, and the removal takes the bucket with their time. Only samples in buckets
  that were not listed survive into the next window.\<close>

lemma drain_race_loses_samples:
  assumes "remove_ok ops" "lists xs (buckets s)"
    and "\<forall>h \<in> set hs. io_good h \<and> update_admits (bucket_ops (snd h))"
    and "(k, v) \<in> set xs" "k \<in> fst ` set (samples hs s)"
  shows "buckets (io_run hs s) k = Some (v + bucket_sum k (samples hs s)) \<and>
    drain_buckets ops xs (buckets (io_run hs s)) k = None \<and>
    (\<forall>j. buckets s j = None \<longrightarrow>
       drain_buckets ops xs (buckets (io_run hs s)) j = buckets (io_run hs s) j)"
proof -
  have v: "buckets s k = Some v"
    using assms(2,4) by (auto simp: lists_def dest: map_of_is_SomeI)
  have "buckets (io_run hs s) k = Some (v + bucket_sum k (samples hs s))"
    using buckets_after_run [OF assms(3), of s] assms(5) v by (simp add: bucket_after_def)
  moreover have "k \<in> fst ` set xs"
    using assms(4) by force
  moreover have "buckets s j = None \<Longrightarrow> j \<notin> fst ` set xs" for j
    using map_of_eq_None_iff [of xs j] assms(2) by (simp add: lists_def)
  ultimately show ?thesis
    by (simp add: drain_buckets_eq [OF assms(1)])
qed

lemma drain_race_loses_samples_witness:
  "buckets (io_run [(SchedSwitch, io_ctx 736 740 3000 740 2 5), (SchedWakeup, io_ctx 9 9 3050 740 0 0)]
      ((io_init 736)\<lparr>buckets := [\<lparr>bk_pid = 740, bk_stack_id = 5\<rparr> \<mapsto> 800]\<rparr>))
      \<lparr>bk_pid = 740, bk_stack_id = 5\<rparr> = Some 850"
proof -
  let ?k = "\<lparr>bk_pid = 740, bk_stack_id = 5\<rparr>"
  let ?hs = "[(SchedSwitch, io_ctx 736 740 3000 740 2 5), (SchedWakeup, io_ctx 9 9 3050 740 0 0)]"
  let ?s = "(io_init 736)\<lparr>buckets := [?k \<mapsto> 800]\<rparr>"
  have "lists [(?k, 800)] (buckets ?s)"
    by (simp add: lists_def)
  moreover have "samples ?hs ?s = [(?k, 50)]"
    by (simp add: sample_of_def start_step slept_def saturating_sub_def)
  moreover have "remove_ok (roomy_ops :: (bucket_key, u64) map_ops)"
    by (simp add: remove_ok_def)
  ultimately show ?thesis
    using drain_race_loses_samples [of roomy_ops "[(?k, 800)]" ?s ?hs ?k 800]
    by (simp add: bucket_sum_def del: io_run_simps)
qed

subsection \<open>The idle filter\<close>

lemma default_idle_threshold:
  assumes "fa_idle_threshold a = (1, 2)" "fa_window_ns a < 2 ^ 53"
  shows "unat (idle_threshold_ns a) = fa_window_ns a div 2"
proof -
  let ?w = "fa_window_ns a" and ?x = "f64_of_nat (fa_window_ns a)"
  have pos: "0 < snd (fst ?x * 1, snd ?x * 2)"
    using f64_pos(1) by simp
  have "ratio_val (fst ?x * 1, snd ?x * 2) = real ?w / 2 ^ 1"
    using f64_of_nat_exact [OF assms(2)] by (simp add: ratio_val_def)
  then have "ratio_val (f64_mul ?x (1, 2)) = real ?w / real 2"
    using f64_round_exact [OF pos _ assms(2), of 1] by (simp add: f64_mul_def)
  moreover have "0 < snd (f64_mul ?x (1, 2))"
    using f64_pos(1) by (intro f64_pos(3)) simp_all
  moreover have "?w div 2 < 2 ^ 64"
    using assms(2) by simp
  ultimately show ?thesis
    unfolding idle_threshold_ns_def assms(1) by (intro f64_as_u64_floor) simp_all
qed

text \<open>With the default idle threshold of one half, the filter drops exactly the buckets that cover
  at least half of the window (rounded down to a nanosecond), and counts them; equality is
  dropped as well. Windows up to \<open>2 ^ 53\<close> nanoseconds (104 days) are computed exactly.\<close>

lemma default_idle_filter:
  assumes "fa_exclude_idle a" "fa_idle_threshold a = (1, 2)" "fa_window_ns a < 2 ^ 53"
  shows "retained a xs = filter (\<lambda>x. unat (snd x) < fa_window_ns a div 2) xs \<and>
    length xs - length (retained a xs) =
      length (filter (\<lambda>x. fa_window_ns a div 2 \<le> unat (snd x)) xs)"
proof -
  let ?w = "fa_window_ns a"
  have kept: "retained a xs = filter (\<lambda>x. unat (snd x) < ?w div 2) xs"
    using assms(1) default_idle_threshold [OF assms(2,3)]
    by (simp add: retained_def word_less_nat_alt)
  moreover have "length xs = length (filter (\<lambda>x. unat (snd x) < ?w div 2) xs) +
      length (filter (\<lambda>x. ?w div 2 \<le> unat (snd x)) xs)"
    using sum_length_filter_compl [of "\<lambda>x. unat (snd x) < ?w div 2" xs] by (simp add: not_less)
  ultimately show ?thesis
    by simp
qed

lemma default_idle_filter_witness:
  "retained (sample_args\<lparr>fa_exclude_idle := True\<rparr>)
     [(\<lparr>bk_pid = 740, bk_stack_id = 5\<rparr>, 5000000000), (\<lparr>bk_pid = 741, bk_stack_id = 5\<rparr>, 4999999999)] =
   [(\<lparr>bk_pid = 741, bk_stack_id = 5\<rparr>, 4999999999)]"
  using default_idle_filter [of "sample_args\<lparr>fa_exclude_idle := True\<rparr>"]
  by (simp add: sample_args_def)

subsection \<open>The stacks that are printed\<close>

lemma sort_desc_sorted: "sorted_wrt (\<ge>) (map f (sort_desc f xs))"
proof -
  have "sorted (map (\<lambda>x. - int (unat (f x))) (sort_desc f xs))"
    by (simp add: sort_desc_def)
  then show ?thesis
    by (simp add: sorted_map sorted_wrt_map word_le_def)
qed

lemma sort_desc_mset [simp]: "mset (sort_desc f xs) = mset xs"
  by (simp add: sort_desc_def)

text \<open>Whatever order the hash map iterates in, the stacks printed for a reason are distinct, at
  most the requested number and no fewer than there are up to it, each with the time and frames
  of that stack, in descending order of time; and no stack left out has more time than one
  that is printed.\<close>

lemma top_stacks_are_largest:
  assumes "lists (fe_enum_stacks env (ra_by_stack agg)) (ra_by_stack agg)"
  shows "distinct (map fst (top_of env n agg)) \<and>
    length (top_of env n agg) = min (unat n) (card (dom (ra_by_stack agg))) \<and>
    sorted_wrt (\<ge>) (map (\<lambda>e. fst (snd e)) (top_of env n agg)) \<and>
    (\<forall>e \<in> set (top_of env n agg). ra_by_stack agg (fst e) = Some (snd e) \<and>
      (\<forall>i t fs. ra_by_stack agg i = Some (t, fs) \<and> i \<notin> fst ` set (top_of env n agg) \<longrightarrow>
         t \<le> fst (snd e)))"
proof -
  let ?l = "fe_enum_stacks env (ra_by_stack agg)" and ?f = "\<lambda>e :: i32 \<times> u64 \<times> string list. fst (snd e)"
  let ?s = "sort_desc ?f ?l"
  have l: "distinct (map fst ?l)" "map_of ?l = ra_by_stack agg"
    using assms by (simp_all add: lists_def)
  have set: "set ?s = set ?l"
    using mset_eq_setD [OF sort_desc_mset] .
  have "mset (map fst ?s) = mset (map fst ?l)"
    by simp
  then have dist: "distinct (map fst ?s)"
    using l(1) mset_eq_imp_distinct_iff by blast
  have len: "length ?s = card (dom (ra_by_stack agg))"
    using l mset_eq_length [OF sort_desc_mset [of ?f ?l]]
    by (metis distinct_card dom_map_of_conv_image_fst length_map list.set_map)
  have sorted: "sorted_wrt (\<lambda>x y. ?f y \<le> ?f x) ?s"
    using sort_desc_sorted [of ?f ?l] by (simp add: sorted_wrt_map)
  have top: "top_of env n agg = take (unat n) ?s"
    by (simp add: top_of_def)
  have larger: "t \<le> ?f e" if e: "e \<in> set (take (unat n) ?s)"
    and i: "ra_by_stack agg i = Some (t, fs)" "i \<notin> fst ` set (take (unat n) ?s)" for e i t fs
  proof -
    have "(i, t, fs) \<in> set ?s"
      using i(1) l(2) set by (metis map_of_SomeD)
    then have "(i, t, fs) \<in> set (take (unat n) ?s @ drop (unat n) ?s)"
      by (simp only: append_take_drop_id)
    moreover have "(i, t, fs) \<notin> set (take (unat n) ?s)"
      using i(2) by force
    ultimately have rest: "(i, t, fs) \<in> set (drop (unat n) ?s)"
      by (simp only: set_append Un_iff) simp
    have "sorted_wrt (\<lambda>x y. ?f y \<le> ?f x) (take (unat n) ?s @ drop (unat n) ?s)"
      using sorted by (simp only: append_take_drop_id)
    then have "?f (i, t, fs) \<le> ?f e"
      using e rest by (simp only: sorted_wrt_append)
    then show ?thesis
      by simp
  qed
  have data: "ra_by_stack agg (fst e) = Some (snd e)" if "e \<in> set (take (unat n) ?s)" for e
  proof -
    have "(fst e, snd e) \<in> set ?l"
      using in_set_takeD [OF that] set by simp
    then have "map_of ?l (fst e) = Some (snd e)"
      by (rule map_of_is_SomeI [OF l(1)])
    then show ?thesis
      by (simp only: l(2))
  qed
  show ?thesis
    unfolding top
  proof (intro conjI ballI allI impI; (elim conjE)?)
    show "distinct (map fst (take (unat n) ?s))"
      using dist by (simp add: distinct_take flip: take_map)
    show "length (take (unat n) ?s) = min (unat n) (card (dom (ra_by_stack agg)))"
      using len by simp
    show "sorted_wrt (\<ge>) (map ?f (take (unat n) ?s))"
      using sorted_wrt_take [OF sort_desc_sorted [of ?f ?l], of "unat n"] by (simp add: take_map)
  qed (fact data, erule (2) larger)
qed

lemma top_stacks_are_largest_witness:
  "length (top_of (sample_env []) 1 \<lparr>ra_total_ns = 1090, ra_pids = {740, 741},
     ra_by_stack = [5 \<mapsto> (1000, []), - 1 \<mapsto> (90, [])]\<rparr>) = 1"
proof -
  let ?agg = "\<lparr>ra_total_ns = 1090, ra_pids = {740, 741},
     ra_by_stack = [5 \<mapsto> (1000, []), - 1 \<mapsto> (90, [])]\<rparr> :: reason_agg"
  have "lists (fe_enum_stacks (sample_env []) (ra_by_stack ?agg)) (ra_by_stack ?agg)"
    by (auto simp: lists_def sample_env_def map_filter_def)
  then show ?thesis
    using top_stacks_are_largest [of "sample_env []" ?agg 1] by (simp add: card_insert_if)
qed

end
