(* ===== verification/Iowait_Loop.thy ===== *)
theory Iowait_Loop
  imports Iowait_Window
begin

section \<open>tragach-iowait: the main loop\<close>

text \<open>
  The tick loop at the end of \<open>main\<close> in \<open>crates/tragach-iowait/src/main.rs\<close>, with the scheduler hits
  between two ticks: each window's hits run on the state the previous flush left behind. Shown:
  over any number of windows, each sample's time reaches the JSON report of its own window, and
  only that one, up to the truncation to milliseconds.
\<close>

subsection \<open>The loop\<close>

text \<open>A turn of \<open>select!\<close>: Ctrl-C, or a tick after the given hits.\<close>

datatype io_turn = IoCtrlC | IoTick "io_hit list" flush_env

fun io_main_loop ::
  "kallsyms \<Rightarrow> flush_args \<Rightarrow> io_turn list \<Rightarrow> io_state \<Rightarrow> io_output list \<Rightarrow>
     (unit + unit) option \<times> io_state \<times> io_output list" where
  "io_main_loop ks a [] s out = (None, s, out)"
| "io_main_loop ks a (IoCtrlC # ts) s out = (Some (Inr ()), s, out)"
| "io_main_loop ks a (IoTick hs env # ts) s out =
     (let s = io_run hs s;
          (r, m) = flush_window env ks a (buckets s);
          s = s\<lparr>buckets := m\<rparr>
      in case r of Inl e \<Rightarrow> (Some (Inl e), s, out)
         | Inr w \<Rightarrow> io_main_loop ks a ts s (out @ [w]))"

subsection \<open>What a report says of its window\<close>

lemma reason_label_inj: "reason_label r = reason_label q \<longleftrightarrow> r = q"
  by (cases r; cases q; simp)

lemma labelled:
  "distinct (map fst xs) \<Longrightarrow>
     fold (\<lambda>x m. m(reason_label (fst x) \<mapsto> f (snd x))) xs m0 (reason_label r) =
       (case map_of xs r of Some g \<Rightarrow> Some (f g) | None \<Rightarrow> m0 (reason_label r))"
proof (induction xs arbitrary: m0)
  case (Cons x xs)
  then show ?case
    by (cases x) (auto simp: reason_label_inj map_of_eq_None_iff image_iff split: option.splits)
qed simp

text \<open>The milliseconds a window reports for a reason, and for all of them.\<close>

definition reported_ms :: "io_output \<Rightarrow> reason \<Rightarrow> nat" where
  "reported_ms w r =
     (case w of IoLines ls \<Rightarrow> 0
      | IoJson j \<Rightarrow> (case jw_by_reason j (reason_label r) of None \<Rightarrow> 0 | Some x \<Rightarrow> unat (jr_total_ms x)))"

definition reported_total_ms :: "io_output \<Rightarrow> nat" where
  "reported_total_ms w = (\<Sum>r \<in> UNIV. reported_ms w r)"

lemma reported_ms_json:
  assumes "lists (fe_enum_reasons env m) m"
  shows "reported_ms (IoJson (json_window env a n m)) r =
    (case m r of None \<Rightarrow> 0 | Some g \<Rightarrow> unat (ra_total_ns g)) div 1000000"
proof -
  have "jw_by_reason (json_window env a n m) (reason_label r) = map_option (json_reason_of env a) (m r)"
    using assms labelled [of "fe_enum_reasons env m" "json_reason_of env a" Map.empty r]
    by (simp add: json_window_def lists_def split: option.splits)
  then show ?thesis
    by (cases "m r") (simp_all add: reported_ms_def json_reason_of_def unat_div)
qed

lemma sum_of_quotients:
  fixes f :: "reason \<Rightarrow> nat"
  shows "(\<Sum>r \<in> UNIV. f r div d) * d \<le> (\<Sum>r \<in> UNIV. f r) \<and>
    (0 < d \<longrightarrow> (\<Sum>r \<in> UNIV. f r) < ((\<Sum>r \<in> UNIV. f r div d) + 4) * d)"
proof (intro conjI impI)
  show "(\<Sum>r \<in> UNIV. f r div d) * d \<le> (\<Sum>r \<in> UNIV. f r)"
    by (simp add: sum_distrib_right sum_mono)
next
  assume "0 < d"
  have card: "card (UNIV :: reason set) = 4"
    by (simp add: UNIV_reason)
  have "(\<Sum>r \<in> UNIV. f r) < (\<Sum>r \<in> UNIV. (f r div d + 1) * d)"
    using \<open>0 < d\<close> by (intro sum_strict_mono) (simp_all add: dividend_less_div_times)
  also have "\<dots> = (\<Sum>r \<in> UNIV. f r div d + 1) * d"
    by (rule sum_distrib_right [symmetric])
  also have "(\<Sum>r \<in> UNIV. f r div d + 1) = (\<Sum>r \<in> UNIV. f r div d) + (\<Sum>r \<in> (UNIV :: reason set). 1)"
    by (rule sum.distrib)
  also have "(\<Sum>r \<in> (UNIV :: reason set). 1) = (4 :: nat)"
    by (simp add: card)
  finally show "(\<Sum>r \<in> UNIV. f r) < ((\<Sum>r \<in> UNIV. f r div d) + 4) * d" .
qed

subsection \<open>All windows of a run\<close>

fun listed :: "(unit + bucket_key \<times> u64) list \<Rightarrow> (bucket_key \<times> u64) list" where
  "listed [] = []"
| "listed (Inl e # es) = listed es"
| "listed (Inr x # es) = x # listed es"

lemma listed_Inr [simp]: "listed (map Inr xs) = xs"
  by (induction xs) simp_all

text \<open>
  A quiet window: the maps have room, the kernel lists the buckets as they are when the tick
  comes, the reasons are listed as they are, and the write succeeds.
\<close>

definition quiet_window :: "io_hit list \<Rightarrow> flush_env \<Rightarrow> io_state \<Rightarrow> bool" where
  "quiet_window hs env s \<longleftrightarrow>
     (\<forall>h \<in> set hs. io_good h \<and> update_admits (bucket_ops (snd h))) \<and>
     remove_ok (fe_ops env) \<and> fe_writes env \<and>
     fe_iter env = map Inr (listed (fe_iter env)) \<and>
     lists (listed (fe_iter env)) (buckets (io_run hs s)) \<and>
     (\<forall>m. lists (fe_enum_reasons env m) m) \<and>
     sum_list (map (\<lambda>x. unat (snd x)) (samples hs s)) < 2 ^ 64"

definition next_window :: "io_hit list \<Rightarrow> io_state \<Rightarrow> io_state" where
  "next_window hs s = (io_run hs s)\<lparr>buckets := Map.empty\<rparr>"

fun quiet_windows :: "(io_hit list \<times> flush_env) list \<Rightarrow> io_state \<Rightarrow> bool" where
  "quiet_windows [] s = True"
| "quiet_windows ((hs, env) # ws) s = (quiet_window hs env s \<and> quiet_windows ws (next_window hs s))"

text \<open>The total sleeping time of each window's samples, in nanoseconds.\<close>

fun window_times :: "(io_hit list \<times> flush_env) list \<Rightarrow> io_state \<Rightarrow> nat list" where
  "window_times [] s = []"
| "window_times ((hs, env) # ws) s =
     sum_list (map (\<lambda>x. unat (snd x)) (samples hs s)) # window_times ws (next_window hs s)"

lemma flush_quiet:
  assumes "quiet_window hs env s" "fa_json a" "\<not> fa_exclude_idle a"
  shows "flush_window env ks a (buckets (io_run hs s)) =
    (Inr (IoJson (json_window env a 0 (aggregate env ks (listed (fe_iter env))))), Map.empty)"
proof -
  let ?xs = "listed (fe_iter env)"
  have q: "remove_ok (fe_ops env)" "lists ?xs (buckets (io_run hs s))" "fe_writes env"
    "fe_iter env = map Inr ?xs"
    using assms(1) by (simp_all only: quiet_window_def)
  have "drain_buckets (fe_ops env) ?xs (buckets (io_run hs s)) = Map.empty"
    using q(1,2) by (rule drain_lists)
  moreover have "snapshot_of (fe_iter env) = Inr ?xs"
    using q(4) snapshot_of_Inr by metis
  ultimately show ?thesis
    using assms(2,3) q(3) by (simp add: flush_window_def retained_def Let_def)
qed

lemma quiet_window_time:
  assumes "quiet_window hs env s" "buckets s = Map.empty"
  shows "reported_total_ms (IoJson (json_window env a 0 (aggregate env ks (listed (fe_iter env))))) * 1000000
      \<le> sum_list (map (\<lambda>x. unat (snd x)) (samples hs s)) \<and>
    sum_list (map (\<lambda>x. unat (snd x)) (samples hs s)) <
      (reported_total_ms (IoJson (json_window env a 0 (aggregate env ks (listed (fe_iter env))))) + 4)
        * 1000000"
proof -
  let ?m = "aggregate env ks (listed (fe_iter env))"
  let ?f = "\<lambda>r. case ?m r of None \<Rightarrow> 0 | Some g \<Rightarrow> unat (ra_total_ns g)"
  have reported: "reported_total_ms (IoJson (json_window env a 0 ?m)) = (\<Sum>r \<in> UNIV. ?f r div 1000000)"
    unfolding reported_total_ms_def
    using assms(1) by (intro sum.cong refl reported_ms_json) (simp add: quiet_window_def)
  have "(\<Sum>r \<in> UNIV. ?f r) = sum_list (map (\<lambda>x. unat (snd x)) (samples hs s))"
    using assms unfolding quiet_window_def by (intro window_time) blast+
  then show ?thesis
    using sum_of_quotients [of ?f 1000000] by (simp add: reported)
qed

text \<open>C5: no off-processor time is lost or counted twice between the scheduler and the reports: over
  any number of undisturbed windows, with the idle filter off, the loop writes one JSON window
  per tick, and the milliseconds a window reports for its four reasons are the total time of
  the samples completed in that very window, each reason truncated to whole milliseconds. A
  sleep that spans windows counts in full in the window it ends in.\<close>

theorem windows_conserve_time:
  assumes "quiet_windows ws s" and "buckets s = Map.empty" and "fa_json a" "\<not> fa_exclude_idle a"
  shows "fst (io_main_loop ks a (map (\<lambda>w. IoTick (fst w) (snd w)) ws) s []) = None \<and>
    list_all2 (\<lambda>w t. reported_total_ms w * 1000000 \<le> t \<and> t < (reported_total_ms w + 4) * 1000000)
      (snd (snd (io_main_loop ks a (map (\<lambda>w. IoTick (fst w) (snd w)) ws) s []))) (window_times ws s)"
proof -
  let ?ok = "\<lambda>w t. reported_total_ms w * 1000000 \<le> t \<and> t < (reported_total_ms w + 4) * 1000000"
  let ?loop = "\<lambda>ws s out. io_main_loop ks a (map (\<lambda>w. IoTick (fst w) (snd w)) ws) s out"
  have "fst (?loop ws s out) = None \<and>
      (\<exists>rs. snd (snd (?loop ws s out)) = out @ rs \<and> list_all2 ?ok rs (window_times ws s))" for out
    using assms(1,2)
  proof (induction ws s arbitrary: out rule: quiet_windows.induct)
    case (2 hs env ws s)
    let ?w = "IoJson (json_window env a 0 (aggregate env ks (listed (fe_iter env))))"
    from 2(2) have q: "quiet_window hs env s" "quiet_windows ws (next_window hs s)"
      by simp_all
    have step: "?loop ((hs, env) # ws) s out = ?loop ws (next_window hs s) (out @ [?w])"
      using flush_quiet [OF q(1) assms(3,4), of ks] by (simp add: next_window_def)
    have "buckets (next_window hs s) = Map.empty"
      by (simp add: next_window_def)
    then show ?case
      using 2(1) [OF q(2), of "out @ [?w]"] quiet_window_time [OF q(1) 2(3), of a ks]
      unfolding step by force
  qed simp
  from this [of "[]"] show ?thesis by auto
qed

text \<open>
  Two windows of a thread that sleeps from 1.0 s to 1.8 s and from 2.0 s to 3.5 s, with a tick in
  the second sleep.
\<close>

definition first_hits :: "io_hit list" where
  "first_hits =
     [(SchedSwitch, io_ctx 736 740 1000000000 740 1 5), (SchedWakeup, io_ctx 9 9 1800000000 740 0 0),
      (SchedSwitch, io_ctx 736 740 2000000000 740 1 5)]"

definition second_hits :: "io_hit list" where
  "second_hits = [(SchedWakeup, io_ctx 9 9 3500000000 740 0 0)]"

definition bucket_740 :: bucket_key where
  "bucket_740 = \<lparr>bk_pid = 740, bk_stack_id = 5\<rparr>"

definition sample_windows :: "(io_hit list \<times> flush_env) list" where
  "sample_windows =
     [(first_hits, sample_env [Inr (bucket_740, 800000000)]),
      (second_hits, sample_env [Inr (bucket_740, 1500000000)])]"

lemma sample_window_hits:
  "samples first_hits (io_init 736) = [(bucket_740, 800000000)]"
  "samples second_hits (next_window first_hits (io_init 736)) = [(bucket_740, 1500000000)]"
  by (simp_all add: first_hits_def second_hits_def bucket_740_def next_window_def sample_of_def
      start_step slept_def saturating_sub_def)

lemma sample_enum_reasons: "lists (fe_enum_reasons (sample_env es) m) m"
proof -
  let ?rs = "[BlockIo, Futex, SchedDelay, OtherReason]"
  have keys: "map_of (List.map_filter (\<lambda>r. map_option (Pair r) (m r)) rs) q =
      (if q \<in> set rs then m q else None)" for rs q
    by (induction rs) (auto simp: map_filter_simps split: option.splits)
  have "distinct (map fst (List.map_filter (\<lambda>r. map_option (Pair r) (m r)) ?rs))"
    by (simp add: map_filter_simps split: option.splits)
  moreover have "q \<in> set ?rs" for q
    using UNIV_reason by auto
  moreover have "map_of (List.map_filter (\<lambda>r. map_option (Pair r) (m r)) ?rs) = m"
    using calculation(2) by (intro ext) (simp only: keys if_True)
  ultimately show ?thesis
    by (simp only: lists_def sample_env_def flush_env.simps simp_thms)
qed

lemma sample_quiet_window:
  assumes "samples hs s = [(k, d)]" "buckets s = Map.empty"
    and "\<forall>h \<in> set hs. io_good h \<and> update_admits (bucket_ops (snd h))"
  shows "quiet_window hs (sample_env [Inr (k, d)]) s"
proof -
  have "buckets (io_run hs s) = [k \<mapsto> d]"
    using buckets_after_run [OF assms(3), of s] assms(1,2)
    by (auto simp: bucket_after_def bucket_sum_def)
  moreover have "unat d < 2 ^ 64"
    using unsigned_less [of d] by simp
  ultimately show ?thesis
    using assms sample_enum_reasons
    by (simp add: quiet_window_def lists_def) (simp add: sample_env_def remove_ok_def)
qed

theorem windows_conserve_time_witness:
  "list_all2 (\<lambda>w t. reported_total_ms w * 1000000 \<le> t \<and> t < (reported_total_ms w + 4) * 1000000)
     (snd (snd (io_main_loop sample_syms sample_args
       [IoTick first_hits (sample_env [Inr (bucket_740, 800000000)]),
        IoTick second_hits (sample_env [Inr (bucket_740, 1500000000)])] (io_init 736) [])))
     [800000000, 1500000000]"
proof -
  have "quiet_window first_hits (sample_env [Inr (bucket_740, 800000000)]) (io_init 736)"
    by (rule sample_quiet_window [OF sample_window_hits(1)]) (simp_all add: first_hits_def)
  moreover have "quiet_window second_hits (sample_env [Inr (bucket_740, 1500000000)])
      (next_window first_hits (io_init 736))"
    by (rule sample_quiet_window [OF sample_window_hits(2)])
      (simp_all add: second_hits_def next_window_def)
  ultimately have "quiet_windows sample_windows (io_init 736)"
    by (simp add: sample_windows_def)
  moreover have "window_times sample_windows (io_init 736) = [800000000, 1500000000]"
    by (simp add: sample_windows_def sample_window_hits)
  ultimately show ?thesis
    using windows_conserve_time [of sample_windows "io_init 736" sample_args sample_syms]
    by (simp add: sample_args_def sample_windows_def)
qed

end
