(* ===== verification/Pageio_Bpf.thy ===== *)
theory Pageio_Bpf
  imports Bpf_Platform Inflight
begin

section \<open>tragach-pageio: the BPF programs\<close>

text \<open>
  \<open>crates/tragach-pageio/src/bpf/main.rs\<close>: a probe pair on the page-fetch function and a pair of
  block-layer tracepoints, over two in-flight hash maps and one counter record per processor.
  The kernel's answers come with each hit, as for the other tools. A hit contributes at most one
  measurement; the per-processor counters are the sums and maxima of the measurements taken on
  that processor.
\<close>

subsection \<open>State and programs\<close>

record page_io_counters =
  engine_count :: u64
  engine_total_ns :: u64
  engine_max_ns :: u64
  block_count :: u64
  block_total_bytes :: u64
  block_total_wait_ns :: u64
  block_max_wait_ns :: u64

record fetch_info =
  fi_start_ts :: u64
  fi_page_num :: u64

record block_key =
  blk_dev :: u32
  blk_pad :: u32
  blk_sector :: u64

record pio_state =
  pio_target :: u32
  pio_fetches :: "u32 \<rightharpoonup> fetch_info"
  block_inflight :: "block_key \<rightharpoonup> u64"
  counters :: "nat \<Rightarrow> page_io_counters"

record pio_hit_ctx = probe_hit +
  pio_target_avail :: bool
  counters_avail :: bool
  read_user_u64 :: "u64 \<Rightarrow> i64 + u64"
  field_u32 :: "nat \<Rightarrow> u32 option"
  field_u64 :: "nat \<Rightarrow> u64 option"
  pio_fetch_ops :: "(u32, fetch_info) map_ops"
  block_ops :: "(block_key, u64) map_ops"

definition counters_default :: page_io_counters where
  "counters_default =
     \<lparr>engine_count = 0, engine_total_ns = 0, engine_max_ns = 0, block_count = 0,
      block_total_bytes = 0, block_total_wait_ns = 0, block_max_wait_ns = 0\<rparr>"

definition pio_init :: "u32 \<Rightarrow> pio_state" where
  "pio_init pid =
     \<lparr>pio_target = pid, pio_fetches = Map.empty, block_inflight = Map.empty,
      counters = (\<lambda>_. counters_default)\<rparr>"

definition try_cch_entry :: "pio_hit_ctx \<Rightarrow> pio_state \<Rightarrow> (i64 + unit) \<times> pio_state" where
  "try_cch_entry c s =
     (let tgid = tgid_of c in
      if \<not> pio_target_avail c then (Inl (- 1), s)
      else if pio_target s = 0 \<or> pio_target s \<noteq> tgid then (Inr (), s)
      else
        (case reg_arg c 1 of None \<Rightarrow> (Inl (- 1), s)
         | Some win_ptr \<Rightarrow>
           let page_num = (if win_ptr \<noteq> 0
                           then (case read_user_u64 c win_ptr of Inr v \<Rightarrow> v | Inl _ \<Rightarrow> 0) else 0);
               info = \<lparr>fi_start_ts = ktime c, fi_page_num = page_num\<rparr>;
               (r, m) = map_update (pio_fetch_ops c) (pio_fetches s) (tid_of c) info
           in (r, s\<lparr>pio_fetches := m\<rparr>)))"

definition try_cch_exit :: "pio_hit_ctx \<Rightarrow> pio_state \<Rightarrow> (i64 + unit) \<times> pio_state" where
  "try_cch_exit c s =
     (let tid = tid_of c in
      case pio_fetches s tid of None \<Rightarrow> (Inl (- 1), s)
      | Some info \<Rightarrow>
        let s = s\<lparr>pio_fetches := snd (map_remove (pio_fetch_ops c) (pio_fetches s) tid)\<rparr>;
            now = ktime c;
            duration_ns = saturating_sub now (fi_start_ts info)
        in if \<not> counters_avail c then (Inl (- 1), s)
           else
             let p = counters s (cpu c);
                 p = p\<lparr>engine_count := engine_count p + 1,
                       engine_total_ns := engine_total_ns p + duration_ns\<rparr>;
                 p = (if duration_ns > engine_max_ns p then p\<lparr>engine_max_ns := duration_ns\<rparr> else p)
             in (Inr (), s\<lparr>counters := (counters s)(cpu c := p)\<rparr>))"

definition try_block_issue :: "pio_hit_ctx \<Rightarrow> pio_state \<Rightarrow> (i64 + unit) \<times> pio_state" where
  "try_block_issue c s =
     (let tgid = tgid_of c in
      if \<not> pio_target_avail c then (Inl (- 1), s)
      else if pio_target s = 0 \<or> pio_target s \<noteq> tgid then (Inr (), s)
      else
        (case (field_u32 c 8, field_u64 c 16, field_u32 c 28) of
           (Some dev, Some sector, Some bytes) \<Rightarrow>
             let now = ktime c;
                 key = \<lparr>blk_dev = dev, blk_pad = 0, blk_sector = sector\<rparr>;
                 s = s\<lparr>block_inflight :=
                        snd (map_update (block_ops c) (block_inflight s) key now)\<rparr>
             in if \<not> counters_avail c then (Inl (- 1), s)
                else
                  let p = counters s (cpu c);
                      p = p\<lparr>block_count := block_count p + 1,
                            block_total_bytes := block_total_bytes p + ucast bytes\<rparr>
                  in (Inr (), s\<lparr>counters := (counters s)(cpu c := p)\<rparr>)
         | _ \<Rightarrow> (Inl (- 1), s)))"

definition try_block_complete :: "pio_hit_ctx \<Rightarrow> pio_state \<Rightarrow> (i64 + unit) \<times> pio_state" where
  "try_block_complete c s =
     (case (field_u32 c 8, field_u64 c 16) of
        (Some dev, Some sector) \<Rightarrow>
          let key = \<lparr>blk_dev = dev, blk_pad = 0, blk_sector = sector\<rparr> in
          (case block_inflight s key of None \<Rightarrow> (Inl (- 1), s)
           | Some issue_ts \<Rightarrow>
             let s = s\<lparr>block_inflight := snd (map_remove (block_ops c) (block_inflight s) key)\<rparr>;
                 now = ktime c;
                 wait_ns = saturating_sub now issue_ts
             in if \<not> counters_avail c then (Inl (- 1), s)
                else
                  let p = counters s (cpu c);
                      p = p\<lparr>block_total_wait_ns := block_total_wait_ns p + wait_ns\<rparr>;
                      p = (if wait_ns > block_max_wait_ns p
                           then p\<lparr>block_max_wait_ns := wait_ns\<rparr> else p)
                  in (Inr (), s\<lparr>counters := (counters s)(cpu c := p)\<rparr>))
      | _ \<Rightarrow> (Inl (- 1), s))"

definition cch_fetch_page_entry :: "pio_hit_ctx \<Rightarrow> pio_state \<Rightarrow> u32 \<times> pio_state" where
  "cch_fetch_page_entry c s = ignore_result (try_cch_entry c s)"

definition cch_fetch_page_exit :: "pio_hit_ctx \<Rightarrow> pio_state \<Rightarrow> u32 \<times> pio_state" where
  "cch_fetch_page_exit c s = ignore_result (try_cch_exit c s)"

definition block_rq_issue :: "pio_hit_ctx \<Rightarrow> pio_state \<Rightarrow> u32 \<times> pio_state" where
  "block_rq_issue c s = ignore_result (try_block_issue c s)"

definition block_rq_complete :: "pio_hit_ctx \<Rightarrow> pio_state \<Rightarrow> u32 \<times> pio_state" where
  "block_rq_complete c s = ignore_result (try_block_complete c s)"

datatype pio_probe = CchEntry | CchExit | RqIssue | RqComplete

fun pio_program :: "pio_probe \<Rightarrow> pio_hit_ctx \<Rightarrow> pio_state \<Rightarrow> u32 \<times> pio_state" where
  "pio_program CchEntry = cch_fetch_page_entry"
| "pio_program CchExit = cch_fetch_page_exit"
| "pio_program RqIssue = block_rq_issue"
| "pio_program RqComplete = block_rq_complete"

type_synonym pio_hit = "pio_probe \<times> pio_hit_ctx"

definition pio_step :: "pio_hit \<Rightarrow> pio_state \<Rightarrow> pio_state" where
  "pio_step h s = snd (pio_program (fst h) (snd h) s)"

definition pio_run :: "pio_hit list \<Rightarrow> pio_state \<Rightarrow> pio_state" where
  "pio_run hs s = fold pio_step hs s"

lemma pio_run_simps [simp]:
  "pio_run [] s = s" "pio_run (h # hs) s = pio_run hs (pio_step h s)"
  "pio_run (hs @ hs') s = pio_run hs' (pio_run hs s)"
  by (simp_all add: pio_run_def)

subsection \<open>Measurements\<close>

text \<open>
  What a hit contributes, as a counter record that is zero elsewhere, and how two records are
  put together: counts and totals add up (wrapping), maxima are maximised.
\<close>

datatype measurement = EngineFetch u64 | BlockIssued u32 | BlockDone u64

fun contribution :: "measurement \<Rightarrow> page_io_counters" where
  "contribution (EngineFetch d) =
     counters_default\<lparr>engine_count := 1, engine_total_ns := d, engine_max_ns := d\<rparr>"
| "contribution (BlockIssued b) =
     counters_default\<lparr>block_count := 1, block_total_bytes := ucast b\<rparr>"
| "contribution (BlockDone d) =
     counters_default\<lparr>block_total_wait_ns := d, block_max_wait_ns := d\<rparr>"

definition merge :: "page_io_counters \<Rightarrow> page_io_counters \<Rightarrow> page_io_counters" where
  "merge a b =
     \<lparr>engine_count = engine_count a + engine_count b,
      engine_total_ns = engine_total_ns a + engine_total_ns b,
      engine_max_ns = max (engine_max_ns a) (engine_max_ns b),
      block_count = block_count a + block_count b,
      block_total_bytes = block_total_bytes a + block_total_bytes b,
      block_total_wait_ns = block_total_wait_ns a + block_total_wait_ns b,
      block_max_wait_ns = max (block_max_wait_ns a) (block_max_wait_ns b)\<rparr>"

definition targeted :: "u32 \<Rightarrow> pio_hit_ctx \<Rightarrow> bool" where
  "targeted g c \<longleftrightarrow> pio_target_avail c \<and> g \<noteq> 0 \<and> g = tgid_of c"

definition key_of :: "pio_hit_ctx \<Rightarrow> block_key option" where
  "key_of c =
     (case (field_u32 c 8, field_u64 c 16) of
        (Some d, Some s) \<Rightarrow> Some \<lparr>blk_dev = d, blk_pad = 0, blk_sector = s\<rparr> | _ \<Rightarrow> None)"

text \<open>The issue a hit records: the request's key and size.\<close>

definition issue_of :: "u32 \<Rightarrow> pio_hit_ctx \<Rightarrow> (block_key \<times> u32) option" where
  "issue_of g c =
     (if targeted g c
      then (case (key_of c, field_u32 c 28) of (Some k, Some b) \<Rightarrow> Some (k, b) | _ \<Rightarrow> None)
      else None)"

fun measured :: "pio_hit \<Rightarrow> pio_state \<Rightarrow> measurement option" where
  "measured (CchEntry, c) s = None"
| "measured (CchExit, c) s =
     map_option (\<lambda>fi. EngineFetch (saturating_sub (ktime c) (fi_start_ts fi))) (pio_fetches s (tid_of c))"
| "measured (RqIssue, c) s = map_option (\<lambda>x. BlockIssued (snd x)) (issue_of (pio_target s) c)"
| "measured (RqComplete, c) s =
     (case key_of c of None \<Rightarrow> None
      | Some k \<Rightarrow> map_option (\<lambda>ts. BlockDone (saturating_sub (ktime c) ts)) (block_inflight s k))"

lemmas pio_bodies = pio_step_def cch_fetch_page_entry_def cch_fetch_page_exit_def
  block_rq_issue_def block_rq_complete_def try_cch_entry_def try_cch_exit_def
  try_block_issue_def try_block_complete_def

lemma merge_zero [simp]: "merge counters_default c = c" "merge c counters_default = c"
  by (cases c; simp add: merge_def counters_default_def)+

lemma merge_comm: "merge a b = merge b a"
  by (simp add: merge_def add.commute max.commute)

lemma merge_assoc: "merge (merge a b) c = merge a (merge b c)"
  by (simp add: merge_def add.assoc max.assoc)

lemma merge_right_comm: "merge (merge a b) c = merge (merge a c) b"
  by (simp add: merge_assoc merge_comm [of b])

lemma pio_target_step [simp]: "pio_target (pio_step h s) = pio_target s"
  by (cases h; cases "fst h")
    (auto simp: pio_bodies Let_def case_prod_beta split: option.splits)

lemma pio_target_run [simp]: "pio_target (pio_run hs s) = pio_target s"
  by (induction hs arbitrary: s) simp_all

lemma merge_contribution:
  "merge p (contribution (EngineFetch d)) =
     p\<lparr>engine_count := engine_count p + 1, engine_total_ns := engine_total_ns p + d,
       engine_max_ns := max (engine_max_ns p) d\<rparr>"
  "merge p (contribution (BlockIssued b)) =
     p\<lparr>block_count := block_count p + 1, block_total_bytes := block_total_bytes p + ucast b\<rparr>"
  "merge p (contribution (BlockDone d)) =
     p\<lparr>block_total_wait_ns := block_total_wait_ns p + d,
       block_max_wait_ns := max (block_max_wait_ns p) d\<rparr>"
  by (cases p; simp add: merge_def counters_default_def)+

lemma counters_step [state_simps]:
  "counters (pio_step h s) =
     (case measured h s of None \<Rightarrow> counters s
      | Some x \<Rightarrow>
        if counters_avail (snd h)
        then (counters s)(cpu (snd h) := merge (counters s (cpu (snd h))) (contribution x))
        else counters s)"
proof -
  obtain q c where h: "h = (q, c)" by fastforce
  show ?thesis
    unfolding h
    by (cases q)
      (auto simp: pio_bodies targeted_def key_of_def issue_of_def merge_contribution Let_def
        case_prod_beta max_def not_less simp del: contribution.simps split: option.splits)
qed

lemma pio_fetches_step [state_simps]:
  "pio_fetches (pio_step (q, c) s) =
     (case q of
        CchEntry \<Rightarrow>
          (case reg_arg c 1 of None \<Rightarrow> pio_fetches s
           | Some w \<Rightarrow> if targeted (pio_target s) c
               then snd (map_update (pio_fetch_ops c) (pio_fetches s) (tid_of c)
                      \<lparr>fi_start_ts = ktime c,
                       fi_page_num = (if w \<noteq> 0
                         then (case read_user_u64 c w of Inr v \<Rightarrow> v | Inl _ \<Rightarrow> 0) else 0)\<rparr>)
               else pio_fetches s)
      | CchExit \<Rightarrow> if pio_fetches s (tid_of c) = None then pio_fetches s
                   else snd (map_remove (pio_fetch_ops c) (pio_fetches s) (tid_of c))
      | _ \<Rightarrow> pio_fetches s)"
  by (cases q) (auto simp: pio_bodies targeted_def Let_def case_prod_beta split: option.splits)

lemma block_inflight_step [state_simps]:
  "block_inflight (pio_step (q, c) s) =
     (case q of
        RqIssue \<Rightarrow>
          (case issue_of (pio_target s) c of None \<Rightarrow> block_inflight s
           | Some (k, b) \<Rightarrow> snd (map_update (block_ops c) (block_inflight s) k (ktime c)))
      | RqComplete \<Rightarrow>
          (case key_of c of None \<Rightarrow> block_inflight s
           | Some k \<Rightarrow> if block_inflight s k = None then block_inflight s
                       else snd (map_remove (block_ops c) (block_inflight s) k))
      | _ \<Rightarrow> block_inflight s)"
  by (cases q)
    (auto simp: pio_bodies targeted_def key_of_def issue_of_def Let_def case_prod_beta
      split: option.splits)

end
