(* ===== verification/Pageio_User.thy ===== *)
theory Pageio_User
  imports Pageio_Bpf Rust_F64
begin

section \<open>tragach-pageio: snapshots and reports\<close>

text \<open>
  \<open>snapshot_counters\<close>, \<open>delta_counters\<close>, the formatting functions, the two writers and the main
  loop's state of \<open>crates/tragach-pageio/src/main.rs\<close>. Reading the per-processor values may
  fail (\<open>None\<close>); the time stamps, the window as \<open>humantime\<close> prints it and the outcome of the
  write come with each tick.
\<close>

subsection \<open>Snapshots\<close>

definition add_cpu :: "page_io_counters \<Rightarrow> page_io_counters \<Rightarrow> page_io_counters" where
  "add_cpu c out =
     (let out = out\<lparr>engine_count := engine_count out + engine_count c,
                    engine_total_ns := engine_total_ns out + engine_total_ns c\<rparr>;
          out = (if engine_max_ns c > engine_max_ns out
                 then out\<lparr>engine_max_ns := engine_max_ns c\<rparr> else out);
          out = out\<lparr>block_count := block_count out + block_count c,
                    block_total_bytes := block_total_bytes out + block_total_bytes c,
                    block_total_wait_ns := block_total_wait_ns out + block_total_wait_ns c\<rparr>
      in if block_max_wait_ns c > block_max_wait_ns out
         then out\<lparr>block_max_wait_ns := block_max_wait_ns c\<rparr> else out)"

definition snapshot_counters :: "page_io_counters list option \<Rightarrow> unit + page_io_counters" where
  "snapshot_counters per_cpu =
     (case per_cpu of None \<Rightarrow> Inl () | Some cs \<Rightarrow> Inr (fold add_cpu cs counters_default))"

definition delta_counters :: "page_io_counters \<Rightarrow> page_io_counters \<Rightarrow> page_io_counters" where
  "delta_counters prev now =
     \<lparr>engine_count = engine_count now - engine_count prev,
      engine_total_ns = engine_total_ns now - engine_total_ns prev,
      engine_max_ns = engine_max_ns now,
      block_count = block_count now - block_count prev,
      block_total_bytes = block_total_bytes now - block_total_bytes prev,
      block_total_wait_ns = block_total_wait_ns now - block_total_wait_ns prev,
      block_max_wait_ns = block_max_wait_ns now\<rparr>"

subsection \<open>Reports\<close>

definition fmt_dur_ns :: "u64 \<Rightarrow> string" where
  "fmt_dur_ns ns =
     (if ns \<ge> 1000000000 then fixed 2 (f64_div (f64_of_nat (unat ns)) (f64_of_nat 1000000000)) @ ''s''
      else if ns \<ge> 1000000 then fixed 2 (f64_div (f64_of_nat (unat ns)) (f64_of_nat 1000000)) @ ''ms''
      else if ns \<ge> 1000 then decimal (unat (ns div 1000)) @ ''us''
      else decimal (unat ns) @ ''ns'')"

definition fmt_bytes :: "u64 \<Rightarrow> string" where
  "fmt_bytes b =
     (if b \<ge> 2 ^ 30 then fixed 2 (f64_div (f64_of_nat (unat b)) (f64_of_nat (2 ^ 30))) @ '' GB''
      else if b \<ge> 2 ^ 20 then fixed 2 (f64_div (f64_of_nat (unat b)) (f64_of_nat (2 ^ 20))) @ '' MB''
      else if b \<ge> 2 ^ 10 then fixed 2 (f64_div (f64_of_nat (unat b)) (f64_of_nat (2 ^ 10))) @ '' kB''
      else decimal (unat b) @ '' B'')"

record engine_stats =
  es_count :: u64
  es_total_ns :: u64
  es_avg_ns :: u64
  es_max_ns :: u64

record block_stats =
  bs_count :: u64
  bs_total_bytes :: u64
  bs_total_wait_ns :: u64
  bs_avg_wait_ns :: u64
  bs_max_wait_ns :: u64

record pio_json_window =
  pj_ts :: string
  pj_window_ms :: u64
  pj_pid :: u32
  pj_engine :: engine_stats
  pj_block :: block_stats

definition pio_write_json :: "string \<Rightarrow> page_io_counters \<Rightarrow> u64 \<Rightarrow> u32 \<Rightarrow> pio_json_window" where
  "pio_write_json ts c window_ms pid =
     (let engine_avg = (if engine_count c > 0 then engine_total_ns c div engine_count c else 0);
          block_avg = (if block_count c > 0 then block_total_wait_ns c div block_count c else 0)
      in \<lparr>pj_ts = ts, pj_window_ms = window_ms, pj_pid = pid,
          pj_engine = \<lparr>es_count = engine_count c, es_total_ns = engine_total_ns c,
            es_avg_ns = engine_avg, es_max_ns = engine_max_ns c\<rparr>,
          pj_block = \<lparr>bs_count = block_count c, bs_total_bytes = block_total_bytes c,
            bs_total_wait_ns = block_total_wait_ns c, bs_avg_wait_ns = block_avg,
            bs_max_wait_ns = block_max_wait_ns c\<rparr>\<rparr>)"

definition pio_write_human ::
  "string \<Rightarrow> string \<Rightarrow> page_io_counters \<Rightarrow> u32 \<Rightarrow> string list" where
  "pio_write_human window_text hms c pid =
     [''=== tragach-pageio  '' @ window_text @ '' window  pid='' @ decimal (unat pid) @ '' ===''] @
     (if engine_count c = 0 \<and> block_count c = 0
      then [''  (no page-I/O activity in this window)  ['' @ hms @ '']'', '''']
      else
        let engine_avg = (if engine_count c > 0 then engine_total_ns c div engine_count c else 0);
            block_avg = (if block_count c > 0
                         then block_total_wait_ns c div max (block_count c) 1 else 0)
        in [''Engine page reads (cache misses):'',
            ''  count               : '' @ decimal (unat (engine_count c)),
            ''  total wait          : '' @ fmt_dur_ns (engine_total_ns c),
            ''  avg / max per call  : '' @ fmt_dur_ns engine_avg @ '' / '' @ fmt_dur_ns (engine_max_ns c),
            ''Block-device I/O (filtered to Firebird tgid):'',
            ''  requests            : '' @ decimal (unat (block_count c)),
            ''  total bytes         : '' @ fmt_bytes (block_total_bytes c),
            ''  total wait          : '' @ fmt_dur_ns (block_total_wait_ns c),
            ''  avg / max per req   : '' @ fmt_dur_ns block_avg @ '' / '' @
              fmt_dur_ns (block_max_wait_ns c)] @
           (if engine_total_ns c > 0
            then [''Ratio block/engine    : '' @
                    fixed 2 (f64_div (f64_of_nat (unat (block_total_wait_ns c)))
                      (f64_of_nat (unat (engine_total_ns c)))) @
                    ''  (1.0 = engine wait dominated by disk; <1.0 = cache/coord overhead)'']
            else []) @
           [''''])"

subsection \<open>The main loop\<close>

datatype pio_output = PioJson pio_json_window | PioLines "string list"

record pio_args =
  pa_pid :: u32
  pa_interval_ns :: nat
  pa_json :: bool

record pio_tick =
  pt_per_cpu :: "page_io_counters list option"
  pt_ts :: string
  pt_hms :: string
  pt_window_text :: string
  pt_writes :: bool

datatype pio_turn = PioCtrlC | PioTick pio_tick

record pio_loop =
  prev_snapshot :: page_io_counters
  pio_out :: "pio_output list"

definition pio_loop_init :: pio_loop where
  "pio_loop_init = \<lparr>prev_snapshot = counters_default, pio_out = []\<rparr>"

definition pio_report :: "pio_args \<Rightarrow> pio_tick \<Rightarrow> page_io_counters \<Rightarrow> pio_output" where
  "pio_report a t delta =
     (let window_ms = of_nat (pa_interval_ns a div 1000000)
      in if pa_json a then PioJson (pio_write_json (pt_ts t) delta window_ms (pa_pid a))
         else PioLines (pio_write_human (pt_window_text t) (pt_hms t) delta (pa_pid a)))"

fun pio_main_loop :: "pio_args \<Rightarrow> pio_turn list \<Rightarrow> pio_loop \<Rightarrow> (unit + unit) option \<times> pio_loop" where
  "pio_main_loop a [] s = (None, s)"
| "pio_main_loop a (PioCtrlC # ts) s = (Some (Inr ()), s)"
| "pio_main_loop a (PioTick t # ts) s =
     (case snapshot_counters (pt_per_cpu t) of Inl e \<Rightarrow> (Some (Inl e), s)
      | Inr snapshot \<Rightarrow>
        let delta = delta_counters (prev_snapshot s) snapshot;
            s = s\<lparr>prev_snapshot := snapshot\<rparr>
        in if pt_writes t
           then pio_main_loop a ts (s\<lparr>pio_out := pio_out s @ [pio_report a t delta]\<rparr>)
           else (Some (Inl ()), s))"

end
