(* ===== verification/Main_Loops.thy ===== *)
theory Main_Loops
  imports Slowquery_User Attach_User Iowait_Loop Pageio_User
begin

section \<open>The four main loops: when they end\<close>

text \<open>
  Each tool runs until Ctrl-C or its first failure. Shown for all four loops: which turns end them,
  that a Ctrl-C is always answered, and that what was read and printed before it is kept.
\<close>

lemma event_loop_append:
  "event_loop item (ws @ ws') s =
     (case event_loop item ws s of (None, t) \<Rightarrow> event_loop item ws' t | r \<Rightarrow> r)"
proof (induction ws arbitrary: s)
  case (Cons w ws)
  then show ?case
    by (cases w) (auto split: prod.splits sum.splits)
qed simp

lemma io_main_loop_append:
  "io_main_loop ks a (ts @ ts') s out =
     (case io_main_loop ks a ts s out of (None, t, o') \<Rightarrow> io_main_loop ks a ts' t o' | r \<Rightarrow> r)"
proof (induction ts arbitrary: s out)
  case (Cons w ts)
  then show ?case
    by (cases w) (auto simp: Let_def split: prod.splits sum.splits)
qed simp

lemma pio_main_loop_append:
  "pio_main_loop a (ts @ ts') s =
     (case pio_main_loop a ts s of (None, t) \<Rightarrow> pio_main_loop a ts' t | r \<Rightarrow> r)"
proof (induction ts arbitrary: s)
  case (Cons w ts)
  then show ?case
    by (cases w) (auto simp: Let_def split: prod.splits sum.splits)
qed simp

text \<open>A Ctrl-C always ends a tool: whatever happened before, each of the four loops returns by the
  turn of the Ctrl-C, with success and with exactly the state and output the turns before it
  left, unless one of those turns had already ended the loop with an error (then that error
  stands); turns after it are never looked at.\<close>

lemma ctrl_c_ends_each_loop:
  "sq_event_loop sqa (ws @ CtrlC # ws') sqs =
      (case sq_event_loop sqa ws sqs of (None, t) \<Rightarrow> (Some (Inr ()), t) | r \<Rightarrow> r) \<and>
   at_event_loop ata (ws @ CtrlC # ws') ats =
      (case at_event_loop ata ws ats of (None, t) \<Rightarrow> (Some (Inr ()), t) | r \<Rightarrow> r) \<and>
   io_main_loop ks ioa (its @ IoCtrlC # its') ios out =
      (case io_main_loop ks ioa its ios out of (None, t) \<Rightarrow> (Some (Inr ()), t) | r \<Rightarrow> r) \<and>
   pio_main_loop pia (pts @ PioCtrlC # pts') pis =
      (case pio_main_loop pia pts pis of (None, t) \<Rightarrow> (Some (Inr ()), t) | r \<Rightarrow> r)"
  by (simp add: sq_event_loop_def at_event_loop_def event_loop_append io_main_loop_append
      pio_main_loop_append split: option.split prod.split)

subsection \<open>What keeps a loop running\<close>

text \<open>A turn of \<open>select!\<close> that does not end an event loop.\<close>

fun keeps_running :: "(u8 list \<Rightarrow> unit + 'ev) \<Rightarrow> ('ev \<Rightarrow> bool) \<Rightarrow> wakeup \<Rightarrow> bool" where
  "keeps_running decode accepts CtrlC = False"
| "keeps_running decode accepts ReadyFailed = False"
| "keeps_running decode accepts (Readable its) =
     (\<forall>it \<in> set its. it_writes it \<or>
        (case decode (it_bytes it) of Inl _ \<Rightarrow> True | Inr ev \<Rightarrow> \<not> accepts ev))"

context event_tool begin

lemma item_ends_iff:
  "fst (item it s) = Inr () \<longleftrightarrow>
     it_writes it \<or> (case decode (it_bytes it) of Inl _ \<Rightarrow> True | Inr ev \<Rightarrow> \<not> accepts ev)"
proof (cases "decode (it_bytes it)")
  case (Inl u)
  then show ?thesis using short_record [of it s] by simp
next
  case (Inr ev)
  then show ?thesis
    using filtered [OF Inr, of s] printed_ok [OF Inr, of s] write_failed [OF Inr, of s]
    by (cases "accepts ev"; cases "it_writes it") simp_all
qed

lemma drain_runs_iff:
  "fst (drain_ring item its s) = Inr () \<longleftrightarrow> keeps_running decode accepts (Readable its)"
proof (induction its arbitrary: s)
  case (Cons it its)
  obtain r t where "item it s = (r, t)" by fastforce
  then show ?case
    using Cons [of t] item_ends_iff [of it s] by (cases r) auto
qed simp

lemma loop_runs_iff:
  "fst (event_loop item ws s) = None \<longleftrightarrow> (\<forall>w \<in> set ws. keeps_running decode accepts w)"
proof (induction ws arbitrary: s)
  case (Cons w ws)
  show ?case
  proof (cases w)
    case (Readable its)
    obtain r t where "drain_ring item its s = (r, t)" by fastforce
    then show ?thesis
      using Readable Cons [of t] drain_runs_iff [of its s] by (cases r) auto
  qed simp_all
qed simp

end

lemma pio_runs_iff:
  "fst (pio_main_loop a ts s) = None \<longleftrightarrow>
     (\<forall>t \<in> set ts. \<exists>k. t = PioTick k \<and> pt_per_cpu k \<noteq> None \<and> pt_writes k)"
proof (induction ts arbitrary: s)
  case (Cons t ts)
  then show ?case
    by (cases t) (auto simp: snapshot_counters_def Let_def split: option.split)
qed simp

lemma flush_fails_iff:
  "(\<exists>e m. flush_window env ks a m0 = (Inl e, m)) \<longleftrightarrow> (\<exists>e. Inl e \<in> set (fe_iter env)) \<or> \<not> fe_writes env"
proof -
  have snap: "(\<exists>e. snapshot_of es = Inl e) \<longleftrightarrow> (\<exists>e. Inl e \<in> set es)" for es
  proof (induction es)
    case (Cons x es)
    then show ?case by (cases x) (auto split: sum.split)
  qed simp
  show ?thesis
    using snap [of "fe_iter env"]
    by (cases "snapshot_of (fe_iter env)") (auto simp: flush_window_def Let_def)
qed

lemma io_runs_iff:
  "fst (io_main_loop ks a ts s out) = None \<longleftrightarrow>
     (\<forall>t \<in> set ts. \<exists>hs env. t = IoTick hs env \<and> (\<forall>e. Inl e \<notin> set (fe_iter env)) \<and> fe_writes env)"
proof (induction ts arbitrary: s out)
  case (Cons t ts)
  show ?case
  proof (cases t)
    case (IoTick hs env)
    obtain r m where flush: "flush_window env ks a (buckets (io_run hs s)) = (r, m)" by fastforce
    show ?thesis
      using IoTick flush Cons flush_fails_iff [of env ks a "buckets (io_run hs s)"]
      by (cases r) (auto simp: Let_def)
  qed simp
qed simp

text \<open>C16: nothing but a Ctrl-C or a failure ends a tool: a loop is still running after some turns
  exactly when none of them was a Ctrl-C or a failed wait, and, for the two event tracers, every
  write succeeded that was attempted, which is for the records that decode and pass the filter;
  for the two window tools, every read of the maps and every write of a report succeeded. Short
  records, filtered records and empty wake-ups never end a loop.\<close>

theorem loops_run_until_stopped:
  "(fst (sq_event_loop sqa ws sqs) = None \<longleftrightarrow>
      (\<forall>w \<in> set ws. keeps_running decode_slow_query_event (sq_accepts sqa) w)) \<and>
   (fst (at_event_loop ata ws ats) = None \<longleftrightarrow>
      (\<forall>w \<in> set ws. keeps_running decode_attach_event (at_accepts ata) w)) \<and>
   (fst (io_main_loop ks ioa its ios out) = None \<longleftrightarrow>
      (\<forall>t \<in> set its. \<exists>hs env. t = IoTick hs env \<and> (\<forall>e. Inl e \<notin> set (fe_iter env)) \<and>
        fe_writes env)) \<and>
   (fst (pio_main_loop pia pts pis) = None \<longleftrightarrow>
      (\<forall>t \<in> set pts. \<exists>k. t = PioTick k \<and> pt_per_cpu k \<noteq> None \<and> pt_writes k))"
  by (simp only: sq_event_loop_def at_event_loop_def sq_tool.loop_runs_iff at_tool.loop_runs_iff
      io_runs_iff pio_runs_iff simp_thms)

theorem loops_run_until_stopped_witness:
  "fst (sq_event_loop \<lparr>arg_threshold = Some 500, arg_json = True\<rparr>
     [Readable [(sample_item 0xa0 100)\<lparr>it_writes := False\<rparr>], Readable []] sq_loop_init) = None"
proof -
  have "\<forall>w \<in> set [Readable [(sample_item 0xa0 100)\<lparr>it_writes := False\<rparr>], Readable []].
      keeps_running decode_slow_query_event (sq_accepts \<lparr>arg_threshold = Some 500, arg_json = True\<rparr>) w"
    using sample_item_decodes [of "0xa0" 100]
    by (simp add: sq_accepts_def threshold_ns_def sample_event_def)
  then show ?thesis
    using loops_run_until_stopped by blast
qed

end
