(* ===== verification/Iowait_Race.thy ===== *)
theory Iowait_Race
  imports Iowait_Window
begin

section \<open>tragach-iowait: wake-ups and flushes, map operation by map operation\<close>

text \<open>
  The other theories run a probe program as one step. Here \<open>try_sched_wakeup\<close> is split between its
  lookup in the bucket map and its insert, and \<open>flush_window\<close> into the single listings and
  removals of its two passes, and the steps of processors and of the flush interleave in any
  order, as a step relation. Shown: the two halves of a wake-up are the whole program; as long as
  a flush never holds a bucket that a wake-up is just updating, all time that was recorded is
  either reported, once, or still in its bucket; and a flush that falls between the halves
  reports the bucket twice.
\<close>

subsection \<open>The two halves of a wake-up\<close>

record pending_write =
  pw_key :: bucket_key
  pw_delta :: u64
  pw_total :: u64

definition wakeup_reads :: "io_hit_ctx \<Rightarrow> io_state \<Rightarrow> (pending_write \<times> io_state) option" where
  "wakeup_reads c s =
     (case read_i32 c 24 of None \<Rightarrow> None
      | Some key \<Rightarrow>
     (case start s key of None \<Rightarrow> None
      | Some info \<Rightarrow>
        let s = s\<lparr>start := snd (map_remove (start_ops c) (start s) key)\<rparr>;
            now = ktime c;
            delta = saturating_sub now (si_ts_ns info);
            bkey = \<lparr>bk_pid = key, bk_stack_id = si_stack_id info\<rparr>;
            new_total = (case buckets s bkey of Some existing \<Rightarrow> existing + delta | None \<Rightarrow> delta)
        in Some (\<lparr>pw_key = bkey, pw_delta = delta, pw_total = new_total\<rparr>, s)))"

definition wakeup_writes :: "io_hit_ctx \<Rightarrow> pending_write \<Rightarrow> io_state \<Rightarrow> io_state" where
  "wakeup_writes c w s =
     s\<lparr>buckets := snd (map_update (bucket_ops c) (buckets s) (pw_key w) (pw_total w))\<rparr>"

lemma wakeup_halves:
  "io_step (SchedWakeup, c) s =
     (case wakeup_reads c s of None \<Rightarrow> s | Some (w, s') \<Rightarrow> wakeup_writes c w s')"
  by (auto simp: io_bodies wakeup_reads_def wakeup_writes_def Let_def case_prod_beta
      split: option.splits)

lemma wakeup_reads_buckets:
  "wakeup_reads c s = Some (w, s') \<Longrightarrow>
     buckets s' = buckets s \<and>
     pw_total w = (case buckets s (pw_key w) of Some v \<Rightarrow> v | None \<Rightarrow> 0) + pw_delta w"
  by (auto simp: wakeup_reads_def Let_def split: option.splits)

subsection \<open>The steps\<close>

text \<open>
  \<open>pend n\<close> is the wake-up that processor \<open>n\<close> is in the middle of; \<open>snapshot\<close> and \<open>to_remove\<close> are
  what the flush has listed and what it still has to remove. The two lists \<open>recorded\<close> and
  \<open>reported\<close> are not in the code: the samples whose wake-up is over, and the entries of all
  flushes.
\<close>

record race =
  kern :: io_state
  pend :: "nat \<rightharpoonup> io_hit_ctx \<times> pending_write"
  snapshot :: "(bucket_key \<times> u64) list"
  to_remove :: "bucket_key list"
  recorded :: "(bucket_key \<times> u64) list"
  reported :: "(bucket_key \<times> u64) list"

datatype race_act =
    Switches io_hit_ctx | Reads nat io_hit_ctx | Writes nat | Lists bucket_key | Drains | Removes

inductive race_step :: "race \<Rightarrow> race_act \<Rightarrow> race \<Rightarrow> bool" where
  switches: "race_step r (Switches c) (r\<lparr>kern := io_step (SchedSwitch, c) (kern r)\<rparr>)"
| reads: "pend r n = None \<Longrightarrow> wakeup_reads c (kern r) = Some (w, s) \<Longrightarrow>
    race_step r (Reads n c) (r\<lparr>kern := s, pend := (pend r)(n \<mapsto> (c, w))\<rparr>)"
| writes: "pend r n = Some (c, w) \<Longrightarrow>
    race_step r (Writes n) (r\<lparr>kern := wakeup_writes c w (kern r), pend := (pend r)(n := None),
      recorded := recorded r @ [(pw_key w, pw_delta w)]\<rparr>)"
| lists: "to_remove r = [] \<Longrightarrow> buckets (kern r) k = Some v \<Longrightarrow> k \<notin> fst ` set (snapshot r) \<Longrightarrow>
    race_step r (Lists k) (r\<lparr>snapshot := snapshot r @ [(k, v)]\<rparr>)"
| drains: "to_remove r = [] \<Longrightarrow>
    race_step r Drains (r\<lparr>snapshot := [], to_remove := map fst (snapshot r),
      reported := reported r @ snapshot r\<rparr>)"
| removes: "to_remove r = k # ks \<Longrightarrow>
    race_step r Removes (r\<lparr>kern := (kern r)\<lparr>buckets := (buckets (kern r))(k := None)\<rparr>,
      to_remove := ks\<rparr>)"

inductive_simps race_step_simps:
  "race_step r (Switches c) r'" "race_step r (Reads n c) r'" "race_step r (Writes n) r'"
  "race_step r (Lists k) r'" "race_step r Drains r'" "race_step r Removes r'"

definition race_init :: "u32 \<Rightarrow> race" where
  "race_init g = \<lparr>kern = io_init g, pend = Map.empty, snapshot = [], to_remove = [],
     recorded = [], reported = []\<rparr>"

subsection \<open>Runs without a race\<close>

text \<open>The keys the flush holds, and the states in which no wake-up updates one of them.\<close>

definition held :: "race \<Rightarrow> bucket_key set" where
  "held r = fst ` set (snapshot r) \<union> set (to_remove r)"

definition exclusive :: "race \<Rightarrow> bool" where
  "exclusive r \<longleftrightarrow>
     (\<forall>n c w. pend r n = Some (c, w) \<longrightarrow> pw_key w \<notin> held r) \<and>
     (\<forall>n c w m d v. pend r n = Some (c, w) \<longrightarrow> pend r m = Some (d, v) \<longrightarrow> n \<noteq> m \<longrightarrow>
        pw_key w \<noteq> pw_key v)"

fun admitted :: "race_act \<Rightarrow> bool" where
  "admitted (Reads n c) \<longleftrightarrow> hash_ops_ok (bucket_ops c) \<and> update_admits (bucket_ops c)"
| "admitted _ \<longleftrightarrow> True"

inductive calm :: "race \<Rightarrow> bool" where
  start: "calm (race_init g)"
| step: "calm r \<Longrightarrow> exclusive r \<Longrightarrow> admitted a \<Longrightarrow> race_step r a r' \<Longrightarrow> calm r'"

text \<open>The unreported content of a bucket: a bucket about to be removed is reported already.\<close>

definition unreported :: "race \<Rightarrow> bucket_key \<Rightarrow> u64" where
  "unreported r k =
     (if k \<in> set (to_remove r) then 0 else case buckets (kern r) k of Some v \<Rightarrow> v | None \<Rightarrow> 0)"

definition race_inv :: "race \<Rightarrow> bool" where
  "race_inv r \<longleftrightarrow>
     (\<forall>k. bucket_sum k (recorded r) = bucket_sum k (reported r) + unreported r k) \<and>
     (\<forall>k v. (k, v) \<in> set (snapshot r) \<longrightarrow> buckets (kern r) k = Some v) \<and>
     (\<forall>n c w. pend r n = Some (c, w) \<longrightarrow>
        hash_ops_ok (bucket_ops c) \<and> update_admits (bucket_ops c) \<and>
        pw_total w = (case buckets (kern r) (pw_key w) of Some v \<Rightarrow> v | None \<Rightarrow> 0) + pw_delta w) \<and>
     distinct (map fst (snapshot r)) \<and> distinct (to_remove r) \<and>
     (to_remove r \<noteq> [] \<longrightarrow> snapshot r = [])"

lemma bucket_sum_Cons: "bucket_sum k ((j, v) # xs) = (if j = k then v else 0) + bucket_sum k xs"
  by (simp add: bucket_sum_def)

lemma bucket_sum_Nil [simp]: "bucket_sum k [] = 0"
  by (simp add: bucket_sum_def)

lemma bucket_sum_listed:
  "distinct (map fst xs) \<Longrightarrow> (k, v) \<in> set xs \<Longrightarrow> bucket_sum k xs = v"
proof (induction xs)
  case (Cons x xs)
  then show ?case
    by (cases x) (force simp: bucket_sum_Cons bucket_sum_none)
qed simp

lemma switch_buckets [simp]: "buckets (io_step (SchedSwitch, c) s) = buckets s"
  by (simp add: buckets_step sample_of_def)

lemma race_inv_writes:
  assumes "race_inv r" "exclusive r" "pend r n = Some (c, w)"
  shows "race_inv (r\<lparr>kern := wakeup_writes c w (kern r), pend := (pend r)(n := None),
    recorded := recorded r @ [(pw_key w, pw_delta w)]\<rparr>)"
proof -
  have ops: "hash_ops_ok (bucket_ops c)" "update_admits (bucket_ops c)"
    and total: "pw_total w = (case buckets (kern r) (pw_key w) of Some v \<Rightarrow> v | None \<Rightarrow> 0) + pw_delta w"
    using assms(1,3) unfolding race_inv_def by blast+
  have written: "buckets (wakeup_writes c w (kern r)) = (buckets (kern r))(pw_key w \<mapsto> pw_total w)"
    by (simp add: wakeup_writes_def hash_update_admitted [OF ops])
  have free: "pw_key w \<notin> fst ` set (snapshot r)" "pw_key w \<notin> set (to_remove r)"
    using assms(2,3) unfolding exclusive_def held_def by blast+
  have others: "pw_key v \<noteq> pw_key w" if "pend r m = Some (d, v)" "m \<noteq> n" for m d v
    using assms(2,3) that unfolding exclusive_def by metis
  show ?thesis
    using assms(1) free others
    by (auto simp: race_inv_def unreported_def written total bucket_sum_append bucket_sum_Cons
        image_iff split: if_splits)
qed

lemma race_inv_drains:
  assumes "race_inv r" "to_remove r = []"
  shows "race_inv (r\<lparr>snapshot := [], to_remove := map fst (snapshot r),
    reported := reported r @ snapshot r\<rparr>)"
proof -
  let ?after = "r\<lparr>snapshot := [], to_remove := map fst (snapshot r),
    reported := reported r @ snapshot r\<rparr>"
  have "bucket_sum k (snapshot r) + (if k \<in> fst ` set (snapshot r) then 0 else unreported r k) =
      unreported r k" for k
  proof (cases "k \<in> fst ` set (snapshot r)")
    case True
    then obtain v where v: "(k, v) \<in> set (snapshot r)" by auto
    then have "bucket_sum k (snapshot r) = v" "buckets (kern r) k = Some v"
      using assms(1) bucket_sum_listed unfolding race_inv_def by blast+
    then show ?thesis
      using True assms(2) by (simp add: unreported_def)
  qed (simp add: bucket_sum_none)
  moreover have "bucket_sum k (recorded r) = bucket_sum k (reported r) + unreported r k" for k
    using assms(1) unfolding race_inv_def by blast
  moreover have "unreported ?after k =
      (if k \<in> fst ` set (snapshot r) then 0 else unreported r k)" for k
    using assms(2) by (simp add: unreported_def)
  ultimately have "bucket_sum k (recorded r) =
      bucket_sum k (reported r @ snapshot r) + unreported ?after k" for k
    by (simp only: bucket_sum_append add.assoc)
  then have "\<forall>k. bucket_sum k (recorded ?after) =
      bucket_sum k (reported ?after) + unreported ?after k"
    by simp
  then show ?thesis
    unfolding race_inv_def by (rule conjI) (use assms in \<open>simp add: race_inv_def\<close>)
qed

lemma race_inv_removes:
  assumes "race_inv r" "exclusive r" "to_remove r = k # ks"
  shows "race_inv (r\<lparr>kern := (kern r)\<lparr>buckets := (buckets (kern r))(k := None)\<rparr>, to_remove := ks\<rparr>)"
proof -
  have "pw_key w \<noteq> k" if "pend r n = Some (c, w)" for n c w
    using assms(2,3) that unfolding exclusive_def held_def by (metis UnI2 list.set_intros(1))
  then show ?thesis
    using assms(1,3) by (auto simp: race_inv_def unreported_def)
qed

lemma race_inv_step:
  assumes "race_step r a r'" "race_inv r" "exclusive r" "admitted a"
  shows "race_inv r'"
  using assms(1)
proof (cases rule: race_step.cases)
  case (switches c)
  show ?thesis
    unfolding switches(2) using assms(2) by (simp add: race_inv_def unreported_def)
next
  case (reads n c w s)
  have "admitted (Reads n c)"
    using assms(4) by (simp only: reads(1))
  then show ?thesis
    unfolding reads(2) using assms(2) wakeup_reads_buckets [OF reads(4)]
    by (simp add: race_inv_def unreported_def)
next
  case (writes n c w)
  show ?thesis
    unfolding writes(2) by (rule race_inv_writes [OF assms(2,3) writes(3)])
next
  case (lists k v)
  show ?thesis
    unfolding lists(2) using assms(2) lists(3-5) by (auto simp: race_inv_def unreported_def)
next
  case drains
  show ?thesis
    unfolding drains(2) by (rule race_inv_drains [OF assms(2) drains(3)])
next
  case (removes k ks)
  show ?thesis
    unfolding removes(2) by (rule race_inv_removes [OF assms(2,3) removes(3)])
qed

lemma calm_inv: "calm r \<Longrightarrow> race_inv r"
proof (induction rule: calm.induct)
  case (start g)
  show ?case
    by (simp add: race_inv_def race_init_def unreported_def)
next
  case (step r a r')
  show ?case by (rule race_inv_step [OF step(4,5,2,3)])
qed

text \<open>C17: processors and the flush may interleave their map operations in any way: as long as no
  wake-up is between its lookup and its insert for a bucket that the flush is holding or another
  processor is updating, every nanosecond recorded for a bucket has been reported exactly once
  or is still in the bucket waiting to be reported (modulo \<open>2 ^ 64\<close>).\<close>

theorem calm_runs_conserve_time:
  assumes "calm r"
  shows "bucket_sum k (recorded r) = bucket_sum k (reported r) + unreported r k"
  using calm_inv [OF assms] unfolding race_inv_def by blast

text \<open>A sequence of steps.\<close>

fun race_steps :: "race \<Rightarrow> race_act list \<Rightarrow> race \<Rightarrow> bool" where
  "race_steps r [] r' \<longleftrightarrow> r' = r"
| "race_steps r (a # as) r' \<longleftrightarrow> (\<exists>t. race_step r a t \<and> race_steps t as r')"

lemma race_steps_append:
  "race_steps r (as @ bs) t \<longleftrightarrow> (\<exists>u. race_steps r as u \<and> race_steps u bs t)"
  by (induction as arbitrary: r) auto

text \<open>Undisturbed, the single steps of a flush do what \<open>flush_window\<close> does to the map.\<close>

lemma listing_steps:
  assumes "distinct (map fst xs)" "\<forall>(k, v) \<in> set xs. buckets (kern r) k = Some v"
    "to_remove r = []" "fst ` set (snapshot r) \<inter> fst ` set xs = {}"
  shows "race_steps r (map (\<lambda>x. Lists (fst x)) xs) (r\<lparr>snapshot := snapshot r @ xs\<rparr>)"
  using assms
proof (induction xs arbitrary: r)
  case (Cons x xs)
  obtain k v where x: "x = (k, v)" by fastforce
  let ?r = "r\<lparr>snapshot := snapshot r @ [(k, v)]\<rparr>"
  have "race_step r (Lists k) ?r"
    using Cons.prems x by (intro race_step.lists) auto
  moreover have "race_steps ?r (map (\<lambda>x. Lists (fst x)) xs) (?r\<lparr>snapshot := snapshot ?r @ xs\<rparr>)"
    using Cons.prems x by (intro Cons.IH) auto
  ultimately show ?case
    by (auto simp: x)
qed simp

lemma removing_steps:
  "to_remove r = map fst xs \<Longrightarrow>
     race_steps r (replicate (length xs) Removes)
       (r\<lparr>kern := (kern r)\<lparr>buckets := drain_buckets roomy_ops xs (buckets (kern r))\<rparr>, to_remove := []\<rparr>)"
proof (induction xs arbitrary: r)
  case Nil
  then show ?case by (simp add: drain_buckets_def)
next
  case (Cons x xs)
  let ?r = "r\<lparr>kern := (kern r)\<lparr>buckets := (buckets (kern r))(fst x := None)\<rparr>, to_remove := map fst xs\<rparr>"
  have "race_step r Removes ?r"
    using Cons.prems by (intro race_step.removes) simp
  moreover have "race_steps ?r (replicate (length xs) Removes)
      (?r\<lparr>kern := (kern ?r)\<lparr>buckets := drain_buckets roomy_ops xs (buckets (kern ?r))\<rparr>, to_remove := []\<rparr>)"
    by (rule Cons.IH) simp
  ultimately show ?case
    by (auto simp: drain_buckets_def)
qed

lemma whole_flush:
  assumes "lists xs (buckets (kern r))" "snapshot r = []" "to_remove r = []"
  shows "race_steps r (map (\<lambda>x. Lists (fst x)) xs @ Drains # replicate (length xs) Removes)
    (r\<lparr>kern := (kern r)\<lparr>buckets := drain_buckets roomy_ops xs (buckets (kern r))\<rparr>,
       reported := reported r @ xs\<rparr>)"
proof -
  let ?listed = "r\<lparr>snapshot := xs\<rparr>"
  let ?drained = "r\<lparr>to_remove := map fst xs, reported := reported r @ xs\<rparr>"
  have "\<forall>(k, v) \<in> set xs. buckets (kern r) k = Some v"
    using assms(1) map_of_is_SomeI [of xs] unfolding lists_def by auto
  then have "race_steps r (map (\<lambda>x. Lists (fst x)) xs) ?listed"
    using listing_steps [of xs r] assms by (simp add: lists_def)
  moreover have "race_step ?listed Drains (?listed\<lparr>snapshot := [], to_remove := map fst (snapshot ?listed),
      reported := reported ?listed @ snapshot ?listed\<rparr>)"
    by (rule race_step.drains) (simp add: assms)
  then have "race_step ?listed Drains ?drained"
    using assms(2) by (cases r) simp
  moreover have "race_steps ?drained (replicate (length xs) Removes)
      (r\<lparr>kern := (kern r)\<lparr>buckets := drain_buckets roomy_ops xs (buckets (kern r))\<rparr>,
         reported := reported r @ xs\<rparr>)"
    using removing_steps [of ?drained xs] assms(3) by (cases r) simp
  ultimately show ?thesis
    by (auto simp: race_steps_append)
qed

subsection \<open>A flush inside a wake-up\<close>

text \<open>C18: when a flush lists and removes a bucket while a wake-up is between its lookup of that bucket
  and its insert, the insert brings back the old total, which has just been reported, and the
  next flush reports it again: over the two flushes the bucket's old time is reported twice.\<close>

theorem flush_inside_wakeup_reports_twice:
  assumes "pend r n = Some (c, w)" "hash_ops_ok (bucket_ops c)" "update_admits (bucket_ops c)"
    and "buckets (kern r) (pw_key w) = Some v" "pw_total w = v + pw_delta w"
    and "snapshot r = []" "to_remove r = []"
  shows "\<exists>t. race_steps r [Lists (pw_key w), Drains, Removes, Writes n, Lists (pw_key w), Drains, Removes] t \<and>
    bucket_sum (pw_key w) (recorded t) = bucket_sum (pw_key w) (recorded r) + pw_delta w \<and>
    bucket_sum (pw_key w) (reported t) = bucket_sum (pw_key w) (reported r) + v + (v + pw_delta w)"
  using assms
  by (simp add: race_step_simps wakeup_writes_def hash_update_admitted bucket_sum_append
      bucket_sum_Cons add.assoc)

text \<open>
  Thread 740 sleeps on stack 5 from 1000 to 1800 and from 3000 to 3050; the two flushes report 800
  and 850.
\<close>

definition sleep_740 :: "u64 \<Rightarrow> io_hit_ctx" where
  "sleep_740 now = io_ctx 736 740 now 740 1 5"

definition wake_740 :: "u64 \<Rightarrow> io_hit_ctx" where
  "wake_740 now = io_ctx 9 9 now 740 0 0"

definition key_740 :: bucket_key where
  "key_740 = \<lparr>bk_pid = 740, bk_stack_id = 5\<rparr>"

definition one_sleep :: "race_act list" where
  "one_sleep = [Switches (sleep_740 1000), Reads 0 (wake_740 1800), Writes 0]"

lemma second_wakeup_half_way:
  "\<exists>r w. race_steps (race_init 736)
       (one_sleep @ [Switches (sleep_740 3000), Reads 0 (wake_740 3050)]) r \<and>
     pend r 0 = Some (wake_740 3050, w) \<and> w = \<lparr>pw_key = key_740, pw_delta = 50, pw_total = 850\<rparr> \<and>
     buckets (kern r) key_740 = Some 800 \<and> snapshot r = [] \<and> to_remove r = [] \<and>
     recorded r = [(key_740, 800)] \<and> reported r = []"
  by (simp add: one_sleep_def race_step_simps race_init_def wakeup_reads_def wakeup_writes_def
      start_step slept_def sleep_740_def wake_740_def key_740_def saturating_sub_def Let_def)

theorem flush_inside_wakeup_reports_twice_witness:
  "\<exists>as t. race_steps (race_init 736) as t \<and>
     bucket_sum key_740 (recorded t) = 850 \<and> bucket_sum key_740 (reported t) = 1650"
proof -
  let ?as = "one_sleep @ [Switches (sleep_740 3000), Reads 0 (wake_740 3050)]"
  let ?w = "\<lparr>pw_key = key_740, pw_delta = 50, pw_total = 850\<rparr>"
  obtain r where run: "race_steps (race_init 736) ?as r" and
    half: "pend r 0 = Some (wake_740 3050, ?w)" "buckets (kern r) key_740 = Some 800"
      "snapshot r = []" "to_remove r = []" "recorded r = [(key_740, 800)]" "reported r = []"
    using second_wakeup_half_way by blast
  have "\<exists>t. race_steps r [Lists key_740, Drains, Removes, Writes 0, Lists key_740, Drains, Removes] t \<and>
      bucket_sum key_740 (recorded t) = 850 \<and> bucket_sum key_740 (reported t) = 1650"
    using flush_inside_wakeup_reports_twice [OF half(1), of 800] half(2-6)
    by (simp del: race_steps.simps add: wake_740_def bucket_sum_Cons)
  then show ?thesis
    using run race_steps_append by blast
qed

text \<open>A run without a race: one sleep, one flush.\<close>

fun calm_steps :: "race \<Rightarrow> race_act list \<Rightarrow> race \<Rightarrow> bool" where
  "calm_steps r [] r' \<longleftrightarrow> r' = r"
| "calm_steps r (a # as) r' \<longleftrightarrow>
     exclusive r \<and> admitted a \<and> (\<exists>t. race_step r a t \<and> calm_steps t as r')"

lemma calm_steps_calm: "calm r \<Longrightarrow> calm_steps r as r' \<Longrightarrow> calm r'"
  by (induction as arbitrary: r) (auto intro: calm.step)

lemma one_sleep_one_flush:
  "\<exists>r. calm_steps (race_init 736) (one_sleep @ [Lists key_740, Drains, Removes]) r \<and>
     reported r = [(key_740, 800)]"
  by (simp add: one_sleep_def race_step_simps race_init_def wakeup_reads_def wakeup_writes_def
      start_step slept_def sleep_740_def wake_740_def key_740_def saturating_sub_def Let_def
      exclusive_def held_def)

theorem calm_runs_conserve_time_witness:
  "\<exists>r. reported r = [(key_740, 800)] \<and>
     bucket_sum key_740 (recorded r) = bucket_sum key_740 (reported r) + unreported r key_740"
proof -
  obtain r where run: "calm_steps (race_init 736) (one_sleep @ [Lists key_740, Drains, Removes]) r"
    and reported: "reported r = [(key_740, 800)]"
    using one_sleep_one_flush by blast
  have "calm r"
    by (rule calm_steps_calm [OF calm.start run])
  from calm_runs_conserve_time [OF this, of key_740] show ?thesis
    using reported by blast
qed

end
