(* ===== verification/Iowait_Flush.thy ===== *)
theory Iowait_Flush
  imports Iowait_Loop
begin

section \<open>tragach-iowait: the account of one flush\<close>

text \<open>
  \<open>flush_window\<close> as a whole, in both formats and with the idle filter on or off: which buckets are
  gone afterwards, and where each bucket that was read shows in the report.
\<close>

text \<open>The buckets the idle filter drops, and the others by the reason of their stack.\<close>

definition idle_buckets :: "flush_args \<Rightarrow> (bucket_key \<times> u64) list \<Rightarrow> (bucket_key \<times> u64) list" where
  "idle_buckets a xs = filter (\<lambda>x. fa_exclude_idle a \<and> idle_threshold_ns a \<le> snd x) xs"

definition buckets_of_reason ::
  "flush_env \<Rightarrow> kallsyms \<Rightarrow> flush_args \<Rightarrow> (bucket_key \<times> u64) list \<Rightarrow> reason \<Rightarrow>
     (bucket_key \<times> u64) list" where
  "buckets_of_reason env ks a xs r =
     filter (\<lambda>x. \<not> (fa_exclude_idle a \<and> idle_threshold_ns a \<le> snd x) \<and> reason_of env ks x = r) xs"

lemma retained_not_idle:
  "retained a xs = filter (\<lambda>x. \<not> (fa_exclude_idle a \<and> idle_threshold_ns a \<le> snd x)) xs"
  by (simp add: retained_def not_le)

lemma aggregate_retained:
  "aggregate env ks (retained a xs) r =
     (let ys = buckets_of_reason env ks a xs r in if ys = [] then None else Some (agg_of env ks ys))"
proof -
  have "filter (\<lambda>x. reason_of env ks x = r) (retained a xs) = buckets_of_reason env ks a xs r"
    by (simp add: retained_not_idle buckets_of_reason_def conj_commute)
  then show ?thesis
    by (simp only: aggregate_closed by_reason_of_def)
qed

lemma excluded_count:
  "(if fa_exclude_idle a then length xs - length (retained a xs) else 0) = length (idle_buckets a xs)"
proof -
  have "length xs = length (idle_buckets a xs) + length (retained a xs)"
    unfolding idle_buckets_def retained_not_idle by (rule sum_length_filter_compl [symmetric])
  moreover have "\<not> fa_exclude_idle a \<Longrightarrow> idle_buckets a xs = []"
    by (simp add: idle_buckets_def)
  ultimately show ?thesis
    by simp
qed

text \<open>No bucket is counted twice and none is left out.\<close>

lemma buckets_split:
  "(\<Sum>r \<in> UNIV. ns_sum (buckets_of_reason env ks a xs r)) + ns_sum (idle_buckets a xs) = ns_sum xs"
proof -
  have "buckets_of_reason env ks a xs r = filter (\<lambda>x. reason_of env ks x = r) (retained a xs)" for r
    by (simp add: retained_not_idle buckets_of_reason_def conj_commute)
  then have "(\<Sum>r \<in> UNIV. ns_sum (buckets_of_reason env ks a xs r)) = ns_sum (retained a xs)"
    by (simp only: ns_sum_reasons)
  then show ?thesis
    using ns_sum_split [of xs "\<lambda>x. fa_exclude_idle a \<and> idle_threshold_ns a \<le> snd x"]
    by (simp only: idle_buckets_def retained_not_idle)
qed

lemma flush_reports:
  assumes "fe_iter env = map Inr xs"
  shows "flush_window env ks a m =
    (if fe_writes env
     then Inr (let n = length (idle_buckets a xs); g = aggregate env ks (retained a xs)
               in if fa_json a then IoJson (json_window env a n g) else IoLines (human_window env a n g))
     else Inl (), drain_buckets (fe_ops env) xs m)"
  by (simp only: flush_window_def assms snapshot_of_Inr sum.case Let_def excluded_count)

lemma json_reasons:
  assumes "lists (fe_enum_reasons env g) g"
  shows "jw_by_reason (json_window env a n g) (reason_label r) = map_option (json_reason_of env a) (g r)"
  using assms labelled [of "fe_enum_reasons env g" "json_reason_of env a" Map.empty r]
  by (simp add: json_window_def lists_def split: option.splits)

text \<open>What the human format says of a window, given its reasons in the order printed.\<close>

definition human_report ::
  "flush_env \<Rightarrow> flush_args \<Rightarrow> nat \<Rightarrow> (reason \<times> reason_agg) list \<Rightarrow> string list" where
  "human_report env a n rs =
     [''=== tragach-iowait  '' @ fe_window_text env @ '' window  pid='' @
        decimal (unat (fa_pid a)) @ '' ===''] @
     (if fa_exclude_idle a
      then [''  --exclude-idle: dropped '' @ decimal n @ '' bucket(s) above '' @
              fixed 0 (f64_mul (fa_idle_threshold a) (f64_of_nat 100)) @ ''% of window'']
      else []) @
     (if rs = [] then [''  (no off-CPU activity in this window)'']
      else ''Off-CPU time by reason:'' # concat (map (reason_lines env a) rs)) @
     ['''']"

lemma human_reasons:
  assumes "lists (fe_enum_reasons env g) g"
  shows "\<exists>rs. human_window env a n g = human_report env a n rs \<and> distinct (map fst rs) \<and>
    map_of rs = g \<and> sorted_wrt (\<ge>) (map (\<lambda>x. ra_total_ns (snd x)) rs)"
proof -
  let ?l = "fe_enum_reasons env g" and ?f = "\<lambda>x :: reason \<times> reason_agg. ra_total_ns (snd x)"
  let ?rs = "sort_desc ?f ?l"
  have l: "distinct (map fst ?l)" "map_of ?l = g"
    using assms by (simp_all add: lists_def)
  have set: "set ?rs = set ?l"
    using mset_eq_setD [OF sort_desc_mset] .
  have "mset (map fst ?rs) = mset (map fst ?l)"
    by simp
  then have dist: "distinct (map fst ?rs)"
    using l(1) mset_eq_imp_distinct_iff by blast
  then have "map_of ?rs = g"
    using map_of_inject_set [OF dist l(1)] set l(2) by simp
  moreover have "?l = [] \<longleftrightarrow> ?rs = []"
    using set by (metis set_empty)
  then have "human_window env a n g = human_report env a n ?rs"
    by (simp only: human_window_def human_report_def Let_def)
  ultimately show ?thesis
    using dist sort_desc_sorted [of ?f ?l] by blast
qed

text \<open>C33: a flush takes exactly the buckets it listed, and accounts for every one of them. After a
  flush that read the buckets \<open>xs\<close>, those keys are gone from the map and every other key is as it
  was (so the map is empty when the kernel listed it as it is). If the write fails they are
  gone unreported; if it succeeds, each bucket read is either dropped by \<open>--exclude-idle\<close> (when it
  is on and the bucket reaches the threshold) and counted as such, or counted under exactly one
  reason, the one its stack classifies to. In JSON a reason shows the sum of its buckets' times
  in whole milliseconds (saturated at the largest \<open>u64\<close>) and the number of their distinct
  threads, and is absent when it has none; the human format prints exactly the same sums,
  threads and stacks, one block per present reason, by descending time. (Assumed: a removal
  removes its key, and iterating the hash map of reasons lists each entry once.) When reading
  the map fails, nothing is removed and nothing is reported.\<close>

theorem flush_takes_what_it_lists:
  assumes "remove_ok (fe_ops env)" "fe_iter env = map Inr xs"
    and "\<forall>g. lists (fe_enum_reasons env g) g"
  shows "(\<forall>k. snd (flush_window env ks a m) k = (if k \<in> fst ` set xs then None else m k)) \<and>
    (lists xs m \<longrightarrow> snd (flush_window env ks a m) = Map.empty) \<and>
    (\<not> fe_writes env \<longrightarrow> fst (flush_window env ks a m) = Inl ()) \<and>
    (fe_writes env \<and> fa_json a \<longrightarrow> (\<exists>j. fst (flush_window env ks a m) = Inr (IoJson j) \<and>
      jw_excluded j = length (idle_buckets a xs) \<and>
      (\<forall>r. let ys = buckets_of_reason env ks a xs r in
        case jw_by_reason j (reason_label r) of None \<Rightarrow> ys = []
        | Some x \<Rightarrow> ys \<noteq> [] \<and>
          unat (jr_total_ms x) = min (ns_sum ys) (2 ^ 64 - 1) div 1000000 \<and>
          jr_threads x = card ((\<lambda>y. bk_pid (fst y)) ` set ys)))) \<and>
    (fe_writes env \<and> \<not> fa_json a \<longrightarrow> (\<exists>rs.
      fst (flush_window env ks a m) =
        Inr (IoLines (human_report env a (length (idle_buckets a xs)) rs)) \<and>
      distinct (map fst rs) \<and> sorted_wrt (\<ge>) (map (\<lambda>x. ra_total_ns (snd x)) rs) \<and>
      (\<forall>r. map_of rs r = (let ys = buckets_of_reason env ks a xs r in
        if ys = [] then None else Some (agg_of env ks ys))))) \<and>
    (\<Sum>r \<in> UNIV. ns_sum (buckets_of_reason env ks a xs r)) + ns_sum (idle_buckets a xs) = ns_sum xs \<and>
    (\<forall>env' e. snapshot_of (fe_iter env') = Inl e \<longrightarrow> flush_window env' ks a m = (Inl e, m))"
proof -
  let ?g = "aggregate env ks (retained a xs)" and ?n = "length (idle_buckets a xs)"
  note flush = flush_reports [OF assms(2), of ks a m]
  have drained: "snd (flush_window env ks a m) k = (if k \<in> fst ` set xs then None else m k)" for k
    by (simp add: flush drain_buckets_eq [OF assms(1)] restrict_map_def)
  have empty: "lists xs m \<Longrightarrow> snd (flush_window env ks a m) = Map.empty"
    using drain_lists [OF assms(1)] by (simp add: flush)
  have total: "unat (sat n div 1000000) = min n (2 ^ 64 - 1) div 1000000" for n
    by (simp add: unat_div unat_sat)
  have json: "let ys = buckets_of_reason env ks a xs r in
      case jw_by_reason (json_window env a ?n ?g) (reason_label r) of None \<Rightarrow> ys = []
      | Some x \<Rightarrow> ys \<noteq> [] \<and> unat (jr_total_ms x) = min (ns_sum ys) (2 ^ 64 - 1) div 1000000 \<and>
        jr_threads x = card ((\<lambda>y. bk_pid (fst y)) ` set ys)" for r
    using json_reasons [OF assms(3) [rule_format], of a ?n ?g r] total
    by (simp add: aggregate_retained Let_def json_reason_of_def agg_of_def)
  have human: "\<exists>rs. human_window env a ?n ?g = human_report env a ?n rs \<and> distinct (map fst rs) \<and>
      sorted_wrt (\<ge>) (map (\<lambda>x. ra_total_ns (snd x)) rs) \<and>
      (\<forall>r. map_of rs r = (let ys = buckets_of_reason env ks a xs r in
        if ys = [] then None else Some (agg_of env ks ys)))"
    using human_reasons [OF assms(3) [rule_format], of a ?n ?g] aggregate_retained [of env ks a xs]
    by metis
  have failed: "snapshot_of (fe_iter env') = Inl e \<Longrightarrow> flush_window env' ks a m = (Inl e, m)" for env' e
    by (simp add: flush_window_def)
  show ?thesis
    using drained empty json human failed buckets_split [of env ks a xs]
    by (simp add: flush json_window_def)
qed

definition busy_buckets :: "(bucket_key \<times> u64) list" where
  "busy_buckets =
     [(\<lparr>bk_pid = 740, bk_stack_id = 5\<rparr>, 3000000000), (\<lparr>bk_pid = 741, bk_stack_id = - 1\<rparr>, 90000000),
      (\<lparr>bk_pid = 742, bk_stack_id = 5\<rparr>, 2000000000), (\<lparr>bk_pid = 743, bk_stack_id = 5\<rparr>, 5000000000)]"

theorem flush_takes_what_it_lists_witness:
  "snd (flush_window (sample_env (map Inr busy_buckets)) sample_syms
     (sample_args\<lparr>fa_exclude_idle := True\<rparr>) (map_of busy_buckets)) = Map.empty \<and>
   (\<exists>j x. fst (flush_window (sample_env (map Inr busy_buckets)) sample_syms
     (sample_args\<lparr>fa_exclude_idle := True\<rparr>) (map_of busy_buckets)) = Inr (IoJson j) \<and>
     jw_excluded j = 1 \<and> jw_by_reason j (reason_label Futex) = Some x \<and>
     unat (jr_total_ms x) = 5000 \<and> jr_threads x = 2)"
proof -
  let ?a = "sample_args\<lparr>fa_exclude_idle := True\<rparr>" and ?env = "sample_env (map Inr busy_buckets)"
  let ?ys = "buckets_of_reason ?env sample_syms ?a busy_buckets Futex"
  have "unat (idle_threshold_ns ?a) = unat (5000000000 :: u64)"
    using default_idle_threshold [of ?a] by (simp add: sample_args_def)
  then have threshold: "idle_threshold_ns ?a = 5000000000"
    by (simp only: word_unat_eq_iff)
  have idle: "length (idle_buckets ?a busy_buckets) = 1"
    unfolding idle_buckets_def threshold by (simp add: busy_buckets_def)
  have reasons: "reason_of (sample_env es) sample_syms (k, v) = (if bk_stack_id k = 5 then Futex else OtherReason)"
    if "bk_stack_id k \<in> {5, - 1}" for es k v
    using that by (auto simp: reason_of_def frames_of_def sample_env_def sample_syms_def
      lookup_def partition_point_def bisect.simps classify_def is_block_io_def is_futex_def prefix_heads)
  have ys: "?ys = [(\<lparr>bk_pid = 740, bk_stack_id = 5\<rparr>, 3000000000),
      (\<lparr>bk_pid = 742, bk_stack_id = 5\<rparr>, 2000000000)]"
    unfolding buckets_of_reason_def threshold by (simp add: busy_buckets_def reasons)
  have env: "remove_ok (fe_ops ?env)" "fe_iter ?env = map Inr busy_buckets" "fe_writes ?env"
    by (simp_all add: sample_env_def remove_ok_def)
  have "\<forall>g. lists (fe_enum_reasons ?env g) g"
    using sample_enum_reasons by blast
  note flush = flush_takes_what_it_lists [OF env(1,2) this, of sample_syms ?a "map_of busy_buckets"]
  have "lists busy_buckets (map_of busy_buckets)"
    by (simp add: lists_def busy_buckets_def)
  then have empty: "snd (flush_window ?env sample_syms ?a (map_of busy_buckets)) = Map.empty"
    using flush by blast
  have "fa_json ?a"
    by (simp add: sample_args_def)
  then obtain j where j: "fst (flush_window ?env sample_syms ?a (map_of busy_buckets)) = Inr (IoJson j)"
    "jw_excluded j = length (idle_buckets ?a busy_buckets)"
    "let ys = ?ys in case jw_by_reason j (reason_label Futex) of None \<Rightarrow> ys = []
      | Some x \<Rightarrow> ys \<noteq> [] \<and> unat (jr_total_ms x) = min (ns_sum ys) (2 ^ 64 - 1) div 1000000 \<and>
        jr_threads x = card ((\<lambda>y. bk_pid (fst y)) ` set ys)"
    using flush env(3) by blast
  then obtain x where "jw_by_reason j (reason_label Futex) = Some x"
    "unat (jr_total_ms x) = 5000" "jr_threads x = 2"
    by (cases "jw_by_reason j (reason_label Futex)") (auto simp: ys ns_sum_def)
  then show ?thesis
    using empty j(1,2) idle by auto
qed

end
