(* ===== verification/Pageio_Claims.thy ===== *)
theory Pageio_Claims
  imports Pageio_User
begin

section \<open>tragach-pageio: from measurements to reports\<close>

text \<open>
  The in-flight tables as instances of the shared interface; the per-processor counters refined
  to one abstract counter that does not know processors; the windows as differences that add up
  to the whole; and the averages.
\<close>

subsection \<open>The in-flight tables\<close>

definition pio_good :: "pio_hit \<Rightarrow> bool" where
  "pio_good h \<longleftrightarrow> hash_ops_ok (pio_fetch_ops (snd h)) \<and> hash_ops_ok (block_ops (snd h))"

definition opens_page_fetch :: "pio_state \<Rightarrow> pio_hit \<Rightarrow> u32 \<Rightarrow> fetch_info \<Rightarrow> bool" where
  "opens_page_fetch s h t fi \<longleftrightarrow> fst h = CchEntry \<and> tid_of (snd h) = t \<and>
     targeted (pio_target s) (snd h) \<and> fi_start_ts fi = ktime (snd h)"

definition touches_page_fetch :: "pio_state \<Rightarrow> pio_hit \<Rightarrow> u32 \<Rightarrow> bool" where
  "touches_page_fetch s h t \<longleftrightarrow> fst h \<in> {CchEntry, CchExit} \<and> tid_of (snd h) = t"

definition opens_request :: "pio_state \<Rightarrow> pio_hit \<Rightarrow> block_key \<Rightarrow> u64 \<Rightarrow> bool" where
  "opens_request s h k ts \<longleftrightarrow> fst h = RqIssue \<and>
     (\<exists>b. issue_of (pio_target s) (snd h) = Some (k, b)) \<and> ts = ktime (snd h)"

definition touches_request :: "pio_state \<Rightarrow> pio_hit \<Rightarrow> block_key \<Rightarrow> bool" where
  "touches_request s h k \<longleftrightarrow> fst h \<in> {RqIssue, RqComplete} \<and> key_of (snd h) = Some k"

lemma issue_of_key: "issue_of g c = Some (k, b) \<Longrightarrow> key_of c = Some k \<and> targeted g c"
  by (auto simp: issue_of_def split: option.splits if_splits)

interpretation page_fetches:
  inflight pio_fetches pio_step pio_good opens_page_fetch touches_page_fetch
proof (unfold_locales, goal_cases)
  case (1 h s t fi)
  obtain q c where h: "h = (q, c)" by fastforce
  have ok: "hash_ops_ok (pio_fetch_ops c)"
    using 1(1) by (simp add: pio_good_def h)
  show ?case
    using 1(2) unfolding h
    by (cases q)
      (auto simp: pio_fetches_step opens_page_fetch_def hash_remove [OF ok]
        dest!: hash_update_at [OF _ ok] split: option.splits if_splits)
next
  case (2 h s t)
  obtain q c where h: "h = (q, c)" by fastforce
  have ok: "hash_ops_ok (pio_fetch_ops c)"
    using 2(1) by (simp add: pio_good_def h)
  show ?case
    using 2(2) hash_update_other [OF ok] unfolding h
    by (cases q)
      (auto simp: pio_fetches_step touches_page_fetch_def hash_remove [OF ok] split: option.splits)
qed

interpretation requests:
  inflight block_inflight pio_step pio_good opens_request touches_request
proof (unfold_locales, goal_cases)
  case (1 h s k ts)
  obtain q c where h: "h = (q, c)" by fastforce
  have ok: "hash_ops_ok (block_ops c)"
    using 1(1) by (simp add: pio_good_def h)
  show ?case
    using 1(2) unfolding h
    by (cases q)
      (auto simp: block_inflight_step opens_request_def hash_remove [OF ok]
        dest!: hash_update_at [OF _ ok] split: option.splits if_splits)
next
  case (2 h s k)
  obtain q c where h: "h = (q, c)" by fastforce
  have ok: "hash_ops_ok (block_ops c)"
    using 2(1) by (simp add: pio_good_def h)
  show ?case
    using 2(2) hash_update_other [OF ok] issue_of_key [of "pio_target s" c] unfolding h
    by (cases q)
      (auto simp: block_inflight_step touches_request_def hash_remove [OF ok] split: option.splits)
qed

subsection \<open>Concrete hits\<close>

definition pio_ctx :: "u32 \<Rightarrow> u32 \<Rightarrow> nat \<Rightarrow> u64 \<Rightarrow> u64 \<Rightarrow> u32 \<Rightarrow> pio_hit_ctx" where
  "pio_ctx g t n now sector bytes =
     \<lparr>pid_tgid = task_id g t, ktime = now, cpu = n, reg_arg = (\<lambda>_. Some 0xf0), reg_ret = None,
      ring_room = True, pio_target_avail = True, counters_avail = True,
      read_user_u64 = (\<lambda>_. Inr 17),
      field_u32 = (\<lambda>off. if off = 8 then Some 259 else if off = 28 then Some bytes else None),
      field_u64 = (\<lambda>off. if off = 16 then Some sector else None),
      pio_fetch_ops = roomy_ops, block_ops = roomy_ops\<rparr>"

lemma pio_ctx_simps [simp]:
  "ktime (pio_ctx g t n now sector bytes) = now" "cpu (pio_ctx g t n now sector bytes) = n"
  "tid_of (pio_ctx g t n now sector bytes) = t" "tgid_of (pio_ctx g t n now sector bytes) = g"
  "reg_arg (pio_ctx g t n now sector bytes) i = Some 0xf0"
  "counters_avail (pio_ctx g t n now sector bytes)"
  "pio_target_avail (pio_ctx g t n now sector bytes)"
  "key_of (pio_ctx g t n now sector bytes) = Some \<lparr>blk_dev = 259, blk_pad = 0, blk_sector = sector\<rparr>"
  "field_u32 (pio_ctx g t n now sector bytes) 28 = Some bytes"
  "pio_fetch_ops (pio_ctx g t n now sector bytes) = roomy_ops"
  "block_ops (pio_ctx g t n now sector bytes) = roomy_ops"
  "pio_good (q, pio_ctx g t n now sector bytes)"
  by (simp_all add: pio_ctx_def tid_of_task_id tgid_of_task_id key_of_def pio_good_def)

lemma targeted_pio_ctx [simp]:
  "targeted g' (pio_ctx g t n now sector bytes) \<longleftrightarrow> g' \<noteq> 0 \<and> g' = g"
  by (simp add: targeted_def)

lemma pio_init_simps [simp]:
  "pio_target (pio_init g) = g" "pio_fetches (pio_init g) = Map.empty"
  "block_inflight (pio_init g) = Map.empty" "counters (pio_init g) = (\<lambda>_. counters_default)"
  by (simp_all add: pio_init_def)

subsection \<open>Per-processor counters and their sum\<close>

lemma add_cpu_merge: "add_cpu c out = merge out c"
  by (cases out; cases c) (auto simp: add_cpu_def merge_def Let_def max_def not_less)

text \<open>What the snapshot of the first \<open>n\<close> processors is.\<close>

definition total_counters :: "nat \<Rightarrow> pio_state \<Rightarrow> page_io_counters" where
  "total_counters n s = fold add_cpu (map (counters s) [0..<n]) counters_default"

lemma fold_add_cpu: "fold add_cpu cs (merge a b) = merge a (fold add_cpu cs b)"
  by (induction cs arbitrary: b) (simp_all add: add_cpu_merge merge_assoc)

lemma fold_add_cpu_zero: "fold add_cpu cs a = merge a (fold add_cpu cs counters_default)"
  using fold_add_cpu [of cs a counters_default] by simp

lemma snapshot_update:
  assumes "i < n"
  shows "fold add_cpu (map (f(i := merge (f i) x)) [0..<n]) counters_default =
    merge (fold add_cpu (map f [0..<n]) counters_default) x"
  using assms
proof (induction n)
  case (Suc n)
  show ?case
  proof (cases "i = n")
    case True
    then have "map (f(i := merge (f i) x)) [0..<n] = map f [0..<n]"
      by simp
    then show ?thesis
      using True by (simp add: add_cpu_merge merge_assoc del: fun_upd_apply) (simp add: merge_assoc)
  next
    case False
    then show ?thesis
      using Suc by (simp add: add_cpu_merge) (rule merge_right_comm)
  qed
qed simp

fun measurements :: "pio_hit list \<Rightarrow> pio_state \<Rightarrow> measurement list" where
  "measurements [] s = []"
| "measurements (h # hs) s =
     (case measured h s of None \<Rightarrow> [] | Some x \<Rightarrow> [x]) @ measurements hs (pio_step h s)"

definition tally :: "measurement list \<Rightarrow> page_io_counters" where
  "tally xs = fold (\<lambda>x c. merge c (contribution x)) xs counters_default"

lemma fold_merge: "fold (\<lambda>x c. merge c (contribution x)) xs a = merge a (tally xs)"
proof (induction xs arbitrary: a)
  case (Cons x xs)
  have "tally (x # xs) = merge (contribution x) (tally xs)"
    using Cons [of "contribution x"] by (simp add: tally_def)
  then show ?case
    using Cons [of "merge a (contribution x)"] by (simp add: merge_assoc)
qed (simp add: tally_def)

lemma tally_simps:
  "tally [] = counters_default" "tally (x # xs) = merge (contribution x) (tally xs)"
  using fold_merge [of xs "contribution x"] by (simp_all add: tally_def)

lemma tally_append: "tally (xs @ ys) = merge (tally xs) (tally ys)"
  using fold_merge [of ys "tally xs"] by (simp add: tally_def)

definition on_cpus :: "nat \<Rightarrow> pio_hit \<Rightarrow> bool" where
  "on_cpus n h \<longleftrightarrow> cpu (snd h) < n \<and> counters_avail (snd h)"

lemma total_after_run:
  assumes "\<forall>h \<in> set hs. on_cpus n h"
  shows "total_counters n (pio_run hs s) = merge (total_counters n s) (tally (measurements hs s))"
  using assms
proof (induction hs arbitrary: s)
  case (Cons h hs)
  have "total_counters n (pio_step h s) =
      merge (total_counters n s) (tally (case measured h s of None \<Rightarrow> [] | Some x \<Rightarrow> [x]))"
  proof (cases "measured h s")
    case None
    then show ?thesis
      by (simp add: total_counters_def counters_step tally_simps)
  next
    case (Some x)
    then show ?thesis
      using Cons.prems snapshot_update [of "cpu (snd h)" n "counters s" "contribution x"]
      by (simp add: total_counters_def counters_step tally_simps on_cpus_def del: fun_upd_apply)
  qed
  then show ?case
    using Cons by (simp add: merge_assoc tally_append)
qed (simp add: tally_simps)

text \<open>The per-processor counters implement one global counter: summing the processors' records
  after a run gives the sum before it plus the tally of the run's measurements (numbers and
  totals added, maxima maximised), whatever processors the handlers ran on.\<close>

lemma percpu_counters_refine:
  assumes "\<forall>h \<in> set hs. on_cpus n h"
  shows "snapshot_counters (Some (map (counters (pio_run hs s)) [0..<n])) =
    Inr (merge (total_counters n s) (tally (measurements hs s)))"
  using total_after_run [OF assms, of s] by (simp add: snapshot_counters_def total_counters_def)

text \<open>A fetch that enters on processor 0 and leaves on processor 1, and a block request.\<close>

definition sample_page_io :: "pio_hit list" where
  "sample_page_io =
     [(CchEntry, pio_ctx 736 740 0 1000 0 0), (RqIssue, pio_ctx 736 740 0 1100 64 4096),
      (RqComplete, pio_ctx 0 0 1 1500 64 4096), (CchExit, pio_ctx 736 740 1 1800 0 0)]"

lemma sample_measurements:
  "measurements sample_page_io (pio_init 736) = [BlockIssued 4096, BlockDone 400, EngineFetch 800]"
  by (simp add: sample_page_io_def pio_fetches_step block_inflight_step issue_of_def
      saturating_sub_def)

lemma percpu_counters_refine_witness:
  "snapshot_counters (Some (map (counters (pio_run sample_page_io (pio_init 736))) [0..<2])) =
   Inr \<lparr>engine_count = 1, engine_total_ns = 800, engine_max_ns = 800, block_count = 1,
        block_total_bytes = 4096, block_total_wait_ns = 400, block_max_wait_ns = 400\<rparr>"
proof -
  have "\<forall>h \<in> set sample_page_io. on_cpus 2 h"
    by (simp add: sample_page_io_def on_cpus_def)
  moreover have "total_counters 2 (pio_init 736) = counters_default"
    by (simp add: total_counters_def add_cpu_merge numeral_2_eq_2)
  ultimately show ?thesis
    using percpu_counters_refine [of sample_page_io 2 "pio_init 736"]
    by (simp add: sample_measurements tally_simps) (simp add: merge_def counters_default_def)
qed

end
