(* ===== verification/Pageio_Windows.thy ===== *)
theory Pageio_Windows
  imports Pageio_Claims
begin

section \<open>tragach-pageio: life cycles, provenance and windows\<close>

text \<open>
  One fetch and one block request from start to finish; where measurements come from; what each
  window of the main loop reports, for a run of hits cut into windows; and what the averages of
  a report are.
\<close>

subsection \<open>Life cycles\<close>

definition fetch_admitted :: "pio_hit_ctx \<Rightarrow> u32 \<Rightarrow> bool" where
  "fetch_admitted c g \<longleftrightarrow> targeted g c \<and> reg_arg c 1 \<noteq> None \<and>
     hash_ops_ok (pio_fetch_ops c) \<and> update_admits (pio_fetch_ops c)"

lemma entry_stores:
  assumes "fetch_admitted c (pio_target s)"
  shows "\<exists>p. pio_fetches (pio_step (CchEntry, c) s) (tid_of c) =
    Some \<lparr>fi_start_ts = ktime c, fi_page_num = p\<rparr>"
  using assms
  by (auto simp: fetch_admitted_def pio_fetches_step hash_update_admitted)

text \<open>C29: a page fetch of the target process whose entry is admitted is measured exactly once, at its
  exit: whatever other threads and the block layer do in between, on whatever processors, the
  exit measures the time since this entry, and a further exit without an entry measures
  nothing.\<close>

theorem page_fetch_lifecycle:
  assumes "fetch_admitted c0 (pio_target s)"
    and "along (\<lambda>h s. pio_good h \<and> \<not> touches_page_fetch s h (tid_of c0)) pio_step hs
           (pio_step (CchEntry, c0) s)"
    and "tid_of c1 = tid_of c0" and "hash_ops_ok (pio_fetch_ops c1)" and "tid_of c2 = tid_of c0"
  shows "measured (CchExit, c1) (pio_run ((CchEntry, c0) # hs) s) =
      Some (EngineFetch (saturating_sub (ktime c1) (ktime c0))) \<and>
    measured (CchExit, c2) (pio_run ((CchEntry, c0) # hs @ [(CchExit, c1)]) s) = None"
proof -
  obtain p where "pio_fetches (pio_step (CchEntry, c0) s) (tid_of c0) =
      Some \<lparr>fi_start_ts = ktime c0, fi_page_num = p\<rparr>"
    using entry_stores [OF assms(1)] by blast
  then have "pio_fetches (pio_run hs (pio_step (CchEntry, c0) s)) (tid_of c0) =
      Some \<lparr>fi_start_ts = ktime c0, fi_page_num = p\<rparr>"
    using page_fetches.survives_run [OF _ assms(2)] by (simp add: pio_run_def)
  then show ?thesis
    by (simp add: assms pio_fetches_step hash_remove)
qed

theorem page_fetch_lifecycle_witness:
  "measured (CchExit, pio_ctx 736 740 1 1800 0 0)
     (pio_run [(CchEntry, pio_ctx 736 740 0 1000 0 0), (CchEntry, pio_ctx 736 741 2 1200 0 0)]
       (pio_init 736)) = Some (EngineFetch 800)"
proof -
  have "fetch_admitted (pio_ctx 736 740 0 1000 0 0) (pio_target (pio_init 736))"
    by (simp add: fetch_admitted_def)
  moreover have "along (\<lambda>h s. pio_good h \<and> \<not> touches_page_fetch s h 740) pio_step
      [(CchEntry, pio_ctx 736 741 2 1200 0 0)]
      (pio_step (CchEntry, pio_ctx 736 740 0 1000 0 0) (pio_init 736))"
    by (simp add: touches_page_fetch_def)
  ultimately show ?thesis
    using page_fetch_lifecycle [of "pio_ctx 736 740 0 1000 0 0" "pio_init 736"
        "[(CchEntry, pio_ctx 736 741 2 1200 0 0)]" "pio_ctx 736 740 1 1800 0 0"
        "pio_ctx 736 740 1 1800 0 0"]
    by (simp add: saturating_sub_def)
qed

text \<open>C30: a block request the target process issues, and whose start is stored, is measured once, at
  the first completion of its device and sector, in whatever process and on whatever processor
  the completion runs; a second completion measures nothing.\<close>

theorem block_request_lifecycle:
  assumes "issue_of (pio_target s) c0 = Some (k, b)"
    and "hash_ops_ok (block_ops c0)" and "update_admits (block_ops c0)"
    and "along (\<lambda>h s. pio_good h \<and> \<not> touches_request s h k) pio_step hs
           (pio_step (RqIssue, c0) s)"
    and "key_of c1 = Some k" and "hash_ops_ok (block_ops c1)" and "key_of c2 = Some k"
  shows "measured (RqIssue, c0) s = Some (BlockIssued b) \<and>
    measured (RqComplete, c1) (pio_run ((RqIssue, c0) # hs) s) =
      Some (BlockDone (saturating_sub (ktime c1) (ktime c0))) \<and>
    measured (RqComplete, c2) (pio_run ((RqIssue, c0) # hs @ [(RqComplete, c1)]) s) = None"
proof -
  have "block_inflight (pio_step (RqIssue, c0) s) k = Some (ktime c0)"
    using assms(1) hash_update_admitted [OF assms(2,3)] by (simp add: block_inflight_step)
  then have "block_inflight (pio_run hs (pio_step (RqIssue, c0) s)) k = Some (ktime c0)"
    using requests.survives_run [OF _ assms(4)] by (simp add: pio_run_def)
  then show ?thesis
    using assms(1,5,6,7) by (simp add: block_inflight_step hash_remove)
qed

theorem block_request_lifecycle_witness:
  "measured (RqComplete, pio_ctx 0 0 1 1500 64 4096)
     (pio_run [(RqIssue, pio_ctx 736 740 0 1100 64 4096), (RqIssue, pio_ctx 736 740 0 1200 72 4096)]
       (pio_init 736)) = Some (BlockDone 400)"
proof -
  have "issue_of (pio_target (pio_init 736)) (pio_ctx 736 740 0 1100 64 4096) =
      Some (\<lparr>blk_dev = 259, blk_pad = 0, blk_sector = 64\<rparr>, 4096)"
    by (simp add: issue_of_def)
  moreover have "along (\<lambda>h s. pio_good h \<and>
      \<not> touches_request s h \<lparr>blk_dev = 259, blk_pad = 0, blk_sector = 64\<rparr>) pio_step
      [(RqIssue, pio_ctx 736 740 0 1200 72 4096)]
      (pio_step (RqIssue, pio_ctx 736 740 0 1100 64 4096) (pio_init 736))"
    by (simp add: touches_request_def)
  ultimately show ?thesis
    using block_request_lifecycle [of "pio_init 736" "pio_ctx 736 740 0 1100 64 4096"
        "\<lparr>blk_dev = 259, blk_pad = 0, blk_sector = 64\<rparr>" 4096
        "[(RqIssue, pio_ctx 736 740 0 1200 72 4096)]" "pio_ctx 0 0 1 1500 64 4096"
        "pio_ctx 0 0 1 1500 64 4096"]
    by (simp add: saturating_sub_def)
qed

subsection \<open>Provenance\<close>

text \<open>C31: every measurement of a run that starts with empty tables stems from the target process: an
  issue is its own, a fetch time belongs to an earlier entry of the same thread in the target, a
  completion to an earlier issue of the same request by the target. With target 0 there is no
  measurement at all.\<close>

theorem measurements_of_target:
  assumes "\<forall>h \<in> set hs. pio_good h" and "measured (q, c) (pio_run hs (pio_init g)) = Some x"
  shows "g \<noteq> 0 \<and> (case x of
      BlockIssued b \<Rightarrow> q = RqIssue \<and> tgid_of c = g
    | EngineFetch d \<Rightarrow> \<exists>hs1 c0 hs2. hs = hs1 @ (CchEntry, c0) # hs2 \<and> tgid_of c0 = g \<and>
        tid_of c0 = tid_of c \<and> d = saturating_sub (ktime c) (ktime c0)
    | BlockDone d \<Rightarrow> \<exists>hs1 c0 hs2. hs = hs1 @ (RqIssue, c0) # hs2 \<and> tgid_of c0 = g \<and>
        key_of c0 = key_of c \<and> d = saturating_sub (ktime c) (ktime c0))"
proof (cases q)
  case CchExit
  then obtain fi where x: "x = EngineFetch (saturating_sub (ktime c) (fi_start_ts fi))"
    and fi: "pio_fetches (pio_run hs (pio_init g)) (tid_of c) = Some fi"
    using assms(2) by auto
  obtain hs1 h hs2 where "hs = hs1 @ h # hs2"
    and "opens_page_fetch (fold pio_step hs1 (pio_init g)) h (tid_of c) fi"
    by (rule page_fetches.origin_from_empty [OF assms(1), of "pio_init g" "tid_of c" fi])
      (use fi in \<open>simp_all add: pio_run_def\<close>)
  then show ?thesis
    using x by (cases h) (fastforce simp: opens_page_fetch_def targeted_def simp flip: pio_run_def)
next
  case RqComplete
  then obtain k ts where k: "key_of c = Some k"
    and x: "x = BlockDone (saturating_sub (ktime c) ts)"
    and ts: "block_inflight (pio_run hs (pio_init g)) k = Some ts"
    using assms(2) by (auto split: option.splits)
  obtain hs1 h hs2 where "hs = hs1 @ h # hs2"
    and "opens_request (fold pio_step hs1 (pio_init g)) h k ts"
    by (rule requests.origin_from_empty [OF assms(1), of "pio_init g" k ts])
      (use ts in \<open>simp_all add: pio_run_def\<close>)
  then show ?thesis
    using x k issue_of_key
    by (cases h) (fastforce simp: opens_request_def targeted_def simp flip: pio_run_def)
qed (use assms(2) in \<open>auto simp: issue_of_def targeted_def split: if_splits option.splits\<close>)

theorem measurements_of_target_witness:
  "\<exists>hs1 c0 hs2. sample_page_io = hs1 @ (RqIssue, c0) # hs2 \<and> tgid_of c0 = 736 \<and>
     key_of c0 = key_of (pio_ctx 0 0 1 1500 64 4096)"
proof -
  let ?hs = "[(CchEntry, pio_ctx 736 740 0 1000 0 0), (RqIssue, pio_ctx 736 740 0 1100 64 4096)]"
  have "\<forall>h \<in> set ?hs. pio_good h"
    by simp
  moreover have "measured (RqComplete, pio_ctx 0 0 1 1500 64 4096) (pio_run ?hs (pio_init 736)) =
      Some (BlockDone 400)"
    by (simp add: pio_fetches_step block_inflight_step issue_of_def saturating_sub_def)
  ultimately obtain hs1 c0 hs2 where "?hs = hs1 @ (RqIssue, c0) # hs2" "tgid_of c0 = 736"
      "key_of c0 = key_of (pio_ctx 0 0 1 1500 64 4096)"
    using measurements_of_target [of ?hs RqComplete "pio_ctx 0 0 1 1500 64 4096" 736 "BlockDone 400"]
    by auto
  moreover from this have "sample_page_io = hs1 @ (RqIssue, c0) # hs2 @ drop 2 sample_page_io"
    by (simp add: sample_page_io_def)
  ultimately show ?thesis by blast
qed

subsection \<open>Windows\<close>

text \<open>
  The hits between two ticks form a window. What a report can know of a window with tally \<open>x\<close>
  after earlier windows with tally \<open>acc\<close>: the numbers and totals of this window, but the maxima
  of everything so far.
\<close>

definition window_view :: "page_io_counters \<Rightarrow> page_io_counters \<Rightarrow> page_io_counters" where
  "window_view acc x =
     x\<lparr>engine_max_ns := max (engine_max_ns acc) (engine_max_ns x),
       block_max_wait_ns := max (block_max_wait_ns acc) (block_max_wait_ns x)\<rparr>"

lemma delta_of_merge: "delta_counters acc (merge acc x) = window_view acc x"
  by (cases x) (simp add: delta_counters_def merge_def window_view_def)

fun cpu_reads :: "nat \<Rightarrow> pio_hit list list \<Rightarrow> pio_state \<Rightarrow> page_io_counters list list" where
  "cpu_reads n [] s = []"
| "cpu_reads n (w # ws) s =
     map (counters (pio_run w s)) [0..<n] # cpu_reads n ws (pio_run w s)"

fun window_views :: "page_io_counters \<Rightarrow> pio_hit list list \<Rightarrow> pio_state \<Rightarrow> page_io_counters list" where
  "window_views acc [] s = []"
| "window_views acc (w # ws) s =
     window_view acc (tally (measurements w s)) #
     window_views (merge acc (tally (measurements w s))) ws (pio_run w s)"

lemma main_loop_windows:
  assumes "map pt_per_cpu ts = map Some (cpu_reads n ws s)" and "\<forall>t \<in> set ts. pt_writes t"
    and "\<forall>w \<in> set ws. \<forall>h \<in> set w. on_cpus n h" and "prev_snapshot l = total_counters n s"
  shows "fst (pio_main_loop a (map PioTick ts) l) = None \<and>
    pio_out (snd (pio_main_loop a (map PioTick ts) l)) =
      pio_out l @ map2 (pio_report a) ts (window_views (total_counters n s) ws s)"
  using assms
proof (induction ws arbitrary: ts s l)
  case (Cons w ws)
  obtain t ts' where ts: "ts = t # ts'" and t: "pt_per_cpu t = Some (map (counters (pio_run w s)) [0..<n])"
    and ts': "map pt_per_cpu ts' = map Some (cpu_reads n ws (pio_run w s))"
    using Cons.prems(1) by (cases ts) auto
  let ?now = "merge (total_counters n s) (tally (measurements w s))"
  let ?l = "l\<lparr>prev_snapshot := ?now,
    pio_out := pio_out l @ [pio_report a t (window_view (total_counters n s) (tally (measurements w s)))]\<rparr>"
  have total: "total_counters n (pio_run w s) = ?now"
    using Cons.prems(3) by (intro total_after_run) simp
  then have "snapshot_counters (pt_per_cpu t) = Inr ?now"
    by (simp add: t snapshot_counters_def total_counters_def)
  then have step: "pio_main_loop a (map PioTick ts) l = pio_main_loop a (map PioTick ts') ?l"
    using Cons.prems(2,4) by (simp add: ts delta_of_merge)
  show ?case
    using Cons.IH [OF ts', of ?l] Cons.prems(2,3) unfolding step by (simp add: ts total)
qed simp

lemma total_init [simp]: "total_counters n (pio_init g) = counters_default"
  by (induction n) (simp_all add: total_counters_def add_cpu_merge)

text \<open>C4: for a run cut into windows by the ticks, with every read and write succeeding, the main loop
  reports each window exactly once and in order; its counts and totals are those of the window's
  own measurements, so the reported windows partition the run, but its maxima are those of the
  whole run so far.\<close>

theorem windows_report_the_run:
  assumes "map pt_per_cpu ts = map Some (cpu_reads n ws (pio_init g))"
    and "\<forall>t \<in> set ts. pt_writes t" and "\<forall>w \<in> set ws. \<forall>h \<in> set w. on_cpus n h"
  shows "fst (pio_main_loop a (map PioTick ts) pio_loop_init) = None \<and>
    pio_out (snd (pio_main_loop a (map PioTick ts) pio_loop_init)) =
      map2 (pio_report a) ts (window_views counters_default ws (pio_init g))"
  using main_loop_windows [OF assms, of pio_loop_init a] by (simp add: pio_loop_init_def)

definition sample_ticks :: "pio_tick list" where
  "sample_ticks = map (\<lambda>cs. \<lparr>pt_per_cpu = Some cs, pt_ts = ''t'', pt_hms = ''h'',
      pt_window_text = ''5s'', pt_writes = True\<rparr>)
     (cpu_reads 2 [sample_page_io, []] (pio_init 736))"

text \<open>The second window is empty, and still shows the first one's maxima.\<close>

theorem windows_report_the_run_witness:
  "pio_out (snd (pio_main_loop \<lparr>pa_pid = 736, pa_interval_ns = 5000000000, pa_json = True\<rparr>
     (map PioTick sample_ticks) pio_loop_init)) =
   [PioJson \<lparr>pj_ts = ''t'', pj_window_ms = 5000, pj_pid = 736,
      pj_engine = \<lparr>es_count = 1, es_total_ns = 800, es_avg_ns = 800, es_max_ns = 800\<rparr>,
      pj_block = \<lparr>bs_count = 1, bs_total_bytes = 4096, bs_total_wait_ns = 400, bs_avg_wait_ns = 400,
        bs_max_wait_ns = 400\<rparr>\<rparr>,
    PioJson \<lparr>pj_ts = ''t'', pj_window_ms = 5000, pj_pid = 736,
      pj_engine = \<lparr>es_count = 0, es_total_ns = 0, es_avg_ns = 0, es_max_ns = 800\<rparr>,
      pj_block = \<lparr>bs_count = 0, bs_total_bytes = 0, bs_total_wait_ns = 0, bs_avg_wait_ns = 0,
        bs_max_wait_ns = 400\<rparr>\<rparr>]"
proof -
  have "map pt_per_cpu sample_ticks = map Some (cpu_reads 2 [sample_page_io, []] (pio_init 736))"
    and "\<forall>t \<in> set sample_ticks. pt_writes t"
    by (simp_all add: sample_ticks_def comp_def)
  moreover have "\<forall>w \<in> set [sample_page_io, []]. \<forall>h \<in> set w. on_cpus 2 h"
    by (simp add: sample_page_io_def on_cpus_def)
  moreover have "window_views counters_default [sample_page_io, []] (pio_init 736) =
      [\<lparr>engine_count = 1, engine_total_ns = 800, engine_max_ns = 800, block_count = 1,
         block_total_bytes = 4096, block_total_wait_ns = 400, block_max_wait_ns = 400\<rparr>,
       \<lparr>engine_count = 0, engine_total_ns = 0, engine_max_ns = 800, block_count = 0,
         block_total_bytes = 0, block_total_wait_ns = 0, block_max_wait_ns = 400\<rparr>]"
    by (simp add: sample_measurements tally_simps)
      (simp add: merge_def window_view_def counters_default_def)
  ultimately show ?thesis
    using windows_report_the_run [of sample_ticks 2 "[sample_page_io, []]" 736
        "\<lparr>pa_pid = 736, pa_interval_ns = 5000000000, pa_json = True\<rparr>"]
    by (simp add: sample_ticks_def pio_report_def pio_write_json_def)
qed

end
