(* ===== verification/Pageio_Averages.thy ===== *)
theory Pageio_Averages
  imports Pageio_Windows
begin

section \<open>tragach-pageio: the figures of a report\<close>

text \<open>
  The averages and maxima a report prints, in terms of the single measurements of its window;
  and the cases where the block figures mislead, because requests are counted when issued and
  their waits when completed.
\<close>

subsection \<open>The measurements of one kind\<close>

fun engine_times :: "measurement list \<Rightarrow> u64 list" where
  "engine_times [] = []"
| "engine_times (EngineFetch d # xs) = d # engine_times xs"
| "engine_times (_ # xs) = engine_times xs"

fun issue_sizes :: "measurement list \<Rightarrow> u32 list" where
  "issue_sizes [] = []"
| "issue_sizes (BlockIssued b # xs) = b # issue_sizes xs"
| "issue_sizes (_ # xs) = issue_sizes xs"

fun wait_times :: "measurement list \<Rightarrow> u64 list" where
  "wait_times [] = []"
| "wait_times (BlockDone d # xs) = d # wait_times xs"
| "wait_times (_ # xs) = wait_times xs"

lemma tally_engine:
  "engine_count (tally xs) = of_nat (length (engine_times xs))"
  "engine_total_ns (tally xs) = sum_list (engine_times xs)"
  "\<forall>d \<in> set (engine_times xs). d \<le> engine_max_ns (tally xs)"
  by (induction xs rule: engine_times.induct)
    (auto simp: tally_simps merge_def counters_default_def max_def)

lemma tally_block:
  "block_count (tally xs) = of_nat (length (issue_sizes xs))"
  "block_total_bytes (tally xs) = sum_list (map ucast (issue_sizes xs))"
  by (induction xs rule: issue_sizes.induct) (auto simp: tally_simps merge_def counters_default_def)

lemma tally_waits:
  "block_total_wait_ns (tally xs) = sum_list (wait_times xs)"
  "\<forall>d \<in> set (wait_times xs). d \<le> block_max_wait_ns (tally xs)"
  by (induction xs rule: wait_times.induct)
    (auto simp: tally_simps merge_def counters_default_def max_def)

lemma unat_sum_list:
  assumes "sum_list (map unat ds) < 2 ^ 64"
  shows "unat (sum_list (ds :: u64 list)) = sum_list (map unat ds)"
  using assms by (induction ds) (simp_all add: unat_word_ariths)

lemma sum_le_length_max:
  assumes "\<forall>d \<in> set ds. d \<le> (m :: u64)"
  shows "sum_list (map unat ds) \<le> length ds * unat m"
  using assms by (induction ds) (auto simp: word_le_nat_alt intro: add_mono)

lemma quotient_le_max:
  assumes "\<forall>d \<in> set ds. d \<le> (m :: u64)" and "length ds \<le> n"
  shows "sum_list (map unat ds) div n \<le> unat m"
proof (cases "n = 0")
  case False
  have "sum_list (map unat ds) \<le> n * unat m"
    using sum_le_length_max [OF assms(1)] mult_le_mono1 [OF assms(2), of "unat m"] by linarith
  then have "sum_list (map unat ds) div n \<le> n * unat m div n"
    by (rule div_le_mono)
  then show ?thesis
    using False by simp
qed simp

lemma of_nat_eq_0_u64: "0 < n \<Longrightarrow> n < 2 ^ 64 \<Longrightarrow> (of_nat n :: u64) \<noteq> 0"
  using unat_of_nat_small [of n, where 'a = 64] by (cases "of_nat n = (0 :: u64)") simp_all

subsection \<open>The engine figures\<close>

text \<open>C37: as long as a window's fetch times do not overflow 64 bits, its JSON report gives their
  number, their exact sum, the integer part of their mean, and a maximum that bounds each of them
  and the mean.\<close>

theorem engine_figures:
  assumes "engine_times xs \<noteq> []" and "sum_list (map unat (engine_times xs)) < 2 ^ 64"
    and "length (engine_times xs) < 2 ^ 64"
  shows "unat (es_count (pj_engine (pio_write_json ts (window_view acc (tally xs)) ms pid))) =
      length (engine_times xs) \<and>
    unat (es_total_ns (pj_engine (pio_write_json ts (window_view acc (tally xs)) ms pid))) =
      sum_list (map unat (engine_times xs)) \<and>
    unat (es_avg_ns (pj_engine (pio_write_json ts (window_view acc (tally xs)) ms pid))) =
      sum_list (map unat (engine_times xs)) div length (engine_times xs) \<and>
    (\<forall>d \<in> set (engine_times xs).
      d \<le> es_max_ns (pj_engine (pio_write_json ts (window_view acc (tally xs)) ms pid))) \<and>
    es_avg_ns (pj_engine (pio_write_json ts (window_view acc (tally xs)) ms pid)) \<le>
      es_max_ns (pj_engine (pio_write_json ts (window_view acc (tally xs)) ms pid))"
proof -
  let ?e = "pj_engine (pio_write_json ts (window_view acc (tally xs)) ms pid)"
  let ?ds = "engine_times xs"
  have pos: "0 < (of_nat (length ?ds) :: u64)"
    using of_nat_eq_0_u64 [of "length ?ds"] assms(1,3) by (simp add: word_gt_0)
  have avg: "es_avg_ns ?e = sum_list ?ds div of_nat (length ?ds)"
    and count: "es_count ?e = of_nat (length ?ds)" and total: "es_total_ns ?e = sum_list ?ds"
    using pos by (simp_all add: pio_write_json_def window_view_def tally_engine)
  have max: "\<forall>d \<in> set ?ds. d \<le> es_max_ns ?e"
    using tally_engine(3) [of xs]
    by (auto simp: pio_write_json_def window_view_def max_def)
  have n: "unat (of_nat (length ?ds) :: u64) = length ?ds"
    using assms(3) by (simp add: unat_of_nat_small)
  have uavg: "unat (es_avg_ns ?e) = sum_list (map unat ?ds) div length ?ds"
    by (simp add: avg unat_div unat_sum_list [OF assms(2)] n)
  have "es_avg_ns ?e \<le> es_max_ns ?e"
    using quotient_le_max [OF max order_refl] by (simp add: word_le_nat_alt uavg)
  then show ?thesis
    using max uavg by (simp add: count total unat_sum_list [OF assms(2)] n)
qed

theorem engine_figures_witness:
  "es_avg_ns (pj_engine (pio_write_json ''t'' (window_view counters_default
      (tally [EngineFetch 100, BlockDone 7, EngineFetch 301])) 5000 736)) = 200"
proof -
  have "unat (es_avg_ns (pj_engine (pio_write_json ''t'' (window_view counters_default
      (tally [EngineFetch 100, BlockDone 7, EngineFetch 301])) 5000 736))) = unat (200 :: u64)"
    using engine_figures [of "[EngineFetch 100, BlockDone 7, EngineFetch 301]" "''t''"
        counters_default 5000 736] by (simp flip: numeral_2_eq_2)
  then show ?thesis
    by (simp only: word_unat_eq_iff)
qed

subsection \<open>The block figures\<close>

text \<open>The block average is the total wait of the requests completed in the window divided by the
  number of requests issued in it. It is bounded by the reported maximum when the window has at
  most as many completions as issues.\<close>

lemma block_figures:
  assumes "issue_sizes xs \<noteq> []" and "length (issue_sizes xs) < 2 ^ 64"
    and "sum_list (map unat (wait_times xs)) < 2 ^ 64"
  shows "unat (bs_avg_wait_ns (pj_block (pio_write_json ts (window_view acc (tally xs)) ms pid))) =
      sum_list (map unat (wait_times xs)) div length (issue_sizes xs) \<and>
    (length (wait_times xs) \<le> length (issue_sizes xs) \<longrightarrow>
      bs_avg_wait_ns (pj_block (pio_write_json ts (window_view acc (tally xs)) ms pid)) \<le>
      bs_max_wait_ns (pj_block (pio_write_json ts (window_view acc (tally xs)) ms pid)))"
proof -
  let ?b = "pj_block (pio_write_json ts (window_view acc (tally xs)) ms pid)"
  let ?n = "length (issue_sizes xs)" and ?ds = "wait_times xs"
  have pos: "0 < (of_nat ?n :: u64)"
    using of_nat_eq_0_u64 [of ?n] assms(1,2) by (simp add: word_gt_0)
  have avg: "bs_avg_wait_ns ?b = sum_list ?ds div of_nat ?n"
    using pos by (simp add: pio_write_json_def window_view_def tally_block tally_waits)
  have max: "\<forall>d \<in> set ?ds. d \<le> bs_max_wait_ns ?b"
    using tally_waits(2) [of xs]
    by (auto simp: pio_write_json_def window_view_def max_def)
  have n: "unat (of_nat ?n :: u64) = ?n"
    using assms(2) by (simp add: unat_of_nat_small)
  have uavg: "unat (bs_avg_wait_ns ?b) = sum_list (map unat ?ds) div ?n"
    by (simp add: avg unat_div unat_sum_list [OF assms(3)] n)
  then show ?thesis
    using quotient_le_max [OF max, of ?n] by (simp add: word_le_nat_alt)
qed

lemma block_figures_witness:
  "bs_avg_wait_ns (pj_block (pio_write_json ''t'' (window_view counters_default
      (tally [BlockIssued 4096, BlockDone 400, BlockIssued 512])) 5000 736)) \<le>
   bs_max_wait_ns (pj_block (pio_write_json ''t'' (window_view counters_default
      (tally [BlockIssued 4096, BlockDone 400, BlockIssued 512])) 5000 736))"
  using block_figures [of "[BlockIssued 4096, BlockDone 400, BlockIssued 512]" "''t''"
      counters_default 5000 736] by simp

text \<open>A window in which requests only complete is printed as one without any activity, whatever
  time those requests waited.\<close>

lemma completion_only_window_printed_idle:
  assumes "engine_times xs = []" and "issue_sizes xs = []"
  shows "pio_write_human window_text hms (window_view acc (tally xs)) pid =
    [''=== tragach-pageio  '' @ window_text @ '' window  pid='' @ decimal (unat pid) @ '' ==='',
     ''  (no page-I/O activity in this window)  ['' @ hms @ '']'', '''']"
  by (simp add: pio_write_human_def window_view_def tally_engine(1) tally_block(1) assms)

lemma completion_only_window_printed_idle_witness:
  "measurements [(RqComplete, pio_ctx 0 0 1 9000000000 64 4096)]
     (pio_run [(RqIssue, pio_ctx 736 740 0 1000000000 64 4096)] (pio_init 736)) = [BlockDone 8000000000] \<and>
   pio_write_human ''5s'' ''h'' (window_view counters_default (tally [BlockDone 8000000000])) 736 =
    [''=== tragach-pageio  5s window  pid=736 ==='',
     ''  (no page-I/O activity in this window)  [h]'', '''']"
  using completion_only_window_printed_idle [of "[BlockDone 8000000000]" "''5s''" "''h''"
      counters_default 736]
  by (simp add: block_inflight_step issue_of_def saturating_sub_def decimal_def digit_char_def radix_digits.simps
      char_of_def bit_0)

text \<open>
  Three requests issued in one window and completed in the next, where one more request is
  issued: the second window's average is three times its maximum.
\<close>

lemma block_average_exceeds_maximum:
  "pj_block (pio_write_json ''t''
     (window_view (tally [BlockIssued 512, BlockIssued 512, BlockIssued 512])
       (tally [BlockDone 1000, BlockDone 1000, BlockDone 1000, BlockIssued 512])) 5000 736) =
   \<lparr>bs_count = 1, bs_total_bytes = 512, bs_total_wait_ns = 3000, bs_avg_wait_ns = 3000,
     bs_max_wait_ns = 1000\<rparr>"
  by (simp add: tally_simps)
    (simp add: merge_def window_view_def counters_default_def pio_write_json_def)

end
