(* ===== verification/Printed_Figures.thy ===== *)
theory Printed_Figures
  imports Slowquery_User Pageio_User Iowait_User
begin

section \<open>What the printed numbers say\<close>

text \<open>
  The four functions that print a quantity with a unit: \<open>fmt_duration\<close> (tragach-slowquery and
  tragach-attach), \<open>fmt_dur_ns\<close> and \<open>fmt_bytes\<close> (tragach-pageio) and \<open>fmt_ms\<close> (tragach-iowait). Three
  of them compute in binary64, whose rounding and comparisons are part of the model. Shown: which
  unit is chosen, and that the printed decimals are off by at most 51 hundredths of the last
  place, for every 64 bit value.
\<close>

definition prints :: "string \<Rightarrow> nat \<Rightarrow> real \<Rightarrow> string \<Rightarrow> bool" where
  "prints s k x unit' \<longleftrightarrow>
     (\<exists>v. s = (if k = 0 then decimal v
               else decimal (v div 10 ^ k) @ ''.'' @ pad_zero k (decimal (v mod 10 ^ k))) @ unit' \<and>
          \<bar>real v - x * 10 ^ k\<bar> \<le> 51 / 100)"

lemma prints_fixed:
  assumes "0 < snd y" "\<bar>ratio_val y - x\<bar> * 10 ^ k \<le> 1 / 100"
  shows "prints (fixed k y @ unit') k x unit'"
  using printed_error [OF assms] by (auto simp: prints_def fixed_def Let_def)

lemma prints_decimal: "\<bar>real n - x\<bar> \<le> 51 / 100 \<Longrightarrow> prints (decimal n @ unit') 0 x unit'"
  by (auto simp: prints_def)

subsection \<open>A quotient of 64 bit values\<close>

abbreviation quotient :: "nat \<Rightarrow> nat \<Rightarrow> ratio" where
  "quotient n d \<equiv> f64_div (f64_of_nat n) (f64_of_nat d)"

lemma f64_of_nat_error: "\<bar>ratio_val (f64_of_nat n) - real n\<bar> \<le> real n / 2 ^ 53"
  using f64_round_error [of "(n, 1)"] by (simp add: f64_of_nat_def ratio_val_def)

lemma quotient_error:
  assumes "0 < d" "d < 2 ^ 53"
  shows "0 < snd (quotient n d)"
    and "\<bar>ratio_val (quotient n d) - real n / real d\<bar> \<le> 3 * (real n / real d) / 2 ^ 53"
proof -
  have d: "ratio_val (f64_of_nat d) = real d"
    using assms(2) by (rule f64_of_nat_exact)
  then have pos: "0 < fst (f64_of_nat d)"
    using assms(1) by (intro ratio_val_pos) simp
  then show "0 < snd (quotient n d)"
    by (simp add: f64_pos)
  let ?x = "ratio_val (f64_of_nat n) / real d" and ?v = "real n / real d"
  have "\<bar>?x - ?v\<bar> = \<bar>ratio_val (f64_of_nat n) - real n\<bar> / real d"
    using assms(1) by (simp add: abs_divide flip: diff_divide_distrib)
  also have "\<dots> \<le> real n / 2 ^ 53 / real d"
    by (intro divide_right_mono f64_of_nat_error) simp
  finally have x: "\<bar>?x - ?v\<bar> \<le> ?v / 2 ^ 53"
    by simp
  have "\<bar>ratio_val (quotient n d) - ?x\<bar> \<le> ?x / 2 ^ 53"
    using f64_div_error [OF f64_pos(1) pos f64_pos(1), of n] unfolding d .
  moreover have "?x / 2 ^ 53 \<le> 2 * ?v / 2 ^ 53"
    using x by (intro divide_right_mono) (auto simp: abs_le_iff)
  ultimately show "\<bar>ratio_val (quotient n d) - ?v\<bar> \<le> 3 * ?v / 2 ^ 53"
    using x unfolding abs_le_iff by (auto simp: field_simps)
qed

lemma quotient_prints:
  assumes "0 < d" "d < 2 ^ 53" "n \<le> 2 ^ 35 * d" "k \<le> 2"
  shows "prints (fixed k (quotient n d) @ unit') k (real n / real d) unit'"
proof (rule prints_fixed [OF quotient_error(1) [OF assms(1,2)]])
  have "real n \<le> real (2 ^ 35 * d)"
    using assms(3) by (simp only: of_nat_le_iff)
  then have "real n / real d \<le> 2 ^ 35"
    using assms(1) by (simp add: field_simps)
  then have "\<bar>ratio_val (quotient n d) - real n / real d\<bar> \<le> 3 * 2 ^ 35 / 2 ^ 53"
    using quotient_error(2) [OF assms(1,2), of n] by simp
  moreover have "(10 :: real) ^ k \<le> 10 ^ 2"
    using assms(4) by (intro power_increasing) simp_all
  ultimately have "\<bar>ratio_val (quotient n d) - real n / real d\<bar> * 10 ^ k \<le> 3 * 2 ^ 35 / 2 ^ 53 * 10 ^ 2"
    by (intro mult_mono) simp_all
  then show "\<bar>ratio_val (quotient n d) - real n / real d\<bar> * 10 ^ k \<le> 1 / 100"
    by simp
qed

text \<open>Comparing a rounded quotient with a small integer decides as the exact one would.\<close>

lemma quotient_ge:
  assumes "0 < d" "0 < t" "3 * (t * d + 1) \<le> 2 ^ 53"
  shows "f64_ge (quotient n d) t \<longleftrightarrow> t * d \<le> n"
proof -
  have d: "d < 2 ^ 53"
  proof -
    have "d \<le> t * d" using assms(2) by simp
    then show ?thesis by (rule order_le_less_trans) (use assms(3) in simp)
  qed
  note pos = quotient_error(1) [OF assms(1) d, of n]
    and err = quotient_error(2) [OF assms(1) d, of n]
  let ?v = "real n / real d" and ?r = "ratio_val (quotient n d)"
  have iff: "f64_ge (quotient n d) t \<longleftrightarrow> real t \<le> ?r"
  proof -
    have "f64_ge (quotient n d) t \<longleftrightarrow> real (t * snd (quotient n d)) \<le> real (fst (quotient n d))"
      unfolding f64_ge_def by (simp only: of_nat_le_iff)
    then show ?thesis
      using pos by (simp add: ratio_val_def field_simps)
  qed
  have room: "3 * (real t * real d + 1) \<le> 2 ^ 53"
  proof -
    have "real (3 * (t * d + 1)) \<le> real (2 ^ 53 :: nat)"
      using assms(3) by (simp only: of_nat_le_iff)
    then show ?thesis by simp
  qed
  consider "n = t * d" | "t * d + 1 \<le> n" | "n + 1 \<le> t * d" by linarith
  then show ?thesis
  proof cases
    case 1
    have "n < 2 ^ 53"
      using 1 assms(3) by simp
    then have val: "ratio_val (f64_of_nat n) = real n" "ratio_val (f64_of_nat d) = real d"
      using d by (simp_all only: f64_of_nat_exact)
    let ?q = "(fst (f64_of_nat n) * snd (f64_of_nat d), snd (f64_of_nat n) * fst (f64_of_nat d))"
    have "ratio_val ?q = real t"
      using f64_div_val [of "f64_of_nat d" "f64_of_nat n"] val 1 assms(1) by simp
    moreover have "0 < snd ?q"
      using f64_pos(1) [of n] ratio_val_pos [of "f64_of_nat d"] val(2) assms(1) by simp
    moreover have "t \<le> t * d"
      using assms(1) by simp
    then have "t < 2 ^ 53"
      by (rule order_le_less_trans) (use assms(3) in simp)
    ultimately have "?r = real t"
      unfolding f64_div_def using f64_round_exact [of ?q t 0] by simp
    then show ?thesis
      using 1 iff by simp
  next
    case 2
    have "real (t * d + 1) \<le> real n"
      using 2 by (simp only: of_nat_le_iff)
    then have "(real t * real d + 1) / real d \<le> ?v"
      by (intro divide_right_mono) simp_all
    then have v: "real t + 1 / real d \<le> ?v"
      using assms(1) by (simp add: add_divide_distrib)
    have "3 * (real t + 1 / real d) \<le> 2 ^ 53 * (1 / real d)"
      using room assms(1) by (simp add: field_simps)
    then have "real t \<le> (real t + 1 / real d) * (1 - 3 / 2 ^ 53)"
      by (simp add: algebra_simps)
    also have "\<dots> \<le> ?v * (1 - 3 / 2 ^ 53)"
      using v by (intro mult_right_mono) simp_all
    also have "\<dots> \<le> ?r"
      using err by (simp add: abs_le_iff algebra_simps)
    finally show ?thesis
      using 2 iff by simp
  next
    case 3
    have "real (n + 1) \<le> real (t * d)"
      using 3 by (simp only: of_nat_le_iff)
    then have "?v \<le> (real t * real d - 1) / real d"
      by (intro divide_right_mono) simp_all
    then have v: "?v \<le> real t - 1 / real d"
      using assms(1) by (simp add: diff_divide_distrib)
    have "?r \<le> ?v * (1 + 3 / 2 ^ 53)"
      using err by (simp add: abs_le_iff algebra_simps)
    also have "\<dots> \<le> (real t - 1 / real d) * (1 + 3 / 2 ^ 53)"
      using v by (intro mult_right_mono) simp_all
    also have "\<dots> < real t"
      using room assms(1) by (simp add: field_simps)
    finally show ?thesis
      using 3 iff by simp
  qed
qed

subsection \<open>The four formats\<close>

lemma u64_bound: "unat (w :: u64) < 2 ^ 64"
  using unsigned_less [of w] by simp

lemma fmt_dur_ns_prints:
  "10 ^ 9 \<le> unat w \<Longrightarrow> prints (fmt_dur_ns w) 2 (real (unat w) / 10 ^ 9) ''s''"
  "10 ^ 6 \<le> unat w \<Longrightarrow> unat w < 10 ^ 9 \<Longrightarrow>
     prints (fmt_dur_ns w) 2 (real (unat w) / 10 ^ 6) ''ms''"
  "10 ^ 3 \<le> unat w \<Longrightarrow> unat w < 10 ^ 6 \<Longrightarrow>
     fmt_dur_ns w = decimal (unat w div 1000) @ ''us''"
  "unat w < 10 ^ 3 \<Longrightarrow> fmt_dur_ns w = decimal (unat w) @ ''ns''"
  using quotient_prints [of "10 ^ 9" "unat w" 2 "''s''"] u64_bound [of w]
    quotient_prints [of "10 ^ 6" "unat w" 2 "''ms''"]
  by (simp_all add: fmt_dur_ns_def word_le_nat_alt unat_div)

lemma fmt_bytes_prints:
  "2 ^ 30 \<le> unat w \<Longrightarrow> prints (fmt_bytes w) 2 (real (unat w) / 2 ^ 30) '' GB''"
  "2 ^ 20 \<le> unat w \<Longrightarrow> unat w < 2 ^ 30 \<Longrightarrow>
     prints (fmt_bytes w) 2 (real (unat w) / 2 ^ 20) '' MB''"
  "2 ^ 10 \<le> unat w \<Longrightarrow> unat w < 2 ^ 20 \<Longrightarrow>
     prints (fmt_bytes w) 2 (real (unat w) / 2 ^ 10) '' kB''"
  "unat w < 2 ^ 10 \<Longrightarrow> fmt_bytes w = decimal (unat w) @ '' B''"
  using quotient_prints [of "2 ^ 30" "unat w" 2 "'' GB''"] u64_bound [of w]
    quotient_prints [of "2 ^ 20" "unat w" 2 "'' MB''"] quotient_prints [of "2 ^ 10" "unat w" 2 "'' kB''"]
  by (simp_all add: fmt_bytes_def word_le_nat_alt)

lemma two_step_quotient:
  assumes "n \<le> 2 ^ 35 * 10 ^ 9"
  shows "prints (fixed 2 (f64_div (quotient n 1000000) (f64_of_nat 1000)) @ unit') 2 (real n / 10 ^ 9) unit'"
proof (rule prints_fixed)
  have k: "ratio_val (f64_of_nat 1000) = 1000" "0 < fst (f64_of_nat 1000)"
    using f64_of_nat_exact [of 1000] by (simp_all add: ratio_val_pos)
  note ms = quotient_error [of 1000000 n]
  show "0 < snd (f64_div (quotient n 1000000) (f64_of_nat 1000))"
    by (rule f64_pos(4) [OF _ k(2)]) (use ms(1) in simp)
  let ?ms = "ratio_val (quotient n 1000000)" and ?v = "real n / 10 ^ 9"
  let ?r = "ratio_val (f64_div (quotient n 1000000) (f64_of_nat 1000))"
  have "\<bar>?r - ?ms / 1000\<bar> \<le> ?ms / 1000 / 2 ^ 53"
    using f64_div_error [OF _ k(2) f64_pos(1), of "quotient n 1000000"] ms(1) unfolding k by simp
  moreover have "\<bar>?ms / 1000 - ?v\<bar> \<le> 3 * ?v / 2 ^ 53"
    using ms(2) unfolding abs_le_iff by (simp add: field_simps)
  moreover have "real n \<le> real (2 ^ 35 * 10 ^ 9 :: nat)"
    using assms by (simp only: of_nat_le_iff)
  then have v: "?v \<le> 2 ^ 35"
    by simp
  ultimately have "\<bar>?r - ?v\<bar> \<le> 6 * ?v / 2 ^ 53"
    unfolding abs_le_iff by (simp add: field_simps)
  also have "\<dots> \<le> 6 * 2 ^ 35 / 2 ^ 53"
    using v by (intro divide_right_mono mult_left_mono) simp_all
  finally show "\<bar>?r - ?v\<bar> * 10 ^ 2 \<le> 1 / 100"
    by simp
qed

lemma fmt_ms_prints:
  "10 ^ 9 \<le> unat w \<Longrightarrow> prints (fmt_ms w) 2 (real (unat w) / 10 ^ 9) ''s''"
  "10 ^ 6 \<le> unat w \<Longrightarrow> unat w < 10 ^ 9 \<Longrightarrow>
     prints (fmt_ms w) 0 (real (unat w) / 10 ^ 6) ''ms''"
  "unat w < 10 ^ 6 \<Longrightarrow> prints (fmt_ms w) 0 (real (unat w) / 10 ^ 3) ''us''"
  using two_step_quotient [of "unat w" "''s''"] u64_bound [of w]
    quotient_prints [of "10 ^ 6" "unat w" 0 "''ms''"] quotient_prints [of "10 ^ 3" "unat w" 0 "''us''"]
    quotient_ge [of 1000000 1000 "unat w"] quotient_ge [of 1000000 1 "unat w"]
  by (simp_all add: fmt_ms_def Let_def)

text \<open>\<open>fmt_duration\<close>, whose seconds are the sum of two doubles.\<close>

lemma fmt_duration_prints:
  "10 ^ 9 \<le> unat w \<Longrightarrow> prints (fmt_duration w) 2 (real (unat w) / 10 ^ 9) ''s''"
  "10 ^ 6 \<le> unat w \<Longrightarrow> unat w < 10 ^ 9 \<Longrightarrow>
     prints (fmt_duration w) 2 (real (unat w) / 10 ^ 6) ''ms''"
  "10 ^ 3 \<le> unat w \<Longrightarrow> unat w < 10 ^ 6 \<Longrightarrow>
     fmt_duration w = decimal (unat w div 1000) @ ''us''"
  "unat w < 10 ^ 3 \<Longrightarrow> fmt_duration w = decimal (unat w) @ ''ns''"
  using fmt_duration_forms [of w] by (auto simp: prints_def)

text \<open>C34: the printed quantities are right for every 64 bit value. Durations (\<open>fmt_duration\<close>,
  \<open>fmt_dur_ns\<close>) and byte counts (\<open>fmt_bytes\<close>) are shown in the largest unit of which they reach one
  (seconds to nanoseconds, GB to B): seconds, milliseconds, GB, MB and kB with two decimals, off
  by at most 51 hundredths of the last printed place, rounding of the doubles included;
  microseconds cut to whole ones; nanoseconds and bytes exact. Off-CPU times (\<open>fmt_ms\<close>) are shown
  in seconds with two decimals from one second on, in whole milliseconds from one millisecond
  on and in whole microseconds below that, so a time under a microsecond prints as 0us or 1us;
  these too are off by at most 51 hundredths of the last printed place. The comparisons of
  doubles that choose the unit decide as exact ones would.\<close>

theorem printed_figures_accurate:
  fixes w :: u64
  defines "n \<equiv> unat w" and "x \<equiv> real (unat w)"
  shows "(10 ^ 9 \<le> n \<longrightarrow> prints (fmt_duration w) 2 (x / 10 ^ 9) ''s'' \<and>
      prints (fmt_dur_ns w) 2 (x / 10 ^ 9) ''s'' \<and> prints (fmt_ms w) 2 (x / 10 ^ 9) ''s'') \<and>
    (10 ^ 6 \<le> n \<and> n < 10 ^ 9 \<longrightarrow> prints (fmt_duration w) 2 (x / 10 ^ 6) ''ms'' \<and>
      prints (fmt_dur_ns w) 2 (x / 10 ^ 6) ''ms'' \<and> prints (fmt_ms w) 0 (x / 10 ^ 6) ''ms'') \<and>
    (10 ^ 3 \<le> n \<and> n < 10 ^ 6 \<longrightarrow> fmt_duration w = decimal (n div 1000) @ ''us'' \<and>
      fmt_dur_ns w = decimal (n div 1000) @ ''us'') \<and>
    (n < 10 ^ 3 \<longrightarrow> fmt_duration w = decimal n @ ''ns'' \<and> fmt_dur_ns w = decimal n @ ''ns'') \<and>
    (n < 10 ^ 6 \<longrightarrow> prints (fmt_ms w) 0 (x / 10 ^ 3) ''us'') \<and>
    (2 ^ 30 \<le> n \<longrightarrow> prints (fmt_bytes w) 2 (x / 2 ^ 30) '' GB'') \<and>
    (2 ^ 20 \<le> n \<and> n < 2 ^ 30 \<longrightarrow> prints (fmt_bytes w) 2 (x / 2 ^ 20) '' MB'') \<and>
    (2 ^ 10 \<le> n \<and> n < 2 ^ 20 \<longrightarrow> prints (fmt_bytes w) 2 (x / 2 ^ 10) '' kB'') \<and>
    (n < 2 ^ 10 \<longrightarrow> fmt_bytes w = decimal n @ '' B'')"
  unfolding n_def x_def
  using fmt_duration_prints [of w] fmt_dur_ns_prints [of w] fmt_bytes_prints [of w] fmt_ms_prints [of w]
  by blast

theorem printed_figures_accurate_witness:
  "prints (fmt_duration 1500000) 2 (15 / 10) ''ms'' \<and> fmt_dur_ns 1999 = ''1us'' \<and>
   prints (fmt_bytes 8192) 2 8 '' kB'' \<and> prints (fmt_ms 1500000) 0 (15 / 10) ''ms''"
proof -
  have "decimal 1 = ''1''"
    by code_simp
  then show ?thesis
    using printed_figures_accurate [of 1500000] printed_figures_accurate [of 1999]
      printed_figures_accurate [of 8192] by simp
qed

end
