(* ===== verification/Spec2Isabelle.thy ===== *)
theory Spec2Isabelle
  imports Slowquery_Pipeline Slowquery_Invariant Slowquery_Eviction Attach_Pipeline Startup_Claims
    Xtask Main_Loops Iowait_Race Iowait_Flush Pageio_Averages Printed_Figures
begin

text \<open>
  \<^bold>\<open>Tragach: eBPF tracers for Firebird\<close>

  Tragach is a family of four command line tools that watch a running Firebird server from the
  kernel. Each tool is a pair: a few BPF programs (\<open>crates/tragach-*/src/bpf/main.rs\<close>) that the
  kernel runs when a probed function is entered or left or a tracepoint fires, and a user-space
  program (\<open>crates/tragach-*/src/main.rs\<close>) that resolves the probe addresses, attaches the
  programs, and reads what they produce.
  \<^item> tragach-slowquery reports each SQL statement with its prepare and execute times.
  \<^item> tragach-attach reports the life cycle of each database attachment.
  \<^item> tragach-iowait adds up, per thread and kernel stack, the time the server's threads sleep, and
    reports it per window and reason.
  \<^item> tragach-pageio counts and times the engine's page reads and the server's block requests, and
    reports both per window.

  \<^bold>\<open>How the model corresponds to the code\<close>

  Every operation of the source is one definition of the same name where the name is free (a
  prefix \<open>sq\<close>, \<open>at\<close>, \<open>io\<close>, \<open>pio\<close> tells the tools apart otherwise). Rust's \<open>u32\<close> and \<open>u64\<close> are words
  of that width, so arithmetic wraps where the code wraps and saturates where it saturates.
  \<open>Result\<close> is a sum with the error on the left, \<open>Option\<close> an option. A BPF program is a function
  from a hit (what the kernel gives it) and the state of its maps to the new state; \<open>*_step\<close> is
  the program of the probe that was hit, \<open>*_run\<close> a list of hits in the order they happen, so
  hits of different threads and processors interleave freely. Loops of the user-space programs
  are structural recursions over the list of things that happen (wake-ups, ring records, ticks),
  so every loop is total and no fuel is needed; a loop whose events end without a Ctrl-C returns
  \<open>None\<close> for still running.

  \<^bold>\<open>What is a parameter\<close>

  The kernel, the crates \<open>aya\<close>, \<open>tokio\<close>, \<open>object\<close>, \<open>chrono\<close>, \<open>humantime\<close> and \<open>serde_json\<close> and the
  Firebird engine are not in the repository. What the code observes of them comes with each hit,
  wake-up or tick: register values, thread and clock, the processor, user memory, whether the
  ring has room, what an insert into a map does, the order in which hash maps iterate, time
  stamps, and whether a write succeeds. The documented behaviour that a theorem relies on (a hash
  map stores the given entry or refuses; an LRU map may evict; a declared size bounds a map) is a
  named predicate on these parameters in \<open>Bpf_Platform\<close>, appears as a hypothesis, and is shown
  to hold of concrete kernels there.

  \<^bold>\<open>The theories\<close>

  Shared foundations:
  \<^item> \<open>Prelude\<close>: word types, saturating arithmetic, digits and padding, list and map lemmas, and the
    collection \<open>state_simps\<close> of each map's value after one step.
  \<^item> \<open>Bpf_Platform\<close>: maps, their laws, the hook context (\<open>tid_of\<close>, \<open>tgid_of\<close>), concrete kernels.
  \<^item> \<open>Inflight\<close>: the locales \<open>tracked\<close> (an entry can only come from an opening hit: provenance over
    runs) and \<open>inflight\<close> (foreign hits leave an entry alone: survival over runs). They are
    interpreted for the seven tables of tragach-slowquery, the live table of tragach-attach, the
    start table of tragach-iowait and both tables of tragach-pageio.
  \<^item> \<open>Wire\<close>: \<open>tragach-common/src/event.rs\<close>, the byte layout of the two records that cross the ring
    buffer, both \<open>decode_event\<close>s, and the locale \<open>wire_record\<close> with its two interpretations.
  \<^item> \<open>Rust_Str\<close>, \<open>Rust_F64\<close>: what the tools use of Rust's strings (UTF-8 validation and lossy
    decoding, \<open>lines\<close>, \<open>splitn\<close>, \<open>from_str_radix\<close>) and of binary64 arithmetic and \<open>{:.n}\<close>
    formatting, as computable functions with error bounds.
  \<^item> \<open>User_Loop\<close>: the event loop and the duration format that tragach-slowquery and tragach-attach
    share, with the locale \<open>event_tool\<close>.

  tragach-slowquery:
  \<^item> \<open>Slowquery_Bpf\<close>: the ten programs; \<open>Slowquery_Facts\<close>: each map after each program;
    \<open>Slowquery_Tables\<close>: the interpretations; \<open>Slowquery_Lifecycle\<close>, \<open>Slowquery_Claims\<close>: statements,
    cursors and immediate executions from entry to event; \<open>Slowquery_Safety\<close>: provenance of events,
    no leak through the reused scratch slots, truncation; \<open>Slowquery_Invariant\<close>: the state stays
    well formed and within the declared sizes; \<open>Slowquery_Eviction\<close>: a simulation of the run on
    tables without a limit, which bounds what eviction can cost.
  \<^item> \<open>Slowquery_User\<close>: \<open>run_event_loop\<close> and the writers, attachment ids;
    \<open>Slowquery_Pipeline\<close>: from the probes to the printed lines (all events of a run, and the line of
    one immediate or prepared statement from the text the engine was given).

  tragach-attach: \<open>Attach_Bpf\<close>, \<open>Attach_Claims\<close> (life cycle, provenance, balance, size of the
  table), \<open>Attach_User\<close> (the event loop), \<open>Attach_Pipeline\<close> (from the probes to the printed lines).

  Symbol resolution: \<open>Symbols\<close> (the table, \<open>check_unique\<close>, the locale \<open>symbol_scan\<close>) and
  \<open>Resolvers\<close> (the three \<open>resolve\<close> functions, each loop an interpretation).

  tragach-iowait: \<open>Iowait_Bpf\<close> and \<open>Iowait_Claims\<close> (samples and buckets), \<open>Iowait_Classify\<close>,
  \<open>Kallsyms\<close>, \<open>Iowait_User\<close> (\<open>flush_window\<close>), \<open>Iowait_Report\<close> (the aggregation is a partition;
  time is conserved from the scheduler to the report), \<open>Iowait_Window\<close> (draining, idle filter,
  order of the printed stacks), \<open>Iowait_Flush\<close> (where each bucket a flush reads ends up, in both
  formats), \<open>Iowait_Loop\<close> (the tick loop of \<open>main\<close> together with the kernel:
  over all windows no time is lost or reported twice), \<open>Iowait_Race\<close> (the wake-up program and the
  flush split into single map operations, as a step relation: runs without a race conserve time,
  a flush inside a wake-up reports a bucket twice).

  tragach-pageio: \<open>Pageio_Bpf\<close>, \<open>Pageio_User\<close>, \<open>Pageio_Claims\<close> (per-processor counters refine one
  counter), \<open>Pageio_Windows\<close> (life cycles, provenance, windows partition the run), \<open>Pageio_Averages\<close>
  (the figures of a report).

  For all four tools, \<open>Main_Loops\<close>: what ends their loops and that a Ctrl-C always does;
  \<open>Printed_Figures\<close>: the quantities they print with a unit are accurate.

  Starting and building: \<open>Startup\<close> (the four \<open>main\<close> functions up to their loops, and the start-up
  helpers) and \<open>Startup_Claims\<close> (what has been done when a start fails or succeeds; which address
  each program is attached to; the target is set before any program runs); \<open>Xtask\<close>
  (\<open>xtask/src/main.rs\<close> and the build scripts, of which the other three tools have the same text as
  tragach-slowquery up to formatting).

  \<^bold>\<open>Where the code is weaker than its documentation\<close>

  Some theorems state what the code does where a reader would expect more: a NUL-terminated
  statement is never flagged as truncated; nested executions on one thread lose the outer one;
  samples that complete while buckets are drained are lost, and a bucket drained inside a wake-up
  is reported twice; the maxima of tragach-pageio's
  windows are those of the whole run; its block averages divide completed waits by issued
  requests; both time filters decide equality the other way than documented.

  \<^bold>\<open>Not modelled\<close>

  Argument parsing (\<open>clap\<close> and \<open>humantime\<close>); the text of log messages and of errors beyond their
  kind. A writer is modelled as writing its whole line or failing. A handler runs as one
  step, as if no other processor touched its map entries meanwhile; \<open>Iowait_Race\<close> drops this
  assumption for the one program that reads an entry, computes and writes it back in a map that
  others change.
\<close>

end
